theory Spec2Isabelle
  imports Complex_Main
begin

section \<open>First-passage time densities of drift-diffusion models: the model of ddm_fpt_lib.c\<close>

text \<open>
  The development embeds the functions of \<^verbatim>\<open>src/ddm_fpt_lib/ddm_fpt_lib.c\<close>.

  \<^item> A C \<^verbatim>\<open>double\<close> is a \<^typ>\<open>real\<close>: arithmetic is exact, so rounding, overflow to
    infinity and NaN are outside the model. \<^verbatim>\<open>exp\<close>, \<^verbatim>\<open>sqrt\<close>, \<^verbatim>\<open>log\<close>, \<^verbatim>\<open>sin\<close>,
    \<^verbatim>\<open>fabs\<close> and \<^verbatim>\<open>floor\<close> are the functions of the same name on the reals.
  \<^item> A C \<^verbatim>\<open>int\<close> is an \<^typ>\<open>int\<close>. The loop counters of the solvers stay below
    \<^verbatim>\<open>k_max\<close>; the counters of the open-ended series loops can leave the range of
    \<^verbatim>\<open>int\<close>, so these loops take \<^verbatim>\<open>INT_MAX\<close> as the parameter \<open>imax\<close> and signed
    overflow is a fault.
  \<^item> An array passed by the caller is a list of reals, an array obtained from
    \<^verbatim>\<open>malloc\<close> is a list of optional reals (\<open>None\<close> is a cell never written), and a
    pointer that may be \<^verbatim>\<open>NULL\<close> is an optional array. Every access carries its index
    check.
  \<^item> A call either returns a value (\<open>Inr\<close>) or runs into a fault (\<open>Inl\<close>):
    a failed \<^verbatim>\<open>assert\<close>, or behaviour the C standard leaves undefined.
\<close>

subsection \<open>Faults, arrays and loops\<close>

datatype fault =
    AssertFail
  | NullDeref string
  | OutOfBounds string int
  | Uninit string int
  | IntOverflow

definition bnd :: "fault + 'a \<Rightarrow> ('a \<Rightarrow> fault + 'b) \<Rightarrow> fault + 'b" where
  "bnd m f = (case m of Inl e \<Rightarrow> Inl e | Inr x \<Rightarrow> f x)"

text \<open>\<^verbatim>\<open>#define MAX(a,b) ((a) > (b) ? (a) : (b))\<close>\<close>

definition MAX_macro :: "real \<Rightarrow> real \<Rightarrow> real" where
  "MAX_macro a b = (if a > b then a else b)"

definition PI :: real where
  "PI = pi"

definition TWOPI :: real where
  "TWOPI = 2 * PI"

definition PISQR :: real where
  "PISQR = PI * PI"

definition SERIES_ACC :: real where
  "SERIES_ACC = 1 / 10 ^ 29"

text \<open>Reading and writing \<open>a[i]\<close> of a caller's array; the name is kept for the fault.\<close>

definition rd :: "string \<Rightarrow> real list \<Rightarrow> int \<Rightarrow> fault + real" where
  "rd nm xs i =
     (if 0 \<le> i \<and> i < int (length xs) then Inr (xs ! nat i) else Inl (OutOfBounds nm i))"

definition wr :: "string \<Rightarrow> real list \<Rightarrow> int \<Rightarrow> real \<Rightarrow> fault + real list" where
  "wr nm xs i v =
     (if 0 \<le> i \<and> i < int (length xs) then Inr (xs[nat i := v]) else Inl (OutOfBounds nm i))"

text \<open>
  \<^verbatim>\<open>malloc(n * sizeof(double))\<close>: whether the allocation succeeds is an input of the model;
  a block that was obtained holds \<open>n\<close> cells without a value.
\<close>

type_synonym scratch = "real option list"

definition malloc :: "bool \<Rightarrow> int \<Rightarrow> scratch option" where
  "malloc ok n = (if ok then Some (replicate (nat n) None) else None)"

definition rdm :: "string \<Rightarrow> scratch \<Rightarrow> int \<Rightarrow> fault + real" where
  "rdm nm xs i =
     (if 0 \<le> i \<and> i < int (length xs)
      then (case xs ! nat i of None \<Rightarrow> Inl (Uninit nm i) | Some v \<Rightarrow> Inr v)
      else Inl (OutOfBounds nm i))"

definition wrm :: "string \<Rightarrow> scratch \<Rightarrow> int \<Rightarrow> real \<Rightarrow> fault + scratch" where
  "wrm nm xs i v =
     (if 0 \<le> i \<and> i < int (length xs) then Inr (xs[nat i := Some v])
      else Inl (OutOfBounds nm i))"

text \<open>Access through a pointer that was not compared with \<^verbatim>\<open>NULL\<close>.\<close>

definition rdp :: "string \<Rightarrow> scratch option \<Rightarrow> int \<Rightarrow> fault + real" where
  "rdp nm p i = (case p of None \<Rightarrow> Inl (NullDeref nm) | Some xs \<Rightarrow> rdm nm xs i)"

definition wrp :: "string \<Rightarrow> scratch option \<Rightarrow> int \<Rightarrow> real \<Rightarrow> fault + scratch option" where
  "wrp nm p i v =
     (case p of None \<Rightarrow> Inl (NullDeref nm)
      | Some xs \<Rightarrow> bnd (wrm nm xs i v) (\<lambda>xs'. Inr (Some xs')))"

text \<open>
  The number of scratch blocks of a call that are allocated and not yet freed:
  a successful \<^verbatim>\<open>malloc\<close> adds one, \<^verbatim>\<open>free\<close> of a non-null pointer removes one and
  \<^verbatim>\<open>free(NULL)\<close> does nothing.
\<close>

definition allocated :: "scratch option \<Rightarrow> nat \<Rightarrow> nat" where
  "allocated p live = (case p of None \<Rightarrow> live | Some _ \<Rightarrow> live + 1)"

definition free :: "scratch option \<Rightarrow> nat \<Rightarrow> nat" where
  "free p live = (case p of None \<Rightarrow> live | Some _ \<Rightarrow> live - 1)"

text \<open>\<^verbatim>\<open>for (i = a; i < n; ++i) body\<close>, the state \<open>s\<close> holding what the body changes.\<close>

function for_loop :: "int \<Rightarrow> int \<Rightarrow> (int \<Rightarrow> 's \<Rightarrow> fault + 's) \<Rightarrow> 's \<Rightarrow> fault + 's" where
  "for_loop i n body s =
     (if i < n
      then (case body i s of Inl e \<Rightarrow> Inl e | Inr s' \<Rightarrow> for_loop (i + 1) n body s')
      else Inr s)"
  by pat_completeness auto
termination
  by (relation "measure (\<lambda>(i, n, body, s). nat (n - i))") auto

declare for_loop.simps [simp del]

subsection \<open>The series of Navarro and Fuss\<close>

text \<open>\<^verbatim>\<open>pow(x, y)\<close> of the C library, for a positive base.\<close>

definition pow :: "real \<Rightarrow> real \<Rightarrow> real" where
  "pow x y = x powr y"

definition useshorttseries :: "real \<Rightarrow> real \<Rightarrow> int" where
  "useshorttseries t tol =
     (if 2 + sqrt (- 2 * t * ln (2 * tol * sqrt (TWOPI * t)))
           < sqrt (- 2 * ln (PI * t * tol) / (t * PISQR))
      then 1 else 0)"

text \<open>
  The body of \<^verbatim>\<open>while (1)\<close> in \<^verbatim>\<open>fpt_asymshortt\<close>, from the counter \<open>k\<close> and the sum \<open>f\<close>;
  \<open>t\<close> and \<open>tol\<close> are the values after \<^verbatim>\<open>tol *= b; t *= 2\<close>. The product \<^verbatim>\<open>2 * k\<close> is
  an \<^verbatim>\<open>int\<close> product.
\<close>

function asymshortt_loop ::
  "int \<Rightarrow> real \<Rightarrow> real \<Rightarrow> real \<Rightarrow> real \<Rightarrow> int \<Rightarrow> real \<Rightarrow> fault + real" where
  "asymshortt_loop imax t w tol b k f =
     (if 2 * k > imax then Inl IntOverflow
      else
        let c = w + real_of_int (2 * k);
            incr = c * exp (- c * c / t);
            f = f + incr
        in if \<bar>incr\<bar> < tol then Inr (f * b)
           else
             let c = w - real_of_int (2 * k);
                 incr = c * exp (- c * c / t);
                 f = f + incr
             in if \<bar>incr\<bar> < tol then Inr (f * b)
                else if k + 1 > imax then Inl IntOverflow
                else asymshortt_loop imax t w tol b (k + 1) f)"
  by pat_completeness auto
termination
  by (relation "measure (\<lambda>(imax, t, w, tol, b, k, f). nat (imax - 2 * k + 2))") auto

declare asymshortt_loop.simps [simp del]

definition fpt_asymshortt :: "int \<Rightarrow> real \<Rightarrow> real \<Rightarrow> real \<Rightarrow> fault + real" where
  "fpt_asymshortt imax t w tol =
     (let b = pow t (- 1.5) / sqrt TWOPI;
          tol = tol * b;
          t = t * 2;
          k = 1;
          f = w * exp (- w * w / t)
      in asymshortt_loop imax t w tol b k f)"

text \<open>The loop of \<^verbatim>\<open>fpt_asymlongt\<close>; \<^verbatim>\<open>k += 1\<close> is the only \<^verbatim>\<open>int\<close> operation.\<close>

function asymlongt_loop ::
  "int \<Rightarrow> real \<Rightarrow> real \<Rightarrow> real \<Rightarrow> int \<Rightarrow> real \<Rightarrow> fault + real" where
  "asymlongt_loop imax t w tol k f =
     (let kpi = real_of_int k * PI;
          incr = real_of_int k * exp (- (kpi * kpi) * t / 2) * sin (kpi * w);
          f = f + incr
      in if \<bar>incr\<bar> < tol then Inr (f * PI)
         else if k + 1 > imax then Inl IntOverflow
         else asymlongt_loop imax t w tol (k + 1) f)"
  by pat_completeness auto
termination
  by (relation "measure (\<lambda>(imax, t, w, tol, k, f). nat (imax - k))") auto

declare asymlongt_loop.simps [simp del]

definition fpt_asymlongt :: "int \<Rightarrow> real \<Rightarrow> real \<Rightarrow> real \<Rightarrow> fault + real" where
  "fpt_asymlongt imax t w tol =
     (let tol = tol * PI;
          f = 0;
          k = 1
      in asymlongt_loop imax t w tol k f)"

definition fpt_asymfastseries :: "int \<Rightarrow> real \<Rightarrow> real \<Rightarrow> real \<Rightarrow> fault + real" where
  "fpt_asymfastseries imax t w tol =
     (if t = 0 then Inr 0
      else if useshorttseries t tol \<noteq> 0 then fpt_asymshortt imax t w tol
      else fpt_asymlongt imax t w tol)"

definition fpt_asymup :: "int \<Rightarrow> real \<Rightarrow> real \<Rightarrow> real \<Rightarrow> real \<Rightarrow> real \<Rightarrow> fault + real" where
  "fpt_asymup imax t c1 c2 c3 w =
     bnd (fpt_asymfastseries imax (t / c1) (1 - w) SERIES_ACC)
         (\<lambda>s. Inr (exp (c3 - c2 * t) / c1 * s))"

definition fpt_asymlo :: "int \<Rightarrow> real \<Rightarrow> real \<Rightarrow> real \<Rightarrow> real \<Rightarrow> real \<Rightarrow> fault + real" where
  "fpt_asymlo imax t c1 c2 c4 w =
     bnd (fpt_asymfastseries imax (t / c1) w SERIES_ACC)
         (\<lambda>s. Inr (exp (c4 - c2 * t) / c1 * s))"

text \<open>
  The loop of \<^verbatim>\<open>fpt_symseries\<close>. In \<^verbatim>\<open>- (twok * twok) * a\<close> the square is an \<^verbatim>\<open>int\<close>
  product, and \<^verbatim>\<open>twok += 2\<close> is done twice in one round.
\<close>

function symseries_loop ::
  "int \<Rightarrow> real \<Rightarrow> real \<Rightarrow> real \<Rightarrow> int \<Rightarrow> real \<Rightarrow> fault + real" where
  "symseries_loop imax a b tol twok f =
     (if twok * twok > imax then Inl IntOverflow
      else
        let incr = real_of_int twok * exp (- real_of_int (twok * twok) * a);
            f = f - incr
        in if incr < tol then Inr (f * b)
           else if twok + 2 > imax \<or> (twok + 2) * (twok + 2) > imax then Inl IntOverflow
           else
             let twok = twok + 2;
                 incr = real_of_int twok * exp (- real_of_int (twok * twok) * a);
                 f = f + incr
             in if incr < tol then Inr (f * b)
                else if twok + 2 > imax then Inl IntOverflow
                else symseries_loop imax a b tol (twok + 2) f)"
  by pat_completeness auto
termination
  by (relation "measure (\<lambda>(imax, a, b, tol, twok, f). nat (imax - twok))") auto

declare symseries_loop.simps [simp del]

definition fpt_symseries :: "int \<Rightarrow> real \<Rightarrow> real \<Rightarrow> real \<Rightarrow> real \<Rightarrow> fault + real" where
  "fpt_symseries imax t a b tol =
     (let tol = tol * b;
          f = exp (- a);
          twok = 3
      in symseries_loop imax a b tol twok f)"

definition fpt_symfastseries :: "int \<Rightarrow> real \<Rightarrow> real \<Rightarrow> fault + real" where
  "fpt_symfastseries imax t tol =
     (if t = 0 then Inr 0
      else if useshorttseries t tol \<noteq> 0
      then fpt_symseries imax t (1 / (8 * t)) (1 / sqrt (8 * PI * pow t 3)) tol
      else fpt_symseries imax t (t * PISQR / 2) PI tol)"

definition fpt_symup :: "int \<Rightarrow> real \<Rightarrow> real \<Rightarrow> real \<Rightarrow> real \<Rightarrow> fault + real" where
  "fpt_symup imax t c1 c2 c3 =
     bnd (fpt_symfastseries imax (t / c1) SERIES_ACC)
         (\<lambda>s. Inr (exp (c3 - c2 * t) / c1 * s))"

subsection \<open>ddm_fpt_full\<close>

text \<open>The result of a solver: the returned \<^verbatim>\<open>int\<close>, the arrays \<open>g1\<close> and \<open>g2\<close> as the
  call leaves them, and the number of scratch blocks still allocated.\<close>

type_synonym solved = "int \<times> real list \<times> real list \<times> nat"

text \<open>The body of \<^verbatim>\<open>for (j = 1; j < k_max; ++j)\<close>, cumulative mu and sig2.\<close>

fun full_cum_body ::
  "real list \<Rightarrow> real list \<Rightarrow> real \<Rightarrow> int \<Rightarrow> real \<times> scratch \<times> real \<times> scratch
     \<Rightarrow> fault + (real \<times> scratch \<times> real \<times> scratch)" where
  "full_cum_body mu sig2 delta_t j (curr_cum_mu, cum_mu, curr_cum_sig2, cum_sig2) =
     bnd (rd ''mu'' mu j) (\<lambda>mu_j.
     let curr_cum_mu = curr_cum_mu + delta_t * mu_j in
     bnd (wrm ''cum_mu'' cum_mu j curr_cum_mu) (\<lambda>cum_mu.
     bnd (rd ''sig2'' sig2 j) (\<lambda>sig2_j.
     let curr_cum_sig2 = curr_cum_sig2 + delta_t * sig2_j in
     bnd (wrm ''cum_sig2'' cum_sig2 j curr_cum_sig2) (\<lambda>cum_sig2.
     Inr (curr_cum_mu, cum_mu, curr_cum_sig2, cum_sig2)))))"

text \<open>The forward pass of \<^verbatim>\<open>ddm_fpt_full\<close>: \<open>cum_mu\<close> and \<open>cum_sig2\<close>.\<close>

definition full_cum ::
  "real list \<Rightarrow> real list \<Rightarrow> real \<Rightarrow> int \<Rightarrow> scratch \<Rightarrow> scratch \<Rightarrow> fault + (scratch \<times> scratch)" where
  "full_cum mu sig2 delta_t k_max cum_mu cum_sig2 =
     bnd (rd ''mu'' mu 0) (\<lambda>mu_0.
     let curr_cum_mu = delta_t * mu_0 in
     bnd (wrm ''cum_mu'' cum_mu 0 curr_cum_mu) (\<lambda>cum_mu.
     bnd (rd ''sig2'' sig2 0) (\<lambda>sig2_0.
     let curr_cum_sig2 = delta_t * sig2_0 in
     bnd (wrm ''cum_sig2'' cum_sig2 0 curr_cum_sig2) (\<lambda>cum_sig2.
     bnd (for_loop 1 k_max (full_cum_body mu sig2 delta_t)
            (curr_cum_mu, cum_mu, curr_cum_sig2, cum_sig2))
       (\<lambda>(curr_cum_mu, cum_mu, curr_cum_sig2, cum_sig2).
     Inr (cum_mu, cum_sig2))))))"

text \<open>The body of \<^verbatim>\<open>for (j = 0; j < k; ++j)\<close>, relation to previous values.\<close>

fun full_inner_body ::
  "real list \<Rightarrow> real list \<Rightarrow> scratch \<Rightarrow> scratch \<Rightarrow> real list \<Rightarrow> real list
     \<Rightarrow> real \<Rightarrow> real \<Rightarrow> real \<Rightarrow> real \<Rightarrow> real \<Rightarrow> real \<Rightarrow> real \<Rightarrow> real
     \<Rightarrow> int \<Rightarrow> real \<times> real \<Rightarrow> fault + (real \<times> real)" where
  "full_inner_body b_lo b_up cum_mu cum_sig2 g1 g2
       sig2_k b_up_k b_lo_k cum_mu_k cum_sig2_k b_up_deriv_k b_lo_deriv_k delta_t_sqrt_2_pi
       j (g1_k, g2_k) =
     bnd (rdm ''cum_sig2'' cum_sig2 j) (\<lambda>cum_sig2_j.
     bnd (rdm ''cum_mu'' cum_mu j) (\<lambda>cum_mu_j.
     bnd (rd ''b_up'' b_up j) (\<lambda>b_up_j.
     bnd (rd ''b_lo'' b_lo j) (\<lambda>b_lo_j.
     bnd (rd ''g1'' g1 j) (\<lambda>g1_j.
     bnd (rd ''g2'' g2 j) (\<lambda>g2_j.
     let cum_sig2_diff_j = cum_sig2_k - cum_sig2_j;
         sqrt_cum_sig2_diff_j = sqrt cum_sig2_diff_j;
         cum_mu_diff_j = cum_mu_j - cum_mu_k;
         b_up_k_up_j_diff = b_up_k - b_up_j + cum_mu_diff_j;
         b_up_k_lo_j_diff = b_up_k - b_lo_j + cum_mu_diff_j;
         b_lo_k_up_j_diff = b_lo_k - b_up_j + cum_mu_diff_j;
         b_lo_k_lo_j_diff = b_lo_k - b_lo_j + cum_mu_diff_j;
         g1_k = g1_k + delta_t_sqrt_2_pi / sqrt_cum_sig2_diff_j *
                  (g1_j * exp (- 0.5 * b_up_k_up_j_diff * b_up_k_up_j_diff /
                               cum_sig2_diff_j) *
                   (b_up_deriv_k -
                    sig2_k * b_up_k_up_j_diff / cum_sig2_diff_j) +
                   g2_j * exp (- 0.5 * b_up_k_lo_j_diff * b_up_k_lo_j_diff /
                               cum_sig2_diff_j) *
                   (b_up_deriv_k -
                    sig2_k * b_up_k_lo_j_diff / cum_sig2_diff_j));
         g2_k = g2_k - delta_t_sqrt_2_pi / sqrt_cum_sig2_diff_j *
                  (g1_j * exp (- 0.5 * b_lo_k_up_j_diff * b_lo_k_up_j_diff /
                               cum_sig2_diff_j) *
                   (b_lo_deriv_k -
                    sig2_k * b_lo_k_up_j_diff / cum_sig2_diff_j) +
                   g2_j * exp (- 0.5 * b_lo_k_lo_j_diff * b_lo_k_lo_j_diff /
                               cum_sig2_diff_j) *
                   (b_lo_deriv_k -
                    sig2_k * b_lo_k_lo_j_diff / cum_sig2_diff_j))
     in Inr (g1_k, g2_k)))))))"

text \<open>The body of \<^verbatim>\<open>for (k = 0; k < k_max; ++k)\<close>, which fills \<open>g1[k]\<close> and \<open>g2[k]\<close>.\<close>

fun full_fill_body ::
  "real list \<Rightarrow> real list \<Rightarrow> real list \<Rightarrow> real list \<Rightarrow> real list \<Rightarrow> real list
     \<Rightarrow> scratch \<Rightarrow> scratch \<Rightarrow> real \<Rightarrow> real
     \<Rightarrow> int \<Rightarrow> real list \<times> real list \<Rightarrow> fault + (real list \<times> real list)" where
  "full_fill_body mu sig2 b_lo b_up b_lo_deriv b_up_deriv cum_mu cum_sig2
       sqrt_2_pi delta_t_sqrt_2_pi k (g1, g2) =
     bnd (rd ''sig2'' sig2 k) (\<lambda>sig2_k.
     bnd (rd ''b_up'' b_up k) (\<lambda>b_up_k.
     bnd (rd ''b_lo'' b_lo k) (\<lambda>b_lo_k.
     bnd (rdm ''cum_mu'' cum_mu k) (\<lambda>cum_mu_k.
     bnd (rdm ''cum_sig2'' cum_sig2 k) (\<lambda>cum_sig2_k.
     bnd (rd ''b_up_deriv'' b_up_deriv k) (\<lambda>b_up_deriv_at_k.
     bnd (rd ''mu'' mu k) (\<lambda>mu_k.
     bnd (rd ''b_lo_deriv'' b_lo_deriv k) (\<lambda>b_lo_deriv_at_k.
     let sqrt_cum_sig2_k = sqrt cum_sig2_k;
         b_up_deriv_k = b_up_deriv_at_k - mu_k;
         b_lo_deriv_k = b_lo_deriv_at_k - mu_k;
         g1_k = - sqrt_2_pi / sqrt_cum_sig2_k *
                  exp (- 0.5 * (b_up_k - cum_mu_k) * (b_up_k - cum_mu_k) /
                       cum_sig2_k) *
                  (b_up_deriv_k - sig2_k * (b_up_k - cum_mu_k) / cum_sig2_k);
         g2_k = sqrt_2_pi / sqrt_cum_sig2_k *
                  exp (- 0.5 * (b_lo_k - cum_mu_k) * (b_lo_k - cum_mu_k) /
                       cum_sig2_k) *
                  (b_lo_deriv_k - sig2_k * (b_lo_k - cum_mu_k) / cum_sig2_k)
     in
     bnd (for_loop 0 k
            (full_inner_body b_lo b_up cum_mu cum_sig2 g1 g2
               sig2_k b_up_k b_lo_k cum_mu_k cum_sig2_k b_up_deriv_k b_lo_deriv_k
               delta_t_sqrt_2_pi)
            (g1_k, g2_k))
       (\<lambda>(g1_k, g2_k).
     bnd (wr ''g1'' g1 k (MAX_macro g1_k 0)) (\<lambda>g1.
     bnd (wr ''g2'' g2 k (MAX_macro g2_k 0)) (\<lambda>g2.
     Inr (g1, g2))))))))))))"

text \<open>
  \<^verbatim>\<open>ddm_fpt_full\<close>. The two flags say whether the two calls of \<^verbatim>\<open>malloc\<close> succeed. The
  caller's arrays are lists, so the non-null conjuncts of the \<^verbatim>\<open>assert\<close> hold.
\<close>

definition ddm_fpt_full ::
  "bool \<Rightarrow> bool \<Rightarrow> real list \<Rightarrow> real list \<Rightarrow> real list \<Rightarrow> real list \<Rightarrow> real list \<Rightarrow> real list
     \<Rightarrow> real \<Rightarrow> int \<Rightarrow> real list \<Rightarrow> real list \<Rightarrow> fault + solved" where
  "ddm_fpt_full ok_cum_mu ok_cum_sig2 mu sig2 b_lo b_up b_lo_deriv b_up_deriv
       delta_t k_max g1 g2 =
     (if \<not> (delta_t > 0 \<and> k_max > 0) then Inl AssertFail
      else
        let cum_mu = malloc ok_cum_mu k_max;
            cum_sig2 = malloc ok_cum_sig2 k_max;
            live = allocated cum_sig2 (allocated cum_mu 0)
        in case (cum_mu, cum_sig2) of
             (Some cum_mu_blk, Some cum_sig2_blk) \<Rightarrow>
               let sqrt_2_pi = 1 / sqrt (2 * PI);
                   delta_t_sqrt_2_pi = delta_t * sqrt_2_pi
               in
               bnd (full_cum mu sig2 delta_t k_max cum_mu_blk cum_sig2_blk)
                 (\<lambda>(cum_mu_blk, cum_sig2_blk).
               bnd (for_loop 0 k_max
                      (full_fill_body mu sig2 b_lo b_up b_lo_deriv b_up_deriv
                         cum_mu_blk cum_sig2_blk sqrt_2_pi delta_t_sqrt_2_pi)
                      (g1, g2))
                 (\<lambda>(g1, g2).
               Inr (0, g1, g2, free cum_sig2 (free cum_mu live))))
           | _ \<Rightarrow> Inr (- 1, g1, g2, free cum_sig2 (free cum_mu live)))"

subsection \<open>ddm_fpt_full_leak\<close>

text \<open>The body of \<^verbatim>\<open>for (j = 1; j < k_max; ++j)\<close>, cumulative mu and sig2, and discount.\<close>

fun leak_cum_body ::
  "real list \<Rightarrow> real list \<Rightarrow> real \<Rightarrow> real \<Rightarrow> real \<Rightarrow> int
     \<Rightarrow> real \<times> scratch \<times> real \<times> scratch \<times> real \<times> scratch option
     \<Rightarrow> fault + (real \<times> scratch \<times> real \<times> scratch \<times> real \<times> scratch option)" where
  "leak_cum_body mu sig2 delta_t exp_leak exp2_leak j
       (curr_cum_mu, cum_mu, curr_cum_sig2, cum_sig2, curr_disc, disc) =
     bnd (rd ''mu'' mu j) (\<lambda>mu_j.
     let curr_cum_mu = exp_leak * curr_cum_mu + delta_t * mu_j in
     bnd (wrm ''cum_mu'' cum_mu j curr_cum_mu) (\<lambda>cum_mu.
     bnd (rd ''sig2'' sig2 j) (\<lambda>sig2_j.
     let curr_cum_sig2 = exp2_leak * curr_cum_sig2 + delta_t * sig2_j in
     bnd (wrm ''cum_sig2'' cum_sig2 j curr_cum_sig2) (\<lambda>cum_sig2.
     let curr_disc = curr_disc * exp_leak in
     bnd (wrp ''disc'' disc j curr_disc) (\<lambda>disc.
     Inr (curr_cum_mu, cum_mu, curr_cum_sig2, cum_sig2, curr_disc, disc))))))"

text \<open>The body of \<^verbatim>\<open>for (j = 0; j <= k; ++j) disc2[j] = disc[2 * j + 1];\<close>\<close>

definition leak_disc2_head :: "scratch option \<Rightarrow> int \<Rightarrow> scratch option \<Rightarrow> fault + scratch option" where
  "leak_disc2_head disc j disc2 =
     bnd (rdp ''disc'' disc (2 * j + 1)) (\<lambda>v. wrp ''disc2'' disc2 j v)"

text \<open>The body of \<^verbatim>\<open>for (j = k + 1; j < k_max; ++j)\<close>, the rest of \<open>disc2\<close>.\<close>

fun leak_disc2_tail ::
  "real \<Rightarrow> int \<Rightarrow> real \<times> scratch option \<Rightarrow> fault + (real \<times> scratch option)" where
  "leak_disc2_tail exp2_leak j (curr_disc, disc2) =
     (let curr_disc = curr_disc * exp2_leak in
      bnd (wrp ''disc2'' disc2 j curr_disc) (\<lambda>disc2.
      Inr (curr_disc, disc2)))"

text \<open>
  The forward pass of \<^verbatim>\<open>ddm_fpt_full_leak\<close>, from the constants to the end of the
  double discount: \<open>cum_mu\<close>, \<open>cum_sig2\<close>, \<open>disc\<close> and \<open>disc2\<close>. The loop with the test
  \<^verbatim>\<open>j <= k\<close> runs to \<open>k + 1\<close> exclusively.
\<close>

definition leak_cum ::
  "real list \<Rightarrow> real list \<Rightarrow> real \<Rightarrow> real \<Rightarrow> int
     \<Rightarrow> scratch \<Rightarrow> scratch \<Rightarrow> scratch option \<Rightarrow> scratch option
     \<Rightarrow> fault + (scratch \<times> scratch \<times> scratch option \<times> scratch option)" where
  "leak_cum mu sig2 inv_leak delta_t k_max cum_mu cum_sig2 disc disc2 =
     (let exp_leak = exp (- delta_t * inv_leak);
          exp2_leak = exp (- 2 * delta_t * inv_leak)
      in
      bnd (rd ''mu'' mu 0) (\<lambda>mu_0.
      let curr_cum_mu = delta_t * mu_0 in
      bnd (wrm ''cum_mu'' cum_mu 0 curr_cum_mu) (\<lambda>cum_mu.
      bnd (rd ''sig2'' sig2 0) (\<lambda>sig2_0.
      let curr_cum_sig2 = delta_t * sig2_0 in
      bnd (wrm ''cum_sig2'' cum_sig2 0 curr_cum_sig2) (\<lambda>cum_sig2.
      let curr_disc = exp_leak in
      bnd (wrp ''disc'' disc 0 curr_disc) (\<lambda>disc.
      bnd (for_loop 1 k_max (leak_cum_body mu sig2 delta_t exp_leak exp2_leak)
             (curr_cum_mu, cum_mu, curr_cum_sig2, cum_sig2, curr_disc, disc))
        (\<lambda>(curr_cum_mu, cum_mu, curr_cum_sig2, cum_sig2, curr_disc, disc).
      let k = \<lfloor>real_of_int (k_max - 1) / 2\<rfloor> in
      bnd (for_loop 0 (k + 1) (leak_disc2_head disc) disc2) (\<lambda>disc2.
      bnd (rdp ''disc2'' disc2 k) (\<lambda>curr_disc.
      bnd (for_loop (k + 1) k_max (leak_disc2_tail exp2_leak) (curr_disc, disc2))
        (\<lambda>(curr_disc, disc2).
      Inr (cum_mu, cum_sig2, disc, disc2)))))))))))"

text \<open>The body of \<^verbatim>\<open>for (j = 0; j < k; ++j)\<close>, relation to previous values.\<close>

fun leak_inner_body ::
  "real list \<Rightarrow> real list \<Rightarrow> scratch \<Rightarrow> scratch \<Rightarrow> scratch option \<Rightarrow> scratch option
     \<Rightarrow> real list \<Rightarrow> real list
     \<Rightarrow> real \<Rightarrow> real \<Rightarrow> real \<Rightarrow> real \<Rightarrow> real \<Rightarrow> real \<Rightarrow> real \<Rightarrow> real
     \<Rightarrow> int \<Rightarrow> int \<Rightarrow> real \<times> real \<Rightarrow> fault + (real \<times> real)" where
  "leak_inner_body b_lo b_up cum_mu cum_sig2 disc disc2 g1 g2
       sig2_k b_up_k b_lo_k cum_mu_k cum_sig2_k b_up_deriv_k b_lo_deriv_k delta_t_sqrt_2_pi
       k j (g1_k, g2_k) =
     bnd (rdp ''disc'' disc (k - j - 1)) (\<lambda>disc_j.
     bnd (rdp ''disc2'' disc2 (k - j - 1)) (\<lambda>disc2_j.
     bnd (rdm ''cum_sig2'' cum_sig2 j) (\<lambda>cum_sig2_j.
     bnd (rdm ''cum_mu'' cum_mu j) (\<lambda>cum_mu_j.
     bnd (rd ''b_up'' b_up j) (\<lambda>b_up_j.
     bnd (rd ''b_lo'' b_lo j) (\<lambda>b_lo_j.
     bnd (rd ''g1'' g1 j) (\<lambda>g1_j.
     bnd (rd ''g2'' g2 j) (\<lambda>g2_j.
     let cum_sig2_diff_j = cum_sig2_k - disc2_j * cum_sig2_j;
         sqrt_cum_sig2_diff_j = sqrt cum_sig2_diff_j;
         cum_mu_diff_j = disc_j * cum_mu_j - cum_mu_k;
         b_up_k_up_j_diff = b_up_k - disc_j * b_up_j + cum_mu_diff_j;
         b_up_k_lo_j_diff = b_up_k - disc_j * b_lo_j + cum_mu_diff_j;
         b_lo_k_up_j_diff = b_lo_k - disc_j * b_up_j + cum_mu_diff_j;
         b_lo_k_lo_j_diff = b_lo_k - disc_j * b_lo_j + cum_mu_diff_j;
         g1_k = g1_k + delta_t_sqrt_2_pi / sqrt_cum_sig2_diff_j *
                  (g1_j * exp (- 0.5 * b_up_k_up_j_diff * b_up_k_up_j_diff /
                               cum_sig2_diff_j) *
                   (b_up_deriv_k -
                    sig2_k * b_up_k_up_j_diff / cum_sig2_diff_j) +
                   g2_j * exp (- 0.5 * b_up_k_lo_j_diff * b_up_k_lo_j_diff /
                               cum_sig2_diff_j) *
                   (b_up_deriv_k -
                    sig2_k * b_up_k_lo_j_diff / cum_sig2_diff_j));
         g2_k = g2_k - delta_t_sqrt_2_pi / sqrt_cum_sig2_diff_j *
                  (g1_j * exp (- 0.5 * b_lo_k_up_j_diff * b_lo_k_up_j_diff /
                               cum_sig2_diff_j) *
                   (b_lo_deriv_k -
                    sig2_k * b_lo_k_up_j_diff / cum_sig2_diff_j) +
                   g2_j * exp (- 0.5 * b_lo_k_lo_j_diff * b_lo_k_lo_j_diff /
                               cum_sig2_diff_j) *
                   (b_lo_deriv_k -
                    sig2_k * b_lo_k_lo_j_diff / cum_sig2_diff_j))
     in Inr (g1_k, g2_k)))))))))"

text \<open>The body of \<^verbatim>\<open>for (k = 0; k < k_max; ++k)\<close>, which fills \<open>g1[k]\<close> and \<open>g2[k]\<close>.\<close>

fun leak_fill_body ::
  "real list \<Rightarrow> real list \<Rightarrow> real list \<Rightarrow> real list \<Rightarrow> real list \<Rightarrow> real list \<Rightarrow> real
     \<Rightarrow> scratch \<Rightarrow> scratch \<Rightarrow> scratch option \<Rightarrow> scratch option \<Rightarrow> real \<Rightarrow> real
     \<Rightarrow> int \<Rightarrow> real list \<times> real list \<Rightarrow> fault + (real list \<times> real list)" where
  "leak_fill_body mu sig2 b_lo b_up b_lo_deriv b_up_deriv inv_leak
       cum_mu cum_sig2 disc disc2 sqrt_2_pi delta_t_sqrt_2_pi k (g1, g2) =
     bnd (rd ''sig2'' sig2 k) (\<lambda>sig2_k.
     bnd (rd ''b_up'' b_up k) (\<lambda>b_up_k.
     bnd (rd ''b_lo'' b_lo k) (\<lambda>b_lo_k.
     bnd (rdm ''cum_mu'' cum_mu k) (\<lambda>cum_mu_k.
     bnd (rdm ''cum_sig2'' cum_sig2 k) (\<lambda>cum_sig2_k.
     bnd (rd ''b_up_deriv'' b_up_deriv k) (\<lambda>b_up_deriv_at_k.
     bnd (rd ''mu'' mu k) (\<lambda>mu_k.
     bnd (rd ''b_lo_deriv'' b_lo_deriv k) (\<lambda>b_lo_deriv_at_k.
     let sqrt_cum_sig2_k = sqrt cum_sig2_k;
         b_up_deriv_k = b_up_deriv_at_k + inv_leak * b_up_k - mu_k;
         b_lo_deriv_k = b_lo_deriv_at_k + inv_leak * b_lo_k - mu_k;
         g1_k = - sqrt_2_pi / sqrt_cum_sig2_k *
                  exp (- 0.5 * (b_up_k - cum_mu_k) * (b_up_k - cum_mu_k) /
                       cum_sig2_k) *
                  (b_up_deriv_k - sig2_k * (b_up_k - cum_mu_k) / cum_sig2_k);
         g2_k = sqrt_2_pi / sqrt_cum_sig2_k *
                  exp (- 0.5 * (b_lo_k - cum_mu_k) * (b_lo_k - cum_mu_k) /
                       cum_sig2_k) *
                  (b_lo_deriv_k - sig2_k * (b_lo_k - cum_mu_k) / cum_sig2_k)
     in
     bnd (for_loop 0 k
            (leak_inner_body b_lo b_up cum_mu cum_sig2 disc disc2 g1 g2
               sig2_k b_up_k b_lo_k cum_mu_k cum_sig2_k b_up_deriv_k b_lo_deriv_k
               delta_t_sqrt_2_pi k)
            (g1_k, g2_k))
       (\<lambda>(g1_k, g2_k).
     bnd (wr ''g1'' g1 k (MAX_macro g1_k 0)) (\<lambda>g1.
     bnd (wr ''g2'' g2 k (MAX_macro g2_k 0)) (\<lambda>g2.
     Inr (g1, g2))))))))))))"

text \<open>
  \<^verbatim>\<open>ddm_fpt_full_leak\<close>. Four calls of \<^verbatim>\<open>malloc\<close>; the test after them compares only
  \<open>cum_mu\<close> and \<open>cum_sig2\<close> with \<^verbatim>\<open>NULL\<close>, so \<open>disc\<close> and \<open>disc2\<close> stay pointers that may
  be null.
\<close>

definition ddm_fpt_full_leak ::
  "bool \<Rightarrow> bool \<Rightarrow> bool \<Rightarrow> bool
     \<Rightarrow> real list \<Rightarrow> real list \<Rightarrow> real list \<Rightarrow> real list \<Rightarrow> real list \<Rightarrow> real list
     \<Rightarrow> real \<Rightarrow> real \<Rightarrow> int \<Rightarrow> real list \<Rightarrow> real list \<Rightarrow> fault + solved" where
  "ddm_fpt_full_leak ok_cum_mu ok_cum_sig2 ok_disc ok_disc2
       mu sig2 b_lo b_up b_lo_deriv b_up_deriv inv_leak delta_t k_max g1 g2 =
     (if \<not> (inv_leak \<ge> 0 \<and> delta_t > 0 \<and> k_max > 0) then Inl AssertFail
      else
        let cum_mu = malloc ok_cum_mu k_max;
            cum_sig2 = malloc ok_cum_sig2 k_max;
            disc = malloc ok_disc k_max;
            disc2 = malloc ok_disc2 k_max;
            live = allocated disc2 (allocated disc (allocated cum_sig2 (allocated cum_mu 0)))
        in case (cum_mu, cum_sig2) of
             (Some cum_mu_blk, Some cum_sig2_blk) \<Rightarrow>
               let sqrt_2_pi = 1 / sqrt (2 * PI);
                   delta_t_sqrt_2_pi = delta_t * sqrt_2_pi
               in
               bnd (leak_cum mu sig2 inv_leak delta_t k_max cum_mu_blk cum_sig2_blk disc disc2)
                 (\<lambda>(cum_mu_blk, cum_sig2_blk, disc_blk, disc2_blk).
               bnd (for_loop 0 k_max
                      (leak_fill_body mu sig2 b_lo b_up b_lo_deriv b_up_deriv inv_leak
                         cum_mu_blk cum_sig2_blk disc_blk disc2_blk
                         sqrt_2_pi delta_t_sqrt_2_pi)
                      (g1, g2))
                 (\<lambda>(g1, g2).
               Inr (0, g1, g2, free disc2 (free disc (free cum_sig2 (free cum_mu live))))))
           | _ \<Rightarrow> Inr (- 1, g1, g2, free disc2 (free disc (free cum_sig2 (free cum_mu live)))))"

subsection \<open>ddm_fpt\<close>

text \<open>The body of \<^verbatim>\<open>for (j = 1; j < k_max; ++j)\<close>, cumulative mu and derivative of bound.\<close>

fun fpt_cum_body ::
  "real list \<Rightarrow> real list \<Rightarrow> real \<Rightarrow> int \<Rightarrow> real \<times> scratch \<times> scratch
     \<Rightarrow> fault + (real \<times> scratch \<times> scratch)" where
  "fpt_cum_body mu bound delta_t j (curr_cum_mu, cum_mu, bound_deriv) =
     bnd (rd ''mu'' mu j) (\<lambda>mu_j.
     let curr_cum_mu = curr_cum_mu + delta_t * mu_j in
     bnd (wrm ''cum_mu'' cum_mu j curr_cum_mu) (\<lambda>cum_mu.
     bnd (rd ''bound'' bound j) (\<lambda>bound_j.
     bnd (rd ''bound'' bound (j - 1)) (\<lambda>bound_j1.
     bnd (wrm ''bound_deriv'' bound_deriv (j - 1) ((bound_j - bound_j1) / delta_t))
       (\<lambda>bound_deriv.
     Inr (curr_cum_mu, cum_mu, bound_deriv))))))"

text \<open>
  The body of \<^verbatim>\<open>for (j = 0; j < k_max; ++j)\<close> that fills \<open>norm_sqrt_t\<close> and \<open>norm_t\<close>;
  \<^verbatim>\<open>ddm_fpt\<close> and \<^verbatim>\<open>ddm_fpt_const_mu\<close> have the same loop.
\<close>

fun norm_body ::
  "real \<Rightarrow> real \<Rightarrow> int \<Rightarrow> scratch \<times> scratch \<Rightarrow> fault + (scratch \<times> scratch)" where
  "norm_body pi_delta_t_2 delta_t j (norm_sqrt_t, norm_t) =
     bnd (wrm ''norm_sqrt_t'' norm_sqrt_t j (1.0 / sqrt (pi_delta_t_2 * (real_of_int j + 1.0))))
       (\<lambda>norm_sqrt_t.
     bnd (wrm ''norm_t'' norm_t j (1.0 / (delta_t * (real_of_int j + 1.0)))) (\<lambda>norm_t.
     Inr (norm_sqrt_t, norm_t)))"

text \<open>
  The forward pass of \<^verbatim>\<open>ddm_fpt\<close>, from the constants to the end of the \<open>norm_t\<close>
  loop: \<open>cum_mu\<close>, \<open>bound_deriv\<close>, \<open>norm_sqrt_t\<close> and \<open>norm_t\<close>.
\<close>

definition fpt_cum ::
  "real list \<Rightarrow> real list \<Rightarrow> real \<Rightarrow> int \<Rightarrow> scratch \<Rightarrow> scratch \<Rightarrow> scratch \<Rightarrow> scratch
     \<Rightarrow> fault + (scratch \<times> scratch \<times> scratch \<times> scratch)" where
  "fpt_cum mu bound delta_t k_max cum_mu bound_deriv norm_sqrt_t norm_t =
     (let delta_t_2 = 2.0 * delta_t;
          pi_delta_t_2 = PI * delta_t_2
      in
      bnd (rd ''mu'' mu 0) (\<lambda>mu_0.
      let curr_cum_mu = delta_t * mu_0 in
      bnd (wrm ''cum_mu'' cum_mu 0 curr_cum_mu) (\<lambda>cum_mu.
      bnd (for_loop 1 k_max (fpt_cum_body mu bound delta_t) (curr_cum_mu, cum_mu, bound_deriv))
        (\<lambda>(curr_cum_mu, cum_mu, bound_deriv).
      bnd (rdm ''bound_deriv'' bound_deriv (k_max - 2)) (\<lambda>last.
      bnd (wrm ''bound_deriv'' bound_deriv (k_max - 1) last) (\<lambda>bound_deriv.
      bnd (for_loop 0 k_max (norm_body pi_delta_t_2 delta_t) (norm_sqrt_t, norm_t))
        (\<lambda>(norm_sqrt_t, norm_t).
      Inr (cum_mu, bound_deriv, norm_sqrt_t, norm_t))))))))"

text \<open>The body of \<^verbatim>\<open>for (j = 0; j < k; ++j)\<close>, relation to previous values.\<close>

fun fpt_inner_body ::
  "real list \<Rightarrow> scratch \<Rightarrow> scratch \<Rightarrow> scratch \<Rightarrow> real list \<Rightarrow> real list
     \<Rightarrow> real \<Rightarrow> real \<Rightarrow> real \<Rightarrow> real \<Rightarrow> real
     \<Rightarrow> int \<Rightarrow> int \<Rightarrow> real \<times> real \<Rightarrow> fault + (real \<times> real)" where
  "fpt_inner_body bound cum_mu norm_sqrt_t norm_t g1 g2
       delta_t bound_k bound_deriv_k1 bound_deriv_k2 cum_mu_k k j (g1_k, g2_k) =
     bnd (rd ''bound'' bound j) (\<lambda>bound_j.
     bnd (rdm ''cum_mu'' cum_mu j) (\<lambda>cum_mu_j.
     let cum_mu_k_j = cum_mu_k - cum_mu_j;
         diff1 = bound_k - bound_j - cum_mu_k_j;
         diff2 = bound_k + bound_j - cum_mu_k_j
     in
     bnd (rdm ''norm_t'' norm_t (k - j - 1)) (\<lambda>norm_t_j.
     bnd (rdm ''norm_sqrt_t'' norm_sqrt_t (k - j - 1)) (\<lambda>norm_sqrt_t_j.
     bnd (rd ''g1'' g1 j) (\<lambda>g1_j.
     bnd (rd ''g2'' g2 j) (\<lambda>g2_j.
     let g1_k = g1_k + delta_t * norm_sqrt_t_j
                  * (g1_j * exp (- 0.5 * diff1 * diff1 * norm_t_j)
                     * (bound_deriv_k1 - diff1 * norm_t_j)
                     + g2_j * exp (- 0.5 * diff2 * diff2 * norm_t_j)
                     * (bound_deriv_k1 - diff2 * norm_t_j));
         diff1 = - bound_k - bound_j - cum_mu_k_j;
         diff2 = - bound_k + bound_j - cum_mu_k_j;
         g2_k = g2_k - delta_t * norm_sqrt_t_j
                  * (g1_j * exp (- 0.5 * diff1 * diff1 * norm_t_j)
                     * (bound_deriv_k2 - diff1 * norm_t_j)
                     + g2_j * exp (- 0.5 * diff2 * diff2 * norm_t_j)
                     * (bound_deriv_k2 - diff2 * norm_t_j))
     in Inr (g1_k, g2_k)))))))"

text \<open>The body of \<^verbatim>\<open>for (k = 0; k < k_max; ++k)\<close>, which fills \<open>g1[k]\<close> and \<open>g2[k]\<close>.\<close>

fun fpt_fill_body ::
  "real list \<Rightarrow> real list \<Rightarrow> real \<Rightarrow> scratch \<Rightarrow> scratch \<Rightarrow> scratch \<Rightarrow> scratch
     \<Rightarrow> int \<Rightarrow> real list \<times> real list \<Rightarrow> fault + (real list \<times> real list)" where
  "fpt_fill_body mu bound delta_t cum_mu bound_deriv norm_sqrt_t norm_t k (g1, g2) =
     bnd (rd ''bound'' bound k) (\<lambda>bound_k.
     bnd (rdm ''bound_deriv'' bound_deriv k) (\<lambda>bound_deriv_k.
     bnd (rd ''mu'' mu k) (\<lambda>mu_k.
     let bound_deriv_k1 = bound_deriv_k - mu_k;
         bound_deriv_k2 = - bound_deriv_k - mu_k
     in
     bnd (rdm ''cum_mu'' cum_mu k) (\<lambda>cum_mu_k.
     bnd (rdm ''norm_t'' norm_t k) (\<lambda>norm_t_j.
     bnd (rdm ''norm_sqrt_t'' norm_sqrt_t k) (\<lambda>norm_sqrt_t_j.
     let g1_k = - norm_sqrt_t_j
                  * exp (- 0.5 * (bound_k - cum_mu_k) * (bound_k - cum_mu_k) * norm_t_j)
                  * (bound_deriv_k1 - (bound_k - cum_mu_k) * norm_t_j);
         g2_k = norm_sqrt_t_j
                  * exp (- 0.5 * (- bound_k - cum_mu_k) * (- bound_k - cum_mu_k) * norm_t_j)
                  * (bound_deriv_k2 - (- bound_k - cum_mu_k) * norm_t_j)
     in
     bnd (for_loop 0 k
            (fpt_inner_body bound cum_mu norm_sqrt_t norm_t g1 g2
               delta_t bound_k bound_deriv_k1 bound_deriv_k2 cum_mu_k k)
            (g1_k, g2_k))
       (\<lambda>(g1_k, g2_k).
     bnd (wr ''g1'' g1 k (MAX_macro g1_k 0)) (\<lambda>g1.
     bnd (wr ''g2'' g2 k (MAX_macro g2_k 0)) (\<lambda>g2.
     Inr (g1, g2))))))))))"

text \<open>\<^verbatim>\<open>ddm_fpt\<close>. Four calls of \<^verbatim>\<open>malloc\<close>, all four compared with \<^verbatim>\<open>NULL\<close>.\<close>

definition ddm_fpt ::
  "bool \<Rightarrow> bool \<Rightarrow> bool \<Rightarrow> bool \<Rightarrow> real list \<Rightarrow> real list \<Rightarrow> real \<Rightarrow> int
     \<Rightarrow> real list \<Rightarrow> real list \<Rightarrow> fault + solved" where
  "ddm_fpt ok_cum_mu ok_bound_deriv ok_norm_sqrt_t ok_norm_t mu bound delta_t k_max g1 g2 =
     (if \<not> (delta_t > 0 \<and> k_max > 0) then Inl AssertFail
      else
        let cum_mu = malloc ok_cum_mu k_max;
            bound_deriv = malloc ok_bound_deriv k_max;
            norm_sqrt_t = malloc ok_norm_sqrt_t k_max;
            norm_t = malloc ok_norm_t k_max;
            live = allocated norm_t (allocated norm_sqrt_t
                     (allocated bound_deriv (allocated cum_mu 0)))
        in case (cum_mu, bound_deriv, norm_sqrt_t, norm_t) of
             (Some cum_mu_blk, Some bound_deriv_blk, Some norm_sqrt_t_blk, Some norm_t_blk) \<Rightarrow>
               bnd (fpt_cum mu bound delta_t k_max
                      cum_mu_blk bound_deriv_blk norm_sqrt_t_blk norm_t_blk)
                 (\<lambda>(cum_mu_blk, bound_deriv_blk, norm_sqrt_t_blk, norm_t_blk).
               bnd (for_loop 0 k_max
                      (fpt_fill_body mu bound delta_t
                         cum_mu_blk bound_deriv_blk norm_sqrt_t_blk norm_t_blk)
                      (g1, g2))
                 (\<lambda>(g1, g2).
               Inr (0, g1, g2,
                    free norm_t (free norm_sqrt_t (free bound_deriv (free cum_mu live))))))
           | _ \<Rightarrow>
               Inr (- 1, g1, g2,
                    free norm_t (free norm_sqrt_t (free bound_deriv (free cum_mu live)))))"

subsection \<open>ddm_fpt_const_mu\<close>

text \<open>The body of \<^verbatim>\<open>for (j = 1; j < k_max; ++j)\<close>, derivative of bound.\<close>

definition const_mu_deriv_body ::
  "real list \<Rightarrow> real \<Rightarrow> int \<Rightarrow> scratch \<Rightarrow> fault + scratch" where
  "const_mu_deriv_body bound delta_t j bound_deriv =
     bnd (rd ''bound'' bound j) (\<lambda>bound_j.
     bnd (rd ''bound'' bound (j - 1)) (\<lambda>bound_j1.
     wrm ''bound_deriv'' bound_deriv (j - 1) ((bound_j - bound_j1) / delta_t)))"

text \<open>The forward pass of \<^verbatim>\<open>ddm_fpt_const_mu\<close>: \<open>bound_deriv\<close>, \<open>norm_sqrt_t\<close>, \<open>norm_t\<close>.\<close>

definition const_mu_cum ::
  "real list \<Rightarrow> real \<Rightarrow> int \<Rightarrow> scratch \<Rightarrow> scratch \<Rightarrow> scratch
     \<Rightarrow> fault + (scratch \<times> scratch \<times> scratch)" where
  "const_mu_cum bound delta_t k_max bound_deriv norm_sqrt_t norm_t =
     (let delta_t_2 = 2.0 * delta_t;
          pi_delta_t_2 = PI * delta_t_2
      in
      bnd (for_loop 1 k_max (const_mu_deriv_body bound delta_t) bound_deriv) (\<lambda>bound_deriv.
      bnd (rdm ''bound_deriv'' bound_deriv (k_max - 2)) (\<lambda>last.
      bnd (wrm ''bound_deriv'' bound_deriv (k_max - 1) last) (\<lambda>bound_deriv.
      bnd (for_loop 0 k_max (norm_body pi_delta_t_2 delta_t) (norm_sqrt_t, norm_t))
        (\<lambda>(norm_sqrt_t, norm_t).
      Inr (bound_deriv, norm_sqrt_t, norm_t))))))"

text \<open>The body of \<^verbatim>\<open>for (j = 0; j < k; ++j)\<close>; the differences \<open>k - j\<close> are \<^verbatim>\<open>int\<close>.\<close>

definition const_mu_inner_body ::
  "real list \<Rightarrow> scratch \<Rightarrow> scratch \<Rightarrow> real list \<Rightarrow> real list
     \<Rightarrow> real \<Rightarrow> real \<Rightarrow> real \<Rightarrow> real \<Rightarrow> real
     \<Rightarrow> int \<Rightarrow> int \<Rightarrow> real \<Rightarrow> fault + real" where
  "const_mu_inner_body bound norm_sqrt_t norm_t g1 g2
       delta_t mu_delta_t bound_k bound_deriv_k1 bound_deriv_k2 k j g1_k =
     bnd (rd ''bound'' bound j) (\<lambda>bound_j.
     let cum_mu_k_j = real_of_int (k - j) * mu_delta_t;
         diff1 = bound_k - bound_j - cum_mu_k_j;
         diff2 = bound_k + bound_j - cum_mu_k_j
     in
     bnd (rdm ''norm_t'' norm_t (k - j - 1)) (\<lambda>norm_t_j.
     bnd (rdm ''norm_sqrt_t'' norm_sqrt_t (k - j - 1)) (\<lambda>norm_sqrt_t_j.
     bnd (rd ''g1'' g1 j) (\<lambda>g1_j.
     bnd (rd ''g2'' g2 j) (\<lambda>g2_j.
     Inr (g1_k + delta_t * norm_sqrt_t_j
                  * (g1_j * exp (- 0.5 * diff1 * diff1 * norm_t_j)
                     * (bound_deriv_k1 - diff1 * norm_t_j)
                     + g2_j * exp (- 0.5 * diff2 * diff2 * norm_t_j)
                     * (bound_deriv_k2 - diff2 * norm_t_j))))))))"

text \<open>The body of \<^verbatim>\<open>for (k = 0; k < k_max; ++k)\<close>: fill \<open>g1\<close>, \<open>g2\<close> is based on \<open>g1\<close>.\<close>

fun const_mu_fill_body ::
  "real \<Rightarrow> real list \<Rightarrow> real \<Rightarrow> real \<Rightarrow> real \<Rightarrow> scratch \<Rightarrow> scratch \<Rightarrow> scratch
     \<Rightarrow> int \<Rightarrow> real list \<times> real list \<Rightarrow> fault + (real list \<times> real list)" where
  "const_mu_fill_body mu bound delta_t mu_delta_t mu_2 bound_deriv norm_sqrt_t norm_t
       k (g1, g2) =
     bnd (rd ''bound'' bound k) (\<lambda>bound_k.
     bnd (rdm ''bound_deriv'' bound_deriv k) (\<lambda>bound_deriv_k.
     let bound_deriv_k1 = bound_deriv_k - mu;
         bound_deriv_k2 = - bound_deriv_k - mu;
         cum_mu_k = real_of_int (k + 1) * mu_delta_t
     in
     bnd (rdm ''norm_t'' norm_t k) (\<lambda>norm_t_j.
     bnd (rdm ''norm_sqrt_t'' norm_sqrt_t k) (\<lambda>norm_sqrt_t_j.
     let g1_k = - norm_sqrt_t_j
                  * exp (- 0.5 * (bound_k - cum_mu_k) * (bound_k - cum_mu_k) * norm_t_j)
                  * (bound_deriv_k1 - (bound_k - cum_mu_k) * norm_t_j)
     in
     bnd (for_loop 0 k
            (const_mu_inner_body bound norm_sqrt_t norm_t g1 g2
               delta_t mu_delta_t bound_k bound_deriv_k1 bound_deriv_k2 k)
            g1_k)
       (\<lambda>g1_k.
     bnd (wr ''g1'' g1 k (MAX_macro g1_k 0)) (\<lambda>g1.
     bnd (wr ''g2'' g2 k (MAX_macro (g1_k * exp (mu_2 * bound_k)) 0)) (\<lambda>g2.
     Inr (g1, g2))))))))"

text \<open>\<^verbatim>\<open>ddm_fpt_const_mu\<close>. Three calls of \<^verbatim>\<open>malloc\<close>, all compared with \<^verbatim>\<open>NULL\<close>.\<close>

definition ddm_fpt_const_mu ::
  "bool \<Rightarrow> bool \<Rightarrow> bool \<Rightarrow> real \<Rightarrow> real list \<Rightarrow> real \<Rightarrow> int
     \<Rightarrow> real list \<Rightarrow> real list \<Rightarrow> fault + solved" where
  "ddm_fpt_const_mu ok_bound_deriv ok_norm_sqrt_t ok_norm_t mu bound delta_t k_max g1 g2 =
     (if \<not> (mu > 0 \<and> delta_t > 0 \<and> k_max > 0) then Inl AssertFail
      else
        let bound_deriv = malloc ok_bound_deriv k_max;
            norm_sqrt_t = malloc ok_norm_sqrt_t k_max;
            norm_t = malloc ok_norm_t k_max;
            live = allocated norm_t (allocated norm_sqrt_t (allocated bound_deriv 0))
        in case (bound_deriv, norm_sqrt_t, norm_t) of
             (Some bound_deriv_blk, Some norm_sqrt_t_blk, Some norm_t_blk) \<Rightarrow>
               let mu_delta_t = delta_t * mu;
                   mu_2 = - 2 * mu
               in
               bnd (const_mu_cum bound delta_t k_max bound_deriv_blk norm_sqrt_t_blk norm_t_blk)
                 (\<lambda>(bound_deriv_blk, norm_sqrt_t_blk, norm_t_blk).
               bnd (for_loop 0 k_max
                      (const_mu_fill_body mu bound delta_t mu_delta_t mu_2
                         bound_deriv_blk norm_sqrt_t_blk norm_t_blk)
                      (g1, g2))
                 (\<lambda>(g1, g2).
               Inr (0, g1, g2, free norm_t (free norm_sqrt_t (free bound_deriv live)))))
           | _ \<Rightarrow> Inr (- 1, g1, g2, free norm_t (free norm_sqrt_t (free bound_deriv live))))"

subsection \<open>ddm_fpt_const\<close>

text \<open>The body of \<^verbatim>\<open>for (i = 0; i < k_max; ++i)\<close>; \<^verbatim>\<open>(*g1++) = ...\<close> writes cell \<open>i\<close>.\<close>

fun const_body ::
  "int \<Rightarrow> real \<Rightarrow> real \<Rightarrow> real \<Rightarrow> real \<Rightarrow> real
     \<Rightarrow> int \<Rightarrow> real \<times> real list \<times> real list \<Rightarrow> fault + (real \<times> real list \<times> real list)" where
  "const_body imax delta_t c1 c2 c3 c4 i (t, g1, g2) =
     bnd (fpt_symup imax t c1 c2 c3) (\<lambda>g.
     bnd (wr ''g1'' g1 i (MAX_macro g 0)) (\<lambda>g1.
     bnd (wr ''g2'' g2 i (MAX_macro (c4 * g) 0)) (\<lambda>g2.
     Inr (t + delta_t, g1, g2))))"

text \<open>\<^verbatim>\<open>ddm_fpt_const\<close> returns nothing; the result is \<open>g1\<close> and \<open>g2\<close>.\<close>

definition ddm_fpt_const ::
  "int \<Rightarrow> real \<Rightarrow> real \<Rightarrow> real \<Rightarrow> int \<Rightarrow> real list \<Rightarrow> real list
     \<Rightarrow> fault + (real list \<times> real list)" where
  "ddm_fpt_const imax mu bound delta_t k_max g1 g2 =
     (let c1 = 4 * (bound * bound);
          c2 = (mu * mu) / 2;
          c3 = mu * bound;
          c4 = exp (- 2 * c3)
      in
      if \<not> (mu > 0 \<and> bound > 0 \<and> delta_t > 0 \<and> k_max > 0) then Inl AssertFail
      else
        bnd (for_loop 0 k_max (const_body imax delta_t c1 c2 c3 c4) (delta_t, g1, g2))
          (\<lambda>(t, g1, g2). Inr (g1, g2)))"

subsection \<open>ddm_fpt_w\<close>

text \<open>
  The body of \<^verbatim>\<open>for (j = 1; j < n_max; ++j)\<close>: \<open>a2\<close>, its running integral \<open>A\<close> and the
  derivative of the bound.
\<close>

fun w_cum_body ::
  "real list \<Rightarrow> real list \<Rightarrow> real \<Rightarrow> int \<Rightarrow> real \<times> scratch \<times> scratch \<times> scratch
     \<Rightarrow> fault + (real \<times> scratch \<times> scratch \<times> scratch)" where
  "w_cum_body mu bound delta_t j (cum_a2, a2, A, bound_deriv) =
     bnd (rd ''mu'' mu j) (\<lambda>mu_j.
     bnd (wrm ''a2'' a2 j (mu_j * mu_j)) (\<lambda>a2.
     let cum_a2 = cum_a2 + delta_t * (mu_j * mu_j) in
     bnd (wrm ''A'' A j cum_a2) (\<lambda>A.
     bnd (rd ''bound'' bound j) (\<lambda>bound_j.
     bnd (rd ''bound'' bound (j - 1)) (\<lambda>bound_j1.
     bnd (wrm ''bound_deriv'' bound_deriv (j - 1) ((bound_j - bound_j1) / delta_t))
       (\<lambda>bound_deriv.
     Inr (cum_a2, a2, A, bound_deriv)))))))"

text \<open>The forward pass of \<^verbatim>\<open>ddm_fpt_w\<close>: \<open>a2\<close>, \<open>A\<close> and \<open>bound_deriv\<close>.\<close>

definition w_cum ::
  "real list \<Rightarrow> real list \<Rightarrow> real \<Rightarrow> int \<Rightarrow> scratch \<Rightarrow> scratch \<Rightarrow> scratch
     \<Rightarrow> fault + (scratch \<times> scratch \<times> scratch)" where
  "w_cum mu bound delta_t n_max a2 A bound_deriv =
     bnd (rd ''mu'' mu 0) (\<lambda>mu_0.
     bnd (wrm ''a2'' a2 0 (mu_0 * mu_0)) (\<lambda>a2.
     let cum_a2 = delta_t * (mu_0 * mu_0) in
     bnd (wrm ''A'' A 0 cum_a2) (\<lambda>A.
     bnd (for_loop 1 n_max (w_cum_body mu bound delta_t) (cum_a2, a2, A, bound_deriv))
       (\<lambda>(cum_a2, a2, A, bound_deriv).
     bnd (rdm ''bound_deriv'' bound_deriv (n_max - 2)) (\<lambda>last.
     bnd (wrm ''bound_deriv'' bound_deriv (n_max - 1) last) (\<lambda>bound_deriv.
     Inr (a2, A, bound_deriv)))))))"

text \<open>The body of \<^verbatim>\<open>for (j = 0; j < n; ++j)\<close>, relation to previous values.\<close>

definition w_inner_body ::
  "real list \<Rightarrow> scratch \<Rightarrow> real list \<Rightarrow> real list
     \<Rightarrow> real \<Rightarrow> real \<Rightarrow> real \<Rightarrow> real \<Rightarrow> real \<Rightarrow> real
     \<Rightarrow> int \<Rightarrow> real \<Rightarrow> fault + real" where
  "w_inner_body bound A g1 g2 k delta_t bound_n a2_n A_n bound_deriv_n j g1_n =
     bnd (rd ''bound'' bound j) (\<lambda>bound_j.
     bnd (rdm ''A'' A j) (\<lambda>A_j.
     let A_diff = A_n - A_j;
         sqrt_A_diff = sqrt (TWOPI * A_diff);
         diff1 = bound_n - bound_j;
         diff2 = bound_n + bound_j;
         diff1_A = diff1 - k * A_diff;
         diff2_A = diff2 - k * A_diff
     in
     bnd (rd ''g1'' g1 j) (\<lambda>g1_j.
     bnd (rd ''g2'' g2 j) (\<lambda>g2_j.
     Inr (g1_n + delta_t / sqrt_A_diff * (
                   g1_j * exp (- 0.5 * diff1_A * diff1_A / A_diff)
                   * (bound_deriv_n - a2_n * diff1 / A_diff)
                 + g2_j * exp (- 0.5 * diff2_A * diff2_A / A_diff)
                   * (bound_deriv_n - a2_n * diff2 / A_diff)))))))"

text \<open>The body of \<^verbatim>\<open>for (n = 0; n < n_max; ++n)\<close>, which fills \<open>g1[n]\<close> and \<open>g2[n]\<close>.\<close>

fun w_fill_body ::
  "real list \<Rightarrow> real \<Rightarrow> real \<Rightarrow> real \<Rightarrow> scratch \<Rightarrow> scratch \<Rightarrow> scratch
     \<Rightarrow> int \<Rightarrow> real list \<times> real list \<Rightarrow> fault + (real list \<times> real list)" where
  "w_fill_body bound k delta_t k_2 a2 A bound_deriv n (g1, g2) =
     bnd (rd ''bound'' bound n) (\<lambda>bound_n.
     bnd (rdm ''a2'' a2 n) (\<lambda>a2_n.
     bnd (rdm ''A'' A n) (\<lambda>A_n.
     bnd (rdm ''bound_deriv'' bound_deriv n) (\<lambda>bound_deriv_n.
     let diff1 = bound_n - k * A_n;
         diff2 = - bound_n - k * A_n;
         sqrt_A_n = sqrt (TWOPI * A_n);
         tmp = bound_deriv_n - bound_n / A_n * a2_n;
         g1_n = - exp (- 0.5 * diff1 * diff1 / A_n) / sqrt_A_n * tmp
     in
     bnd (for_loop 0 n
            (w_inner_body bound A g1 g2 k delta_t bound_n a2_n A_n bound_deriv_n)
            g1_n)
       (\<lambda>g1_n.
     bnd (wr ''g1'' g1 n (MAX_macro g1_n 0)) (\<lambda>g1.
     bnd (wr ''g2'' g2 n (MAX_macro (g1_n * exp (k_2 * bound_n)) 0)) (\<lambda>g2.
     Inr (g1, g2))))))))"

text \<open>\<^verbatim>\<open>ddm_fpt_w\<close>. Three calls of \<^verbatim>\<open>malloc\<close>, all compared with \<^verbatim>\<open>NULL\<close>.\<close>

definition ddm_fpt_w ::
  "bool \<Rightarrow> bool \<Rightarrow> bool \<Rightarrow> real list \<Rightarrow> real list \<Rightarrow> real \<Rightarrow> real \<Rightarrow> int
     \<Rightarrow> real list \<Rightarrow> real list \<Rightarrow> fault + solved" where
  "ddm_fpt_w ok_a2 ok_A ok_bound_deriv mu bound k delta_t n_max g1 g2 =
     (if \<not> (delta_t > 0.0 \<and> n_max > 0) then Inl AssertFail
      else
        let a2 = malloc ok_a2 n_max;
            A = malloc ok_A n_max;
            bound_deriv = malloc ok_bound_deriv n_max;
            live = allocated bound_deriv (allocated A (allocated a2 0))
        in case (a2, A, bound_deriv) of
             (Some a2_blk, Some A_blk, Some bound_deriv_blk) \<Rightarrow>
               let k_2 = - 2 * k in
               bnd (w_cum mu bound delta_t n_max a2_blk A_blk bound_deriv_blk)
                 (\<lambda>(a2_blk, A_blk, bound_deriv_blk).
               bnd (for_loop 0 n_max
                      (w_fill_body bound k delta_t k_2 a2_blk A_blk bound_deriv_blk)
                      (g1, g2))
                 (\<lambda>(g1, g2).
               Inr (0, g1, g2, free bound_deriv (free A (free a2 live)))))
           | _ \<Rightarrow> Inr (- 1, g1, g2, free bound_deriv (free A (free a2 live))))"

subsection \<open>mnorm\<close>

text \<open>The body of \<^verbatim>\<open>for (i = 0; i < n; ++i)\<close>: remove negative elements and compute sum.\<close>

fun mnorm_body ::
  "int \<Rightarrow> real list \<times> real list \<times> real \<times> real
     \<Rightarrow> fault + (real list \<times> real list \<times> real \<times> real)" where
  "mnorm_body i (g1, g2, g1_sum, g2_sum) =
     bnd (rd ''g1'' g1 i) (\<lambda>g1_i.
     bnd (if g1_i < 0 then bnd (wr ''g1'' g1 i 0) (\<lambda>g1. Inr (g1, g1_sum))
          else Inr (g1, g1_sum + g1_i))
       (\<lambda>(g1, g1_sum).
     bnd (rd ''g2'' g2 i) (\<lambda>g2_i.
     bnd (if g2_i < 0 then bnd (wr ''g2'' g2 i 0) (\<lambda>g2. Inr (g2, g2_sum))
          else Inr (g2, g2_sum + g2_i))
       (\<lambda>(g2, g2_sum).
     Inr (g1, g2, g1_sum, g2_sum)))))"

text \<open>\<^verbatim>\<open>mnorm\<close>: \<^verbatim>\<open>g1[n - 1] += e\<close> reads the cell and writes it back.\<close>

definition mnorm ::
  "real list \<Rightarrow> real list \<Rightarrow> int \<Rightarrow> real \<Rightarrow> fault + (real list \<times> real list)" where
  "mnorm g1 g2 n delta_t =
     bnd (for_loop 0 n mnorm_body (g1, g2, 0.0, 0.0)) (\<lambda>(g1, g2, g1_sum, g2_sum).
     let p = g1_sum / (g1_sum + g2_sum) in
     bnd (rd ''g1'' g1 (n - 1)) (\<lambda>g1_last.
     bnd (wr ''g1'' g1 (n - 1) (g1_last + (p / delta_t - g1_sum))) (\<lambda>g1.
     bnd (rd ''g2'' g2 (n - 1)) (\<lambda>g2_last.
     bnd (wr ''g2'' g2 (n - 1) (g2_last + ((1 - p) / delta_t - g2_sum))) (\<lambda>g2.
     Inr (g1, g2))))))"

subsection \<open>Predicates on scratch arrays\<close>

text \<open>All \<open>n\<close> cells of a scratch array hold a value.\<close>

definition filled :: "scratch \<Rightarrow> nat \<Rightarrow> bool" where
  "filled xs n \<longleftrightarrow> length xs = n \<and> (\<forall>i < n. xs ! i \<noteq> None)"

text \<open>The cells below \<open>j\<close> of a scratch array of \<open>n\<close> cells hold a value.\<close>

definition set_below :: "scratch \<Rightarrow> nat \<Rightarrow> nat \<Rightarrow> bool" where
  "set_below xs n j \<longleftrightarrow> length xs = n \<and> (\<forall>i < j. xs ! i \<noteq> None)"

text \<open>The cells of \<open>bound_deriv\<close> written by the first \<open>n - 1\<close> rounds of a forward pass.\<close>

definition derivs :: "real list \<Rightarrow> real \<Rightarrow> scratch \<Rightarrow> nat \<Rightarrow> bool" where
  "derivs bound delta_t bd n \<longleftrightarrow>
     (\<forall>i. i + 1 < n \<longrightarrow> bd ! i = Some ((bound ! (i + 1) - bound ! i) / delta_t))"

text \<open>\<open>bound_deriv\<close> after the forward pass: forward differences, the last cell a copy.\<close>

definition deriv_rule :: "real list \<Rightarrow> real \<Rightarrow> nat \<Rightarrow> scratch \<Rightarrow> bool" where
  "deriv_rule bound delta_t n bd \<longleftrightarrow>
     length bd = n
     \<and> bd ! (n - 1) = Some ((bound ! (n - 1) - bound ! (n - 2)) / delta_t)
     \<and> bd ! (n - 2) = Some ((bound ! (n - 1) - bound ! (n - 2)) / delta_t)
     \<and> (\<forall>j. j + 1 < n \<longrightarrow> bd ! j = Some ((bound ! (j + 1) - bound ! j) / delta_t))"

subsection \<open>The cumulative statistics as the specification writes them\<close>

text \<open>
  The leaky accumulation of the specification, \<open>C(k) = e * C(k-1) + x(k) * delta_t\<close> with
  \<open>C(0) = x(0) * delta_t\<close>, where \<open>e\<close> is the one-step discount (\<open>e = 1\<close> without leak).
\<close>

fun cum_leak :: "real \<Rightarrow> real \<Rightarrow> real list \<Rightarrow> nat \<Rightarrow> real" where
  "cum_leak e delta_t xs 0 = delta_t * xs ! 0"
| "cum_leak e delta_t xs (Suc k) = e * cum_leak e delta_t xs k + delta_t * xs ! Suc k"

section \<open>Properties\<close>

subsection \<open>Sequencing, loops and array accesses\<close>

lemma bnd_Inr [simp]: "bnd (Inr x) f = f x"
  by (simp add: bnd_def)

lemma bnd_Inl [simp]: "bnd (Inl e) f = Inl e"
  by (simp add: bnd_def)

lemma bnd_eq_Inr: "(bnd m f = Inr y) = (\<exists>x. m = Inr x \<and> f x = Inr y)"
  by (cases m) simp_all

lemma for_loop_step: "i < n \<Longrightarrow> for_loop i n body s = bnd (body i s) (for_loop (i + 1) n body)"
  by (subst for_loop.simps) (simp add: bnd_def)

lemma for_loop_done: "\<not> i < n \<Longrightarrow> for_loop i n body s = Inr s"
  by (subst for_loop.simps) simp

lemmas arr_defs =
  Let_def rd_def wr_def rdm_def wrm_def rdp_def wrp_def malloc_def allocated_def free_def

subsection \<open>Loop invariants\<close>

lemma bndE:
  assumes "bnd m f = Inr y"
  obtains x where "m = Inr x" and "f x = Inr y"
  using assms by (cases m) simp_all

lemma wr_Inr: "wr nm xs i v = Inr ys \<longleftrightarrow> 0 \<le> i \<and> i < int (length xs) \<and> ys = xs[nat i := v]"
  by (auto simp: wr_def)

lemma rd_Inr: "rd nm xs i = Inr v \<longleftrightarrow> 0 \<le> i \<and> i < int (length xs) \<and> v = xs ! nat i"
  by (auto simp: rd_def)

lemma for_loop_inv:
  assumes "for_loop i n body s = Inr s'" and "I i s"
    and "\<And>j t t'. i \<le> j \<Longrightarrow> j < n \<Longrightarrow> I j t \<Longrightarrow> body j t = Inr t' \<Longrightarrow> I (j + 1) t'"
  shows "I (max i n) s'"
  using assms
proof (induction i n body s rule: for_loop.induct)
  case (1 i n body s)
  show ?case
  proof (cases "i < n")
    case False
    with "1.prems"(1,2) show ?thesis by (simp add: for_loop_done max_def)
  next
    case True
    with "1.prems"(1) obtain t where t: "body i s = Inr t" and rest: "for_loop (i + 1) n body t = Inr s'"
      by (auto simp: for_loop_step elim: bndE)
    have "I (i + 1) t" using "1.prems"(3)[OF _ True "1.prems"(2) t] by simp
    then have "I (max (i + 1) n) s'"
      using "1.IH"[OF True t rest] "1.prems"(3) by force
    with True show ?thesis by (simp add: max_def)
  qed
qed

lemma for_loop_total:
  assumes "I i s"
    and "\<And>j t. i \<le> j \<Longrightarrow> j < n \<Longrightarrow> I j t \<Longrightarrow> \<exists>t'. body j t = Inr t' \<and> I (j + 1) t'"
  shows "\<exists>s'. for_loop i n body s = Inr s' \<and> I (max i n) s'"
  using assms
proof (induction i n body s rule: for_loop.induct)
  case (1 i n body s)
  show ?case
  proof (cases "i < n")
    case False
    with "1.prems"(1) show ?thesis by (simp add: for_loop_done max_def)
  next
    case True
    from "1.prems"(2)[OF _ True "1.prems"(1)] obtain t where t: "body i s = Inr t" and It: "I (i + 1) t"
      by auto
    have "\<exists>s'. for_loop (i + 1) n body t = Inr s' \<and> I (max (i + 1) n) s'"
      using "1.IH"[OF True t It] "1.prems"(2) by force
    with True t show ?thesis by (simp add: for_loop_step max_def)
  qed
qed

subsection \<open>What a round of a fill loop writes\<close>

lemma MAX_macro_nonneg: "0 \<le> MAX_macro a 0"
  by (simp add: MAX_macro_def)

lemma full_fill_body_shape:
  assumes "full_fill_body mu sig2 b_lo b_up b_lo_deriv b_up_deriv cum_mu cum_sig2 c1 c2 k (g1, g2) = Inr (g1', g2')"
  shows "\<exists>v1 v2. 0 \<le> k \<and> k < int (length g1) \<and> k < int (length g2)
           \<and> g1' = g1[nat k := MAX_macro v1 0] \<and> g2' = g2[nat k := MAX_macro v2 0]"
  using assms
  by (auto simp: Let_def wr_Inr elim!: bndE split: prod.splits)

lemma clamp_fill_nonneg:
  assumes loop: "for_loop 0 k_max body (g1, g2) = Inr (h1, h2)"
    and shape: "\<And>k g1 g2 g1' g2'. body k (g1, g2) = Inr (g1', g2') \<Longrightarrow>
       \<exists>v1 v2. 0 \<le> k \<and> k < int (length g1) \<and> k < int (length g2)
         \<and> g1' = g1[nat k := MAX_macro v1 0] \<and> g2' = g2[nat k := MAX_macro v2 0]"
  shows "\<forall>n < nat k_max. 0 \<le> h1 ! n \<and> 0 \<le> h2 ! n"
proof -
  let ?I = "\<lambda>j (s :: real list \<times> real list). \<forall>n < nat j. 0 \<le> fst s ! n \<and> 0 \<le> snd s ! n"
  have "?I (max 0 k_max) (h1, h2)"
  proof (rule for_loop_inv[OF loop, where I = ?I])
    show "?I 0 (g1, g2)" by simp
  next
    fix j t t'
    assume j: "0 \<le> j" "j < k_max" and inv: "?I j t" and body: "body j t = Inr t'"
    obtain a b where t: "t = (a, b)" by (cases t)
    obtain a' b' where t': "t' = (a', b')" by (cases t')
    from shape[OF body[unfolded t t']] obtain v1 v2 where
      k: "j < int (length a)" "j < int (length b)"
      and a': "a' = a[nat j := MAX_macro v1 0]" and b': "b' = b[nat j := MAX_macro v2 0]"
      by blast
    show "?I (j + 1) t'"
    proof (intro allI impI)
      fix n assume n: "n < nat (j + 1)"
      show "0 \<le> fst t' ! n \<and> 0 \<le> snd t' ! n"
      proof (cases "n = nat j")
        case True
        with k j show ?thesis by (simp add: t' a' b' MAX_macro_nonneg)
      next
        case False
        with n j have "n < nat j" by linarith
        with inv False show ?thesis by (simp add: t t' a' b')
      qed
    qed
  qed
  then show ?thesis by (simp add: max_def)
qed

lemma leak_fill_body_shape:
  assumes "leak_fill_body mu sig2 b_lo b_up b_lo_deriv b_up_deriv inv_leak cum_mu cum_sig2 disc disc2 c1 c2 k (g1, g2) = Inr (g1', g2')"
  shows "\<exists>v1 v2. 0 \<le> k \<and> k < int (length g1) \<and> k < int (length g2)
           \<and> g1' = g1[nat k := MAX_macro v1 0] \<and> g2' = g2[nat k := MAX_macro v2 0]"
  using assms
  by (auto simp: Let_def wr_Inr elim!: bndE split: prod.splits)

lemma fpt_fill_body_shape:
  assumes "fpt_fill_body mu bound delta_t cum_mu bound_deriv norm_sqrt_t norm_t k (g1, g2) = Inr (g1', g2')"
  shows "\<exists>v1 v2. 0 \<le> k \<and> k < int (length g1) \<and> k < int (length g2)
           \<and> g1' = g1[nat k := MAX_macro v1 0] \<and> g2' = g2[nat k := MAX_macro v2 0]"
  using assms
  by (auto simp: Let_def wr_Inr elim!: bndE split: prod.splits)

lemma const_mu_fill_body_shape:
  assumes "const_mu_fill_body mu bound delta_t mu_delta_t mu_2 bound_deriv norm_sqrt_t norm_t k (g1, g2) = Inr (g1', g2')"
  shows "\<exists>v1 v2. 0 \<le> k \<and> k < int (length g1) \<and> k < int (length g2)
           \<and> g1' = g1[nat k := MAX_macro v1 0] \<and> g2' = g2[nat k := MAX_macro v2 0]"
  using assms
  by (auto simp: Let_def wr_Inr elim!: bndE split: prod.splits)

lemma w_fill_body_shape:
  assumes "w_fill_body bound k delta_t k_2 a2 A bound_deriv n (g1, g2) = Inr (g1', g2')"
  shows "\<exists>v. 0 \<le> n \<and> n < int (length g1) \<and> n < int (length g2) \<and> n < int (length bound)
           \<and> g1' = g1[nat n := MAX_macro v 0]
           \<and> g2' = g2[nat n := MAX_macro (v * exp (k_2 * bound ! nat n)) 0]"
  using assms
  by (auto simp: Let_def wr_Inr rd_Inr elim!: bndE split: prod.splits)

lemma const_body_shape:
  assumes "const_body imax delta_t c1 c2 c3 c4 i (t, g1, g2) = Inr (t', g1', g2')"
  shows "\<exists>v1 v2. 0 \<le> i \<and> i < int (length g1) \<and> i < int (length g2)
           \<and> g1' = g1[nat i := MAX_macro v1 0] \<and> g2' = g2[nat i := MAX_macro v2 0]"
  using assms
  by (auto simp: Let_def wr_Inr elim!: bndE split: prod.splits)

lemma ddm_fpt_full_nonneg:
  assumes "ddm_fpt_full a1 a2 mu sig2 b_lo b_up b_lo_deriv b_up_deriv delta_t k_max g1 g2 = Inr (0, h1, h2, l)"
  shows "\<forall>n < nat k_max. 0 \<le> h1 ! n \<and> 0 \<le> h2 ! n"
proof -
  from assms obtain cm cs c1 c2 where
    "for_loop 0 k_max (full_fill_body mu sig2 b_lo b_up b_lo_deriv b_up_deriv cm cs c1 c2) (g1, g2) = Inr (h1, h2)"
    by (auto simp: ddm_fpt_full_def Let_def elim!: bndE split: if_splits option.splits prod.splits)
  then show ?thesis
    by (rule clamp_fill_nonneg) (rule full_fill_body_shape)
qed

lemma ddm_fpt_full_leak_nonneg:
  assumes "ddm_fpt_full_leak a1 a2 a3 a4 mu sig2 b_lo b_up b_lo_deriv b_up_deriv inv_leak delta_t k_max g1 g2 = Inr (0, h1, h2, l)"
  shows "\<forall>n < nat k_max. 0 \<le> h1 ! n \<and> 0 \<le> h2 ! n"
proof -
  from assms obtain cm cs d d2 c1 c2 where
    "for_loop 0 k_max (leak_fill_body mu sig2 b_lo b_up b_lo_deriv b_up_deriv inv_leak cm cs d d2 c1 c2) (g1, g2) = Inr (h1, h2)"
    by (auto simp: ddm_fpt_full_leak_def Let_def elim!: bndE split: if_splits option.splits prod.splits)
  then show ?thesis
    by (rule clamp_fill_nonneg) (rule leak_fill_body_shape)
qed

lemma ddm_fpt_nonneg:
  assumes "ddm_fpt a1 a2 a3 a4 mu bound delta_t k_max g1 g2 = Inr (0, h1, h2, l)"
  shows "\<forall>n < nat k_max. 0 \<le> h1 ! n \<and> 0 \<le> h2 ! n"
proof -
  from assms obtain cm bd ns nt where
    "for_loop 0 k_max (fpt_fill_body mu bound delta_t cm bd ns nt) (g1, g2) = Inr (h1, h2)"
    by (auto simp: ddm_fpt_def Let_def elim!: bndE split: if_splits option.splits prod.splits)
  then show ?thesis
    by (rule clamp_fill_nonneg) (rule fpt_fill_body_shape)
qed

lemma ddm_fpt_const_mu_nonneg:
  assumes "ddm_fpt_const_mu a1 a2 a3 mu bound delta_t k_max g1 g2 = Inr (0, h1, h2, l)"
  shows "\<forall>n < nat k_max. 0 \<le> h1 ! n \<and> 0 \<le> h2 ! n"
proof -
  from assms obtain md m2 bd ns nt where
    "for_loop 0 k_max (const_mu_fill_body mu bound delta_t md m2 bd ns nt) (g1, g2) = Inr (h1, h2)"
    by (auto simp: ddm_fpt_const_mu_def Let_def elim!: bndE split: if_splits option.splits prod.splits)
  then show ?thesis
    by (rule clamp_fill_nonneg) (rule const_mu_fill_body_shape)
qed

lemma w_fill_loop:
  assumes "ddm_fpt_w a1 a2 a3 mu bound k delta_t n_max g1 g2 = Inr (0, h1, h2, l)"
  obtains sa sA bd where
    "for_loop 0 n_max (w_fill_body bound k delta_t (- 2 * k) sa sA bd) (g1, g2) = Inr (h1, h2)"
  using assms
  by (auto simp: ddm_fpt_w_def Let_def elim!: bndE split: if_splits option.splits prod.splits)

lemma ddm_fpt_w_nonneg:
  assumes "ddm_fpt_w a1 a2 a3 mu bound k delta_t n_max g1 g2 = Inr (0, h1, h2, l)"
  shows "\<forall>n < nat n_max. 0 \<le> h1 ! n \<and> 0 \<le> h2 ! n"
proof -
  from assms obtain sa sA bd where
    "for_loop 0 n_max (w_fill_body bound k delta_t (- 2 * k) sa sA bd) (g1, g2) = Inr (h1, h2)"
    by (rule w_fill_loop)
  then show ?thesis
    by (rule clamp_fill_nonneg) (use w_fill_body_shape in blast)
qed

lemma ddm_fpt_const_nonneg:
  assumes "ddm_fpt_const imax mu bound delta_t k_max g1 g2 = Inr (h1, h2)"
  shows "\<forall>n < nat k_max. 0 \<le> h1 ! n \<and> 0 \<le> h2 ! n"
proof -
  from assms obtain c1 c2 c3 c4 t' where
    loop: "for_loop 0 k_max (const_body imax delta_t c1 c2 c3 c4) (delta_t, g1, g2) = Inr (t', h1, h2)"
    by (auto simp: ddm_fpt_const_def Let_def elim!: bndE split: if_splits prod.splits)
  let ?I = "\<lambda>j (s :: real \<times> real list \<times> real list).
    \<forall>n < nat j. 0 \<le> fst (snd s) ! n \<and> 0 \<le> snd (snd s) ! n"
  have "?I (max 0 k_max) (t', h1, h2)"
  proof (rule for_loop_inv[OF loop, where I = ?I])
    show "?I 0 (delta_t, g1, g2)" by simp
  next
    fix j s s'
    assume j: "0 \<le> j" "j < k_max" and inv: "?I j s" and body: "const_body imax delta_t c1 c2 c3 c4 j s = Inr s'"
    obtain t a b where s: "s = (t, a, b)" by (cases s)
    obtain t' a' b' where s': "s' = (t', a', b')" by (cases s')
    from const_body_shape[OF body[unfolded s s']] obtain v1 v2 where
      k: "j < int (length a)" "j < int (length b)"
      and a': "a' = a[nat j := MAX_macro v1 0]" and b': "b' = b[nat j := MAX_macro v2 0]"
      by blast
    show "?I (j + 1) s'"
    proof (intro allI impI)
      fix n assume n: "n < nat (j + 1)"
      show "0 \<le> fst (snd s') ! n \<and> 0 \<le> snd (snd s') ! n"
      proof (cases "n = nat j")
        case True
        with k j show ?thesis by (simp add: s' a' b' MAX_macro_nonneg)
      next
        case False
        with n j have "n < nat j" by linarith
        with inv False show ?thesis by (simp add: s s' a' b')
      qed
    qed
  qed
  then show ?thesis by (simp add: max_def)
qed

lemma MAX_macro_scale: "0 < e \<Longrightarrow> MAX_macro (v * e) 0 = MAX_macro v 0 * e"
  by (simp add: MAX_macro_def zero_less_mult_iff)

lemma ddm_fpt_w_reflect:
  assumes "ddm_fpt_w a1 a2 a3 mu bound k delta_t n_max g1 g2 = Inr (0, h1, h2, l)"
  shows "\<forall>n < nat n_max. h2 ! n = h1 ! n * exp (- 2 * k * bound ! n)"
proof -
  from assms obtain sa sA bd where
    loop: "for_loop 0 n_max (w_fill_body bound k delta_t (- 2 * k) sa sA bd) (g1, g2) = Inr (h1, h2)"
    by (rule w_fill_loop)
  let ?I = "\<lambda>j (s :: real list \<times> real list).
    \<forall>n < nat j. snd s ! n = fst s ! n * exp (- 2 * k * bound ! n)"
  have "?I (max 0 n_max) (h1, h2)"
  proof (rule for_loop_inv[OF loop, where I = ?I])
    show "?I 0 (g1, g2)" by simp
  next
    fix j t t'
    assume j: "0 \<le> j" "j < n_max" and inv: "?I j t"
      and body: "w_fill_body bound k delta_t (- 2 * k) sa sA bd j t = Inr t'"
    obtain a b where t: "t = (a, b)" by (cases t)
    obtain a' b' where t': "t' = (a', b')" by (cases t')
    from w_fill_body_shape[OF body[unfolded t t']] obtain v where
      k: "j < int (length a)" "j < int (length b)"
      and a': "a' = a[nat j := MAX_macro v 0]"
      and b': "b' = b[nat j := MAX_macro (v * exp (- 2 * k * bound ! nat j)) 0]"
      by blast
    show "?I (j + 1) t'"
    proof (intro allI impI)
      fix n assume n: "n < nat (j + 1)"
      show "snd t' ! n = fst t' ! n * exp (- 2 * k * bound ! n)"
      proof (cases "n = nat j")
        case True
        with k j show ?thesis by (simp add: t' a' b' MAX_macro_scale)
      next
        case False
        with n j have "n < nat j" by linarith
        with inv False show ?thesis by (simp add: t t' a' b')
      qed
    qed
  qed
  then show ?thesis by (simp add: max_def)
qed

subsection \<open>The forward passes run to their end\<close>

lemma wrm_Inr: "wrm nm xs i v = Inr ys \<longleftrightarrow> 0 \<le> i \<and> i < int (length xs) \<and> ys = xs[nat i := Some v]"
  by (auto simp: wrm_def)

lemma wrm_ok: "0 \<le> i \<Longrightarrow> i < int (length xs) \<Longrightarrow> wrm nm xs i v = Inr (xs[nat i := Some v])"
  by (simp add: wrm_def)

lemma rdm_ok: "0 \<le> i \<Longrightarrow> i < int (length xs) \<Longrightarrow> xs ! nat i = Some v \<Longrightarrow> rdm nm xs i = Inr v"
  by (simp add: rdm_def)

lemma rd_ok: "0 \<le> i \<Longrightarrow> i < int (length xs) \<Longrightarrow> rd nm xs i = Inr (xs ! nat i)"
  by (simp add: rd_def)

lemma wr_ok: "0 \<le> i \<Longrightarrow> i < int (length xs) \<Longrightarrow> wr nm xs i v = Inr (xs[nat i := v])"
  by (simp add: wr_def)

lemma rdm_filled: "filled xs n \<Longrightarrow> 0 \<le> i \<Longrightarrow> i < int n \<Longrightarrow> \<exists>v. rdm nm xs i = Inr v"
  by (auto simp: filled_def rdm_def split: option.splits)

lemma set_below_upd:
  "set_below xs n j \<Longrightarrow> j < n \<Longrightarrow> set_below (xs[j := Some v]) n (Suc j)"
  by (auto simp: set_below_def nth_list_update less_Suc_eq)

lemma set_below_filled: "set_below xs n n \<Longrightarrow> filled xs n"
  by (simp add: set_below_def filled_def)

lemma derivs_upd:
  assumes "derivs bound delta_t bd j" "0 < j" "j < length bd"
  shows "derivs bound delta_t (bd[j - 1 := Some ((bound ! j - bound ! (j - 1)) / delta_t)]) (Suc j)"
  unfolding derivs_def
proof (intro allI impI)
  fix i assume "i + 1 < Suc j"
  show "bd[j - 1 := Some ((bound ! j - bound ! (j - 1)) / delta_t)] ! i
          = Some ((bound ! (i + 1) - bound ! i) / delta_t)"
  proof (cases "i = j - 1")
    case True
    with assms show ?thesis by simp
  next
    case False
    with \<open>i + 1 < Suc j\<close> have "i + 1 < j" by linarith
    with assms(1) False show ?thesis by (simp add: derivs_def)
  qed
qed

lemma fpt_cum_loop_ok:
  assumes len: "k_max \<le> int (length mu)" "k_max \<le> int (length bound)"
    and init: "set_below cm (nat k_max) 1" "length bd = nat k_max" "1 \<le> k_max"
  shows "\<exists>c cm' bd'. for_loop 1 k_max (fpt_cum_body mu bound delta_t) (cur, cm, bd) = Inr (c, cm', bd')
           \<and> filled cm' (nat k_max) \<and> length bd' = nat k_max \<and> derivs bound delta_t bd' (nat k_max)"
proof -
  let ?I = "\<lambda>j (s :: real \<times> scratch \<times> scratch).
     set_below (fst (snd s)) (nat k_max) (nat j) \<and> length (snd (snd s)) = nat k_max
     \<and> derivs bound delta_t (snd (snd s)) (nat j)"
  have "\<exists>s'. for_loop 1 k_max (fpt_cum_body mu bound delta_t) (cur, cm, bd) = Inr s' \<and> ?I (max 1 k_max) s'"
  proof (rule for_loop_total[where I = ?I])
    show "?I 1 (cur, cm, bd)" using init by (simp add: derivs_def)
  next
    fix j s
    assume j: "1 \<le> j" "j < k_max" and inv: "?I j s"
    obtain c a b where s: "s = (c, a, b)" by (cases s)
    from inv have la: "length a = nat k_max" and lb: "length b = nat k_max"
      and sa: "set_below a (nat k_max) (nat j)" and db: "derivs bound delta_t b (nat j)"
      by (simp_all add: s set_below_def)
    have nj: "nat (j + 1) = Suc (nat j)" "nat (j - 1) = nat j - 1" using j by linarith+
    have body: "fpt_cum_body mu bound delta_t j s =
        Inr (c + delta_t * mu ! nat j, a[nat j := Some (c + delta_t * mu ! nat j)],
             b[nat j - 1 := Some ((bound ! nat j - bound ! (nat j - 1)) / delta_t)])"
      using j len la lb by (simp add: s rd_ok wrm_ok Let_def nj)
    have "set_below (a[nat j := Some (c + delta_t * mu ! nat j)]) (nat k_max) (Suc (nat j))"
      using sa j by (intro set_below_upd) auto
    moreover have "derivs bound delta_t (b[nat j - 1 := Some ((bound ! nat j - bound ! (nat j - 1)) / delta_t)]) (Suc (nat j))"
      using db j lb by (intro derivs_upd) auto
    ultimately show "\<exists>s'. fpt_cum_body mu bound delta_t j s = Inr s' \<and> ?I (j + 1) s'"
      using lb by (simp add: body nj)
  qed
  then show ?thesis using init(3) by (auto simp: max_def intro: set_below_filled)
qed

lemma filled_map: "filled xs n \<Longrightarrow> \<exists>ys. xs = map Some ys \<and> length ys = n"
  by (rule exI[of _ "map the xs"]) (auto simp: filled_def intro!: nth_equalityI)

lemma rdm_Some: "0 \<le> i \<Longrightarrow> i < int (length ys) \<Longrightarrow> rdm nm (map Some ys) i = Inr (ys ! nat i)"
  by (simp add: rdm_def)

lemma bnd_total:
  assumes "\<exists>x. m = Inr x \<and> Q x" and "\<And>x. Q x \<Longrightarrow> \<exists>y. f x = Inr y \<and> P y"
  shows "\<exists>y. bnd m f = Inr y \<and> P y"
  using assms by auto

lemma norm_loop_ok:
  assumes "length ns = nat k_max" "length nt = nat k_max"
  shows "\<exists>ns' nt'. for_loop 0 k_max (norm_body c delta_t) (ns, nt) = Inr (ns', nt')
           \<and> filled ns' (nat k_max) \<and> filled nt' (nat k_max)"
proof -
  let ?I = "\<lambda>j (s :: scratch \<times> scratch).
     set_below (fst s) (nat k_max) (nat j) \<and> set_below (snd s) (nat k_max) (nat j)"
  have "\<exists>s'. for_loop 0 k_max (norm_body c delta_t) (ns, nt) = Inr s' \<and> ?I (max 0 k_max) s'"
  proof (rule for_loop_total[where I = ?I])
    show "?I 0 (ns, nt)" using assms by (simp add: set_below_def)
  next
    fix j s
    assume j: "0 \<le> j" "j < k_max" and inv: "?I j s"
    obtain a b where s: "s = (a, b)" by (cases s)
    from inv have sa: "set_below a (nat k_max) (nat j)" and sb: "set_below b (nat k_max) (nat j)"
      by (simp_all add: s)
    then have la: "length a = nat k_max" and lb: "length b = nat k_max"
      by (simp_all add: set_below_def)
    have nj: "nat (j + 1) = Suc (nat j)" using j by linarith
    have "set_below (a[nat j := Some v]) (nat k_max) (Suc (nat j))" for v
      using sa j by (intro set_below_upd) auto
    moreover have "set_below (b[nat j := Some v]) (nat k_max) (Suc (nat j))" for v
      using sb j by (intro set_below_upd) auto
    ultimately show "\<exists>s'. norm_body c delta_t j s = Inr s' \<and> ?I (j + 1) s'"
      using j la lb by (simp add: s wrm_ok nj)
  qed
  then show ?thesis
    by (cases "0 \<le> k_max") (auto simp: max_def set_below_def filled_def)
qed

lemma last_deriv_ok:
  assumes d: "derivs bound delta_t bd (nat k_max)" and l: "length bd = nat k_max" and k: "2 \<le> k_max"
  shows "rdm nm bd (k_max - 2)
           = Inr ((bound ! (nat k_max - 1) - bound ! (nat k_max - 2)) / delta_t)"
proof -
  have "nat k_max - 2 + 1 < nat k_max" using k by linarith
  with d have "bd ! (nat k_max - 2) = Some ((bound ! (nat k_max - 2 + 1) - bound ! (nat k_max - 2)) / delta_t)"
    unfolding derivs_def by blast
  moreover have "nat k_max - 2 + 1 = nat k_max - 1" using k by linarith
  moreover have "nat (k_max - 2) = nat k_max - 2" by linarith
  ultimately show ?thesis using k l by (simp add: rdm_def)
qed

lemma deriv_rule_last:
  assumes d: "derivs bound delta_t bd n" and l: "length bd = n" and k: "2 \<le> n"
  shows "deriv_rule bound delta_t n (bd[n - 1 := Some ((bound ! (n - 1) - bound ! (n - 2)) / delta_t)])"
proof -
  have a: "n - 2 + 1 = n - 1" "n - 2 \<noteq> n - 1" "n - 1 < n" "n - 2 + 1 < n" using k by linarith+
  have "bd ! (n - 2) = Some ((bound ! (n - 2 + 1) - bound ! (n - 2)) / delta_t)"
    using d a(4) unfolding derivs_def by blast
  then have b: "bd ! (n - 2) = Some ((bound ! (n - 1) - bound ! (n - 2)) / delta_t)"
    by (simp only: a)
  have c: "bd[n - 1 := v] ! j = Some ((bound ! (j + 1) - bound ! j) / delta_t)" if "j + 1 < n" for j v
    using d that unfolding derivs_def by simp
  show ?thesis
    unfolding deriv_rule_def using l a b c by simp
qed

lemma deriv_rule_filled: "deriv_rule bound delta_t n bd \<Longrightarrow> filled bd n"
  unfolding deriv_rule_def filled_def
proof (intro conjI allI impI)
  fix i assume h: "length bd = n \<and>
       bd ! (n - 1) = Some ((bound ! (n - 1) - bound ! (n - 2)) / delta_t) \<and>
       bd ! (n - 2) = Some ((bound ! (n - 1) - bound ! (n - 2)) / delta_t) \<and>
       (\<forall>j. j + 1 < n \<longrightarrow> bd ! j = Some ((bound ! (j + 1) - bound ! j) / delta_t))" and i: "i < n"
  show "bd ! i \<noteq> None"
  proof (cases "i + 1 < n")
    case True with h show ?thesis by simp
  next
    case False with i have "i = n - 1" by linarith
    with h show ?thesis by simp
  qed
qed simp

lemma fpt_cum_ok:
  assumes len: "k_max \<le> int (length mu)" "k_max \<le> int (length bound)" and k: "2 \<le> k_max"
  shows "\<exists>cm bd ns nt.
           fpt_cum mu bound delta_t k_max (replicate (nat k_max) None) (replicate (nat k_max) None)
             (replicate (nat k_max) None) (replicate (nat k_max) None) = Inr (cm, bd, ns, nt)
           \<and> filled cm (nat k_max) \<and> deriv_rule bound delta_t (nat k_max) bd
           \<and> filled ns (nat k_max) \<and> filled nt (nat k_max)"
proof -
  let ?N = "nat k_max"
  let ?d = "(bound ! (?N - 1) - bound ! (?N - 2)) / delta_t"
  have sb: "set_below ((replicate ?N None)[0 := Some v]) ?N 1" for v :: real
    using k by (auto simp: set_below_def)
  obtain c cm bd where loop: "for_loop 1 k_max (fpt_cum_body mu bound delta_t)
        (delta_t * mu ! 0, (replicate ?N None)[0 := Some (delta_t * mu ! 0)], replicate ?N None) = Inr (c, cm, bd)"
    and cm: "filled cm ?N" and lbd: "length bd = ?N" and d: "derivs bound delta_t bd ?N"
    using fpt_cum_loop_ok[OF len sb[of "delta_t * mu ! 0"], where bd = "replicate ?N None"
        and cur = "delta_t * mu ! 0" and delta_t = delta_t] k
    by auto
  obtain ns nt where norm: "for_loop 0 k_max (norm_body (PI * (2 * delta_t)) delta_t)
        (replicate ?N None, replicate ?N None) = Inr (ns, nt)"
    and ns: "filled ns ?N" and nt: "filled nt ?N"
    using norm_loop_ok[where ns = "replicate ?N None" and k_max = k_max and nt = "replicate ?N None"
        and c = "PI * (2 * delta_t)" and delta_t = delta_t] by auto
  have n1: "nat (k_max - 1) = ?N - 1" by linarith
  have r0: "rd ''mu'' mu 0 = Inr (mu ! 0)" using len k by (auto simp: rd_def)
  have "fpt_cum mu bound delta_t k_max (replicate ?N None) (replicate ?N None)
             (replicate ?N None) (replicate ?N None) = Inr (cm, bd[?N - 1 := Some ?d], ns, nt)"
    using k lbd
    by (simp add: fpt_cum_def Let_def r0 wrm_ok loop last_deriv_ok[OF d lbd k] norm n1)
  moreover have "deriv_rule bound delta_t ?N (bd[?N - 1 := Some ?d])"
    using d lbd k by (intro deriv_rule_last) auto
  ultimately show ?thesis using cm ns nt by blast
qed

subsection \<open>The fill loops run to their end\<close>

lemma bnd_total':
  assumes "\<exists>x. m = Inr x" and "\<And>x. \<exists>y. f x = Inr y \<and> P y"
  shows "\<exists>y. bnd m f = Inr y \<and> P y"
  using assms by (metis bnd_Inr)

lemma fpt_inner_ok:
  assumes "k < int (length bound)" "k < int (length cm)" "k < int (length ns)" "k < int (length nt)"
    "k < int (length g1)" "k < int (length g2)"
  shows "\<exists>r. for_loop 0 k (fpt_inner_body bound (map Some cm) (map Some ns) (map Some nt) g1 g2
                  delta_t bk d1 d2 ck k) s = Inr r"
proof -
  have "\<exists>r. for_loop 0 k (fpt_inner_body bound (map Some cm) (map Some ns) (map Some nt) g1 g2
                  delta_t bk d1 d2 ck k) s = Inr r \<and> True"
  proof (rule for_loop_total[where I = "\<lambda>_ _. True"])
    fix j and t :: "real \<times> real"
    assume j: "0 \<le> j" "j < k"
    obtain a b where t: "t = (a, b)" by (cases t)
    from j assms show "\<exists>t'. fpt_inner_body bound (map Some cm) (map Some ns) (map Some nt) g1 g2
                  delta_t bk d1 d2 ck k j t = Inr t' \<and> True"
      by (simp add: t rd_ok rdm_Some Let_def)
  qed simp
  then show ?thesis by simp
qed

lemma fpt_fill_ok:
  assumes len: "k_max \<le> int (length mu)" "k_max \<le> int (length bound)"
      "k_max \<le> int (length g1)" "k_max \<le> int (length g2)"
    and sc: "filled cm (nat k_max)" "filled bd (nat k_max)" "filled ns (nat k_max)" "filled nt (nat k_max)"
  shows "\<exists>h1 h2. for_loop 0 k_max (fpt_fill_body mu bound delta_t cm bd ns nt) (g1, g2) = Inr (h1, h2)"
proof -
  from sc obtain cm' bd' ns' nt' where
    eq: "cm = map Some cm'" "bd = map Some bd'" "ns = map Some ns'" "nt = map Some nt'"
    and l: "length cm' = nat k_max" "length bd' = nat k_max" "length ns' = nat k_max" "length nt' = nat k_max"
    by (metis filled_map)
  let ?I = "\<lambda>(j :: int) (s :: real list \<times> real list). length (fst s) = length g1 \<and> length (snd s) = length g2"
  have "\<exists>s'. for_loop 0 k_max (fpt_fill_body mu bound delta_t cm bd ns nt) (g1, g2) = Inr s' \<and> ?I (max 0 k_max) s'"
  proof (rule for_loop_total[where I = ?I])
    show "?I 0 (g1, g2)" by simp
  next
    fix k s
    assume k: "0 \<le> k" "k < k_max" and inv: "?I k s"
    obtain a b where s: "s = (a, b)" by (cases s)
    from inv have la: "length a = length g1" and lb: "length b = length g2" by (simp_all add: s)
    have inner: "\<exists>r. for_loop 0 k (fpt_inner_body bound (map Some cm') (map Some ns') (map Some nt') a b
                  delta_t bk d1 d2 ck k) s0 = Inr r" for bk d1 d2 ck s0
      using k len l la lb by (intro fpt_inner_ok) auto
    show "\<exists>s'. fpt_fill_body mu bound delta_t cm bd ns nt k s = Inr s' \<and> ?I (k + 1) s'"
      using k len l la lb
      apply (simp add: s eq rd_ok rdm_Some Let_def del: split_paired_Ex)
      apply (rule bnd_total')
       apply (rule inner)
      apply (auto simp: wr_ok)
      done
  qed
  then show ?thesis by auto
qed

lemma ddm_fpt_ok:
  assumes "0 < delta_t" "2 \<le> k_max"
    and len: "k_max \<le> int (length mu)" "k_max \<le> int (length bound)"
      "k_max \<le> int (length g1)" "k_max \<le> int (length g2)"
  shows "\<exists>h1 h2. ddm_fpt True True True True mu bound delta_t k_max g1 g2 = Inr (0, h1, h2, 0)"
proof -
  obtain cm bd ns nt where
    cum: "fpt_cum mu bound delta_t k_max (replicate (nat k_max) None) (replicate (nat k_max) None)
             (replicate (nat k_max) None) (replicate (nat k_max) None) = Inr (cm, bd, ns, nt)"
    and f: "filled cm (nat k_max)" "deriv_rule bound delta_t (nat k_max) bd"
      "filled ns (nat k_max)" "filled nt (nat k_max)"
    using fpt_cum_ok[OF len(1,2) assms(2)] by blast
  obtain h1 h2 where "for_loop 0 k_max (fpt_fill_body mu bound delta_t cm bd ns nt) (g1, g2) = Inr (h1, h2)"
    using fpt_fill_ok[OF len f(1) deriv_rule_filled[OF f(2)] f(3,4)] by blast
  then show ?thesis
    using assms(1,2) by (simp add: ddm_fpt_def malloc_def allocated_def free_def cum)
qed

lemma const_mu_deriv_loop_ok:
  assumes len: "k_max \<le> int (length bound)"
    and init: "length bd = nat k_max" "1 \<le> k_max"
  shows "\<exists>bd'. for_loop 1 k_max (const_mu_deriv_body bound delta_t) bd = Inr bd'
           \<and> length bd' = nat k_max \<and> derivs bound delta_t bd' (nat k_max)"
proof -
  let ?I = "\<lambda>j (s :: scratch). length s = nat k_max \<and> derivs bound delta_t s (nat j)"
  have "\<exists>s'. for_loop 1 k_max (const_mu_deriv_body bound delta_t) bd = Inr s' \<and> ?I (max 1 k_max) s'"
  proof (rule for_loop_total[where I = ?I])
    show "?I 1 bd" using init by (simp add: derivs_def)
  next
    fix j b
    assume j: "1 \<le> j" "j < k_max" and inv: "?I j b"
    from inv have lb: "length b = nat k_max" and db: "derivs bound delta_t b (nat j)"
      by simp_all
    have nj: "nat (j + 1) = Suc (nat j)" "nat (j - 1) = nat j - 1" using j by linarith+
    have body: "const_mu_deriv_body bound delta_t j b =
        Inr (b[nat j - 1 := Some ((bound ! nat j - bound ! (nat j - 1)) / delta_t)])"
      using j len lb by (simp add: const_mu_deriv_body_def rd_ok wrm_ok nj)
    have "derivs bound delta_t (b[nat j - 1 := Some ((bound ! nat j - bound ! (nat j - 1)) / delta_t)]) (Suc (nat j))"
      using db j lb by (intro derivs_upd) auto
    then show "\<exists>s'. const_mu_deriv_body bound delta_t j b = Inr s' \<and> ?I (j + 1) s'"
      using lb by (simp add: body nj)
  qed
  then show ?thesis using init(2) by (auto simp: max_def)
qed

lemma const_mu_cum_ok:
  assumes len: "k_max \<le> int (length bound)" and k: "2 \<le> k_max"
  shows "\<exists>bd ns nt.
           const_mu_cum bound delta_t k_max (replicate (nat k_max) None)
             (replicate (nat k_max) None) (replicate (nat k_max) None) = Inr (bd, ns, nt)
           \<and> deriv_rule bound delta_t (nat k_max) bd
           \<and> filled ns (nat k_max) \<and> filled nt (nat k_max)"
proof -
  let ?N = "nat k_max"
  let ?d = "(bound ! (?N - 1) - bound ! (?N - 2)) / delta_t"
  obtain bd where loop: "for_loop 1 k_max (const_mu_deriv_body bound delta_t) (replicate ?N None) = Inr bd"
    and lbd: "length bd = ?N" and d: "derivs bound delta_t bd ?N"
    using const_mu_deriv_loop_ok[OF len, where bd = "replicate ?N None" and delta_t = delta_t] k
    by auto
  obtain ns nt where norm: "for_loop 0 k_max (norm_body (PI * (2 * delta_t)) delta_t)
        (replicate ?N None, replicate ?N None) = Inr (ns, nt)"
    and ns: "filled ns ?N" and nt: "filled nt ?N"
    using norm_loop_ok[where ns = "replicate ?N None" and k_max = k_max and nt = "replicate ?N None"
        and c = "PI * (2 * delta_t)" and delta_t = delta_t] by auto
  have n1: "nat (k_max - 1) = ?N - 1" by linarith
  have "const_mu_cum bound delta_t k_max (replicate ?N None) (replicate ?N None) (replicate ?N None)
          = Inr (bd[?N - 1 := Some ?d], ns, nt)"
    using k lbd
    by (simp add: const_mu_cum_def Let_def wrm_ok loop last_deriv_ok[OF d lbd k] norm n1)
  moreover have "deriv_rule bound delta_t ?N (bd[?N - 1 := Some ?d])"
    using d lbd k by (intro deriv_rule_last) auto
  ultimately show ?thesis using ns nt by blast
qed

lemma const_mu_inner_ok:
  assumes "k < int (length bound)" "k < int (length ns)" "k < int (length nt)"
    "k < int (length g1)" "k < int (length g2)"
  shows "\<exists>r. for_loop 0 k (const_mu_inner_body bound (map Some ns) (map Some nt) g1 g2
                  delta_t md bk d1 d2 k) s = Inr r"
proof -
  have "\<exists>r. for_loop 0 k (const_mu_inner_body bound (map Some ns) (map Some nt) g1 g2
                  delta_t md bk d1 d2 k) s = Inr r \<and> True"
  proof (rule for_loop_total[where I = "\<lambda>_ _. True"])
    fix j and t :: real
    assume j: "0 \<le> j" "j < k"
    from j assms show "\<exists>t'. const_mu_inner_body bound (map Some ns) (map Some nt) g1 g2
                  delta_t md bk d1 d2 k j t = Inr t' \<and> True"
      by (simp add: const_mu_inner_body_def rd_ok rdm_Some Let_def)
  qed simp
  then show ?thesis by simp
qed

lemma const_mu_fill_ok:
  assumes len: "k_max \<le> int (length bound)"
      "k_max \<le> int (length g1)" "k_max \<le> int (length g2)"
    and sc: "filled bd (nat k_max)" "filled ns (nat k_max)" "filled nt (nat k_max)"
  shows "\<exists>h1 h2. for_loop 0 k_max (const_mu_fill_body mu bound delta_t md m2 bd ns nt) (g1, g2) = Inr (h1, h2)"
proof -
  from sc obtain bd' ns' nt' where
    eq: "bd = map Some bd'" "ns = map Some ns'" "nt = map Some nt'"
    and l: "length bd' = nat k_max" "length ns' = nat k_max" "length nt' = nat k_max"
    by (metis filled_map)
  let ?I = "\<lambda>(j :: int) (s :: real list \<times> real list). length (fst s) = length g1 \<and> length (snd s) = length g2"
  have "\<exists>s'. for_loop 0 k_max (const_mu_fill_body mu bound delta_t md m2 bd ns nt) (g1, g2) = Inr s' \<and> ?I (max 0 k_max) s'"
  proof (rule for_loop_total[where I = ?I])
    show "?I 0 (g1, g2)" by simp
  next
    fix k s
    assume k: "0 \<le> k" "k < k_max" and inv: "?I k s"
    obtain a b where s: "s = (a, b)" by (cases s)
    from inv have la: "length a = length g1" and lb: "length b = length g2" by (simp_all add: s)
    have inner: "\<exists>r. for_loop 0 k (const_mu_inner_body bound (map Some ns') (map Some nt') a b
                  delta_t md bk d1 d2 k) s0 = Inr r" for bk d1 d2 s0
      using k len l la lb by (intro const_mu_inner_ok) auto
    show "\<exists>s'. const_mu_fill_body mu bound delta_t md m2 bd ns nt k s = Inr s' \<and> ?I (k + 1) s'"
      using k len l la lb
      apply (simp add: s eq rd_ok rdm_Some Let_def del: split_paired_Ex)
      apply (rule bnd_total')
       apply (rule inner)
      apply (auto simp: wr_ok)
      done
  qed
  then show ?thesis by auto
qed

lemma ddm_fpt_const_mu_ok:
  assumes "0 < mu" "0 < delta_t" "2 \<le> k_max"
    and len: "k_max \<le> int (length bound)" "k_max \<le> int (length g1)" "k_max \<le> int (length g2)"
  shows "\<exists>h1 h2. ddm_fpt_const_mu True True True mu bound delta_t k_max g1 g2 = Inr (0, h1, h2, 0)"
proof -
  obtain bd ns nt where
    cum: "const_mu_cum bound delta_t k_max (replicate (nat k_max) None)
             (replicate (nat k_max) None) (replicate (nat k_max) None) = Inr (bd, ns, nt)"
    and f: "deriv_rule bound delta_t (nat k_max) bd" "filled ns (nat k_max)" "filled nt (nat k_max)"
    using const_mu_cum_ok[OF len(1) assms(3)] by blast
  obtain h1 h2 where "for_loop 0 k_max (const_mu_fill_body mu bound delta_t (delta_t * mu) (- 2 * mu) bd ns nt) (g1, g2) = Inr (h1, h2)"
    using const_mu_fill_ok[OF len deriv_rule_filled[OF f(1)] f(2,3)] by blast
  then show ?thesis
    using assms(1,2,3) by (simp add: ddm_fpt_const_mu_def malloc_def allocated_def free_def cum)
qed

lemma w_cum_loop_ok:
  assumes len: "n_max \<le> int (length mu)" "n_max \<le> int (length bound)"
    and init: "set_below a2 (nat n_max) 1" "set_below A (nat n_max) 1" "length bd = nat n_max" "1 \<le> n_max"
  shows "\<exists>c a2' A' bd'. for_loop 1 n_max (w_cum_body mu bound delta_t) (cur, a2, A, bd) = Inr (c, a2', A', bd')
           \<and> filled a2' (nat n_max) \<and> filled A' (nat n_max)
           \<and> length bd' = nat n_max \<and> derivs bound delta_t bd' (nat n_max)"
proof -
  let ?I = "\<lambda>j (s :: real \<times> scratch \<times> scratch \<times> scratch).
     set_below (fst (snd s)) (nat n_max) (nat j) \<and> set_below (fst (snd (snd s))) (nat n_max) (nat j)
     \<and> length (snd (snd (snd s))) = nat n_max
     \<and> derivs bound delta_t (snd (snd (snd s))) (nat j)"
  have "\<exists>s'. for_loop 1 n_max (w_cum_body mu bound delta_t) (cur, a2, A, bd) = Inr s' \<and> ?I (max 1 n_max) s'"
  proof (rule for_loop_total[where I = ?I])
    show "?I 1 (cur, a2, A, bd)" using init by (simp add: derivs_def)
  next
    fix j s
    assume j: "1 \<le> j" "j < n_max" and inv: "?I j s"
    obtain c a aa b where s: "s = (c, a, aa, b)" by (cases s)
    from inv have sa: "set_below a (nat n_max) (nat j)" and saa: "set_below aa (nat n_max) (nat j)"
      and lb: "length b = nat n_max" and db: "derivs bound delta_t b (nat j)"
      by (simp_all add: s)
    from sa saa have la: "length a = nat n_max" and laa: "length aa = nat n_max"
      by (simp_all add: set_below_def)
    have nj: "nat (j + 1) = Suc (nat j)" "nat (j - 1) = nat j - 1" using j by linarith+
    have body: "w_cum_body mu bound delta_t j s =
        Inr (c + delta_t * (mu ! nat j * mu ! nat j), a[nat j := Some (mu ! nat j * mu ! nat j)],
             aa[nat j := Some (c + delta_t * (mu ! nat j * mu ! nat j))],
             b[nat j - 1 := Some ((bound ! nat j - bound ! (nat j - 1)) / delta_t)])"
      using j len la laa lb by (simp add: s rd_ok wrm_ok Let_def nj)
    have "set_below (a[nat j := Some v]) (nat n_max) (Suc (nat j))" for v
      using sa j by (intro set_below_upd) auto
    moreover have "set_below (aa[nat j := Some v]) (nat n_max) (Suc (nat j))" for v
      using saa j by (intro set_below_upd) auto
    moreover have "derivs bound delta_t (b[nat j - 1 := Some ((bound ! nat j - bound ! (nat j - 1)) / delta_t)]) (Suc (nat j))"
      using db j lb by (intro derivs_upd) auto
    ultimately show "\<exists>s'. w_cum_body mu bound delta_t j s = Inr s' \<and> ?I (j + 1) s'"
      using lb by (simp add: body nj)
  qed
  then show ?thesis using init(4) by (auto simp: max_def intro: set_below_filled)
qed

lemma w_cum_ok:
  assumes len: "n_max \<le> int (length mu)" "n_max \<le> int (length bound)" and k: "2 \<le> n_max"
  shows "\<exists>a2 A bd.
           w_cum mu bound delta_t n_max (replicate (nat n_max) None) (replicate (nat n_max) None)
             (replicate (nat n_max) None) = Inr (a2, A, bd)
           \<and> filled a2 (nat n_max) \<and> filled A (nat n_max)
           \<and> deriv_rule bound delta_t (nat n_max) bd"
proof -
  let ?N = "nat n_max"
  let ?d = "(bound ! (?N - 1) - bound ! (?N - 2)) / delta_t"
  have sb: "set_below ((replicate ?N None)[0 := Some v]) ?N 1" for v :: real
    using k by (auto simp: set_below_def)
  obtain c a2 A bd where loop: "for_loop 1 n_max (w_cum_body mu bound delta_t)
        (delta_t * (mu ! 0 * mu ! 0), (replicate ?N None)[0 := Some (mu ! 0 * mu ! 0)],
         (replicate ?N None)[0 := Some (delta_t * (mu ! 0 * mu ! 0))], replicate ?N None) = Inr (c, a2, A, bd)"
    and fa: "filled a2 ?N" "filled A ?N" and lbd: "length bd = ?N" and d: "derivs bound delta_t bd ?N"
    using w_cum_loop_ok[OF len sb[of "mu ! 0 * mu ! 0"] sb[of "delta_t * (mu ! 0 * mu ! 0)"],
        where bd = "replicate ?N None" and cur = "delta_t * (mu ! 0 * mu ! 0)" and delta_t = delta_t] k
    by auto
  have n1: "nat (n_max - 1) = ?N - 1" by linarith
  have r0: "rd ''mu'' mu 0 = Inr (mu ! 0)" using len k by (auto simp: rd_def)
  have "w_cum mu bound delta_t n_max (replicate ?N None) (replicate ?N None) (replicate ?N None)
          = Inr (a2, A, bd[?N - 1 := Some ?d])"
    using k lbd
    by (simp add: w_cum_def Let_def r0 wrm_ok loop last_deriv_ok[OF d lbd k] n1)
  moreover have "deriv_rule bound delta_t ?N (bd[?N - 1 := Some ?d])"
    using d lbd k by (intro deriv_rule_last) auto
  ultimately show ?thesis using fa by blast
qed

lemma w_inner_ok:
  assumes "n < int (length bound)" "n < int (length A)" "n < int (length g1)" "n < int (length g2)"
  shows "\<exists>r. for_loop 0 n (w_inner_body bound (map Some A) g1 g2 k delta_t bn an An dn) s = Inr r"
proof -
  have "\<exists>r. for_loop 0 n (w_inner_body bound (map Some A) g1 g2 k delta_t bn an An dn) s = Inr r \<and> True"
  proof (rule for_loop_total[where I = "\<lambda>_ _. True"])
    fix j and t :: real
    assume j: "0 \<le> j" "j < n"
    from j assms show "\<exists>t'. w_inner_body bound (map Some A) g1 g2 k delta_t bn an An dn j t = Inr t' \<and> True"
      by (simp add: w_inner_body_def rd_ok rdm_Some Let_def)
  qed simp
  then show ?thesis by simp
qed

lemma w_fill_ok:
  assumes len: "n_max \<le> int (length bound)"
      "n_max \<le> int (length g1)" "n_max \<le> int (length g2)"
    and sc: "filled a2 (nat n_max)" "filled A (nat n_max)" "filled bd (nat n_max)"
  shows "\<exists>h1 h2. for_loop 0 n_max (w_fill_body bound k delta_t k2 a2 A bd) (g1, g2) = Inr (h1, h2)"
proof -
  from sc obtain a2' A' bd' where
    eq: "a2 = map Some a2'" "A = map Some A'" "bd = map Some bd'"
    and l: "length a2' = nat n_max" "length A' = nat n_max" "length bd' = nat n_max"
    by (metis filled_map)
  let ?I = "\<lambda>(j :: int) (s :: real list \<times> real list). length (fst s) = length g1 \<and> length (snd s) = length g2"
  have "\<exists>s'. for_loop 0 n_max (w_fill_body bound k delta_t k2 a2 A bd) (g1, g2) = Inr s' \<and> ?I (max 0 n_max) s'"
  proof (rule for_loop_total[where I = ?I])
    show "?I 0 (g1, g2)" by simp
  next
    fix n s
    assume n: "0 \<le> n" "n < n_max" and inv: "?I n s"
    obtain a b where s: "s = (a, b)" by (cases s)
    from inv have la: "length a = length g1" and lb: "length b = length g2" by (simp_all add: s)
    have inner: "\<exists>r. for_loop 0 n (w_inner_body bound (map Some A') a b k delta_t bn an An dn) s0 = Inr r"
      for bn an An dn s0
      using n len l la lb by (intro w_inner_ok) auto
    show "\<exists>s'. w_fill_body bound k delta_t k2 a2 A bd n s = Inr s' \<and> ?I (n + 1) s'"
      using n len l la lb
      apply (simp add: s eq rd_ok rdm_Some Let_def del: split_paired_Ex)
      apply (rule bnd_total')
       apply (rule inner)
      apply (auto simp: wr_ok)
      done
  qed
  then show ?thesis by auto
qed

lemma ddm_fpt_w_ok:
  assumes "0 < delta_t" "2 \<le> n_max"
    and len: "n_max \<le> int (length mu)" "n_max \<le> int (length bound)"
      "n_max \<le> int (length g1)" "n_max \<le> int (length g2)"
  shows "\<exists>h1 h2. ddm_fpt_w True True True mu bound k delta_t n_max g1 g2 = Inr (0, h1, h2, 0)"
proof -
  obtain a2 A bd where
    cum: "w_cum mu bound delta_t n_max (replicate (nat n_max) None) (replicate (nat n_max) None)
             (replicate (nat n_max) None) = Inr (a2, A, bd)"
    and f: "filled a2 (nat n_max)" "filled A (nat n_max)" "deriv_rule bound delta_t (nat n_max) bd"
    using w_cum_ok[OF len(1,2) assms(2)] by blast
  obtain h1 h2 where "for_loop 0 n_max (w_fill_body bound k delta_t (- 2 * k) a2 A bd) (g1, g2) = Inr (h1, h2)"
    using w_fill_ok[OF len(2,3,4) f(1,2) deriv_rule_filled[OF f(3)]] by blast
  then show ?thesis
    using assms(1,2) by (simp add: ddm_fpt_w_def malloc_def allocated_def free_def cum)
qed

subsection \<open>The forward passes of ddm_fpt_full and ddm_fpt_full_leak\<close>

text \<open>The cells below \<open>j\<close> hold the values \<open>v 0, v 1, ...\<close>.\<close>

lemma vals_upd:
  assumes "\<forall>i < j. xs ! i = Some (v i)" "j < length xs"
  shows "\<forall>i < Suc j. xs[j := Some (v j)] ! i = Some (v i)"
  using assms by (auto simp: nth_list_update less_Suc_eq)

lemma cum_leak_step:
  "0 < n \<Longrightarrow> cum_leak e delta_t xs n = e * cum_leak e delta_t xs (n - 1) + delta_t * xs ! n"
  by (cases n) simp_all

lemma leak_cum_loop_ok:
  assumes len: "k_max \<le> int (length mu)" "k_max \<le> int (length sig2)" and k: "1 \<le> k_max"
    and l: "length cm = nat k_max" "length cs = nat k_max" "length d = nat k_max"
    and init: "cm ! 0 = Some (cum_leak e delta_t mu 0)" "cs ! 0 = Some (cum_leak ee delta_t sig2 0)"
      "d ! 0 = Some (e ^ 1)"
  shows "\<exists>c1 cm' c2 cs' c3 d'.
           for_loop 1 k_max (leak_cum_body mu sig2 delta_t e ee)
             (cum_leak e delta_t mu 0, cm, cum_leak ee delta_t sig2 0, cs, e, Some d)
             = Inr (c1, cm', c2, cs', c3, Some d')
           \<and> length cm' = nat k_max \<and> length cs' = nat k_max \<and> length d' = nat k_max
           \<and> (\<forall>i < nat k_max. cm' ! i = Some (cum_leak e delta_t mu i))
           \<and> (\<forall>i < nat k_max. cs' ! i = Some (cum_leak ee delta_t sig2 i))
           \<and> (\<forall>i < nat k_max. d' ! i = Some (e ^ (i + 1)))"
proof -
  let ?N = "nat k_max"
  let ?I = "\<lambda>j (s :: real \<times> scratch \<times> real \<times> scratch \<times> real \<times> scratch option).
     case s of (c1, a, c2, b, c3, p) \<Rightarrow>
       (\<exists>dd. p = Some dd \<and> length a = ?N \<and> length b = ?N \<and> length dd = ?N
         \<and> c1 = cum_leak e delta_t mu (nat j - 1) \<and> c2 = cum_leak ee delta_t sig2 (nat j - 1)
         \<and> c3 = e ^ nat j
         \<and> (\<forall>i < nat j. a ! i = Some (cum_leak e delta_t mu i))
         \<and> (\<forall>i < nat j. b ! i = Some (cum_leak ee delta_t sig2 i))
         \<and> (\<forall>i < nat j. dd ! i = Some (e ^ (i + 1))))"
  have "\<exists>s'. for_loop 1 k_max (leak_cum_body mu sig2 delta_t e ee)
             (cum_leak e delta_t mu 0, cm, cum_leak ee delta_t sig2 0, cs, e, Some d) = Inr s'
           \<and> ?I (max 1 k_max) s'"
  proof (rule for_loop_total[where I = ?I])
    show "?I 1 (cum_leak e delta_t mu 0, cm, cum_leak ee delta_t sig2 0, cs, e, Some d)"
      using l init by simp
  next
    fix j s
    assume j: "1 \<le> j" "j < k_max" and inv: "?I j s"
    obtain c1 a c2 b c3 p where s: "s = (c1, a, c2, b, c3, p)" by (cases s)
    from inv obtain dd where p: "p = Some dd"
      and la: "length a = ?N" "length b = ?N" "length dd = ?N"
      and c: "c1 = cum_leak e delta_t mu (nat j - 1)" "c2 = cum_leak ee delta_t sig2 (nat j - 1)"
        "c3 = e ^ nat j"
      and va: "\<forall>i < nat j. a ! i = Some (cum_leak e delta_t mu i)"
      and vb: "\<forall>i < nat j. b ! i = Some (cum_leak ee delta_t sig2 i)"
      and vd: "\<forall>i < nat j. dd ! i = Some (e ^ (i + 1))"
      by (auto simp: s)
    have nj: "nat (j + 1) = Suc (nat j)" "0 < nat j" using j by linarith+
    have n1: "cum_leak e delta_t mu (nat j) = e * c1 + delta_t * mu ! nat j"
      and n2: "cum_leak ee delta_t sig2 (nat j) = ee * c2 + delta_t * sig2 ! nat j"
      unfolding c using nj(2) by (rule cum_leak_step)+
    have n3: "c3 * e = e ^ (nat j + 1)" by (simp add: c)
    have "leak_cum_body mu sig2 delta_t e ee j s =
        Inr (cum_leak e delta_t mu (nat j), a[nat j := Some (cum_leak e delta_t mu (nat j))],
             cum_leak ee delta_t sig2 (nat j), b[nat j := Some (cum_leak ee delta_t sig2 (nat j))],
             c3 * e, Some (dd[nat j := Some (c3 * e)]))"
      using j len la by (simp add: s p rd_ok wrm_ok wrp_def Let_def n1 n2)
    then have body: "leak_cum_body mu sig2 delta_t e ee j s =
        Inr (cum_leak e delta_t mu (nat j), a[nat j := Some (cum_leak e delta_t mu (nat j))],
             cum_leak ee delta_t sig2 (nat j), b[nat j := Some (cum_leak ee delta_t sig2 (nat j))],
             e ^ (nat j + 1), Some (dd[nat j := Some (e ^ (nat j + 1))]))"
      unfolding n3 .
    have lt: "nat j < length a" "nat j < length b" "nat j < length dd" using j la by linarith+
    have ua: "\<forall>i < Suc (nat j). a[nat j := Some (cum_leak e delta_t mu (nat j))] ! i
                = Some (cum_leak e delta_t mu i)"
      using vals_upd[where v = "cum_leak e delta_t mu" and xs = a and j = "nat j"] va lt by simp
    have ub: "\<forall>i < Suc (nat j). b[nat j := Some (cum_leak ee delta_t sig2 (nat j))] ! i
                = Some (cum_leak ee delta_t sig2 i)"
      using vals_upd[where v = "cum_leak ee delta_t sig2" and xs = b and j = "nat j"] vb lt by simp
    have ud: "\<forall>i < Suc (nat j). dd[nat j := Some (e ^ (nat j + 1))] ! i = Some (e ^ (i + 1))"
      using vals_upd[where v = "\<lambda>i. e ^ (i + 1)" and xs = dd and j = "nat j"] vd lt by simp
    show "\<exists>s'. leak_cum_body mu sig2 delta_t e ee j s = Inr s' \<and> ?I (j + 1) s'"
      using la ua ub ud by (simp add: body nj(1))
  qed
  then show ?thesis using k by (auto simp: max_def)
qed

lemma leak_disc2_head_ok:
  assumes m: "0 \<le> m" "2 * m \<le> int (length d)" and l: "length d2 = length d"
    and vd: "\<forall>i < length d. d ! i = Some (e ^ (i + 1))" and ee: "ee = e * e"
  shows "\<exists>d2'. for_loop 0 m (leak_disc2_head (Some d)) (Some d2) = Inr (Some d2')
           \<and> length d2' = length d \<and> (\<forall>i < nat m. d2' ! i = Some (ee ^ (i + 1)))"
proof -
  let ?I = "\<lambda>j (p :: scratch option).
     \<exists>dd. p = Some dd \<and> length dd = length d \<and> (\<forall>i < nat j. dd ! i = Some (ee ^ (i + 1)))"
  have "\<exists>s'. for_loop 0 m (leak_disc2_head (Some d)) (Some d2) = Inr s' \<and> ?I (max 0 m) s'"
  proof (rule for_loop_total[where I = ?I])
    show "?I 0 (Some d2)" using l by simp
  next
    fix j p
    assume j: "0 \<le> j" "j < m" and inv: "?I j p"
    from inv obtain dd where p: "p = Some dd" and ld: "length dd = length d"
      and v: "\<forall>i < nat j. dd ! i = Some (ee ^ (i + 1))" by blast
    have i1: "0 \<le> 2 * j + 1" "2 * j + 1 < int (length d)" "nat (2 * j + 1) = 2 * nat j + 1"
      using j m by linarith+
    with vd have "d ! nat (2 * j + 1) = Some (e ^ (2 * nat j + 1 + 1))" by simp
    also have "e ^ (2 * nat j + 1 + 1) = ee ^ (nat j + 1)"
      by (simp add: ee power_mult_distrib[symmetric] power2_eq_square[symmetric] power_mult[symmetric])
    finally have r: "rdm ''disc'' d (2 * j + 1) = Inr (ee ^ (nat j + 1))"
      using i1 by (simp add: rdm_def)
    have lt: "nat j < length dd" "j < int (length dd)" using j m ld by linarith+
    have u: "\<forall>i < Suc (nat j). dd[nat j := Some (ee ^ (nat j + 1))] ! i = Some (ee ^ (i + 1))"
      using vals_upd[where v = "\<lambda>i. ee ^ (i + 1)" and xs = dd and j = "nat j"] v lt by simp
    have nj: "nat (j + 1) = Suc (nat j)" using j by linarith
    show "\<exists>s'. leak_disc2_head (Some d) j p = Inr s' \<and> ?I (j + 1) s'"
      using j lt ld u by (simp add: leak_disc2_head_def rdp_def wrp_def r p wrm_ok nj)
  qed
  then show ?thesis using m(1) by (auto simp: max_def)
qed

lemma leak_disc2_tail_ok:
  assumes m: "0 \<le> m" "m \<le> int (length d2)"
    and v: "\<forall>i < nat m. d2 ! i = Some (ee ^ (i + 1))"
  shows "\<exists>c d2'. for_loop m (int (length d2)) (leak_disc2_tail ee) (ee ^ nat m, Some d2)
             = Inr (c, Some d2')
           \<and> length d2' = length d2 \<and> (\<forall>i < length d2. d2' ! i = Some (ee ^ (i + 1)))"
proof -
  let ?I = "\<lambda>j (s :: real \<times> scratch option).
     \<exists>dd. s = (ee ^ nat j, Some dd) \<and> length dd = length d2
       \<and> (\<forall>i < nat j. dd ! i = Some (ee ^ (i + 1)))"
  have "\<exists>s'. for_loop m (int (length d2)) (leak_disc2_tail ee) (ee ^ nat m, Some d2) = Inr s'
          \<and> ?I (max m (int (length d2))) s'"
  proof (rule for_loop_total[where I = ?I])
    show "?I m (ee ^ nat m, Some d2)" using v by simp
  next
    fix j s
    assume j: "m \<le> j" "j < int (length d2)" and inv: "?I j s"
    from inv obtain dd where s: "s = (ee ^ nat j, Some dd)" and ld: "length dd = length d2"
      and vv: "\<forall>i < nat j. dd ! i = Some (ee ^ (i + 1))" by blast
    have lt: "nat j < length dd" "j < int (length dd)" "0 \<le> j" using j m ld by linarith+
    have u: "\<forall>i < Suc (nat j). dd[nat j := Some (ee ^ (nat j + 1))] ! i = Some (ee ^ (i + 1))"
      using vals_upd[where v = "\<lambda>i. ee ^ (i + 1)" and xs = dd and j = "nat j"] vv lt by simp
    have nj: "nat (j + 1) = Suc (nat j)" using lt by linarith
    show "\<exists>s'. leak_disc2_tail ee j s = Inr s' \<and> ?I (j + 1) s'"
      using lt ld u by (simp add: s wrp_def wrm_ok nj Let_def mult.commute)
  qed
  then show ?thesis using m by (auto simp: max_def)
qed

lemma floor_half_even:
  assumes "even (k_max :: int)"
  shows "\<lfloor>real_of_int (k_max - 1) / 2\<rfloor> = k_max div 2 - 1"
proof -
  have "\<lfloor>real_of_int (k_max - 1) / real_of_int 2\<rfloor> = (k_max - 1) div 2"
    by (rule floor_divide_of_int_eq)
  moreover have "(k_max - 1) div 2 = k_max div 2 - 1" using assms by presburger
  ultimately show ?thesis by simp
qed

text \<open>
  For an even \<open>k_max\<close> the forward pass of \<^verbatim>\<open>ddm_fpt_full_leak\<close> runs to its end and builds the
  cumulative statistics and the two discount sequences of the specification.
\<close>

lemma leak_cum_even:
  assumes ev: "even k_max" and k: "2 \<le> k_max"
    and len: "k_max \<le> int (length mu)" "k_max \<le> int (length sig2)"
  shows "\<exists>cm cs d d2.
           leak_cum mu sig2 inv_leak delta_t k_max (replicate (nat k_max) None)
             (replicate (nat k_max) None) (Some (replicate (nat k_max) None))
             (Some (replicate (nat k_max) None)) = Inr (cm, cs, Some d, Some d2)
           \<and> length cm = nat k_max \<and> length cs = nat k_max
           \<and> length d = nat k_max \<and> length d2 = nat k_max
           \<and> (\<forall>i < nat k_max. cm ! i = Some (cum_leak (exp (- delta_t * inv_leak)) delta_t mu i))
           \<and> (\<forall>i < nat k_max.
                 cs ! i = Some (cum_leak (exp (- 2 * delta_t * inv_leak)) delta_t sig2 i))
           \<and> (\<forall>i < nat k_max. d ! i = Some (exp (- delta_t * inv_leak) ^ (i + 1)))
           \<and> (\<forall>i < nat k_max. d2 ! i = Some (exp (- 2 * delta_t * inv_leak) ^ (i + 1)))"
proof -
  let ?N = "nat k_max"
  define e where "e = exp (- delta_t * inv_leak)"
  define ee where "ee = exp (- 2 * delta_t * inv_leak)"
  define m where "m = k_max div 2"
  have ee: "ee = e * e" unfolding e_def ee_def by (simp add: exp_add[symmetric])
  have m: "1 \<le> m" "2 * m = k_max" "0 \<le> m" using ev k unfolding m_def by presburger+
  have fl: "\<lfloor>real_of_int (k_max - 1) / 2\<rfloor> = m - 1" unfolding m_def using ev by (rule floor_half_even)
  have r0: "rd ''mu'' mu 0 = Inr (mu ! 0)" "rd ''sig2'' sig2 0 = Inr (sig2 ! 0)"
    using len k by (auto simp: rd_def)
  have N0: "0 < ?N" using k by simp
  obtain c1 cm c2 cs c3 d where
    loop: "for_loop 1 k_max (leak_cum_body mu sig2 delta_t e ee)
             (cum_leak e delta_t mu 0, (replicate ?N None)[0 := Some (cum_leak e delta_t mu 0)],
              cum_leak ee delta_t sig2 0, (replicate ?N None)[0 := Some (cum_leak ee delta_t sig2 0)],
              e, Some ((replicate ?N None)[0 := Some e])) = Inr (c1, cm, c2, cs, c3, Some d)"
    and l: "length cm = ?N" "length cs = ?N" "length d = ?N"
    and vcm: "\<forall>i < ?N. cm ! i = Some (cum_leak e delta_t mu i)"
    and vcs: "\<forall>i < ?N. cs ! i = Some (cum_leak ee delta_t sig2 i)"
    and vd: "\<forall>i < ?N. d ! i = Some (e ^ (i + 1))"
    using leak_cum_loop_ok[OF len, where cm = "(replicate ?N None)[0 := Some (cum_leak e delta_t mu 0)]"
        and cs = "(replicate ?N None)[0 := Some (cum_leak ee delta_t sig2 0)]"
        and d = "(replicate ?N None)[0 := Some e]" and e = e and ee = ee and delta_t = delta_t]
      k N0
    by auto
  obtain d2a where
    head: "for_loop 0 m (leak_disc2_head (Some d)) (Some (replicate ?N None)) = Inr (Some d2a)"
    and l2a: "length d2a = length d" and v2a: "\<forall>i < nat m. d2a ! i = Some (ee ^ (i + 1))"
    using leak_disc2_head_ok[where d = d and ?d2.0 = "replicate ?N None" and m = m and e = e and ee = ee]
      m l vd ee by auto
  have km: "nat (m - 1) < nat m" "nat (m - 1) + 1 = nat m" "0 \<le> m - 1" "m - 1 < int (length d2a)"
    using m l l2a by linarith+
  with v2a have "d2a ! nat (m - 1) = Some (ee ^ nat m)" by (metis)
  then have rk: "rdm ''disc2'' d2a (m - 1) = Inr (ee ^ nat m)"
    using km by (simp add: rdm_def)
  have N: "int (length d2a) = k_max" using l l2a k by simp
  obtain c d2 where
    tail: "for_loop m k_max (leak_disc2_tail ee) (ee ^ nat m, Some d2a) = Inr (c, Some d2)"
    and l2: "length d2 = length d2a" and v2: "\<forall>i < length d2a. d2 ! i = Some (ee ^ (i + 1))"
    using leak_disc2_tail_ok[where ?d2.0 = d2a and m = m and ee = ee] m v2a N by auto
  have fl': "\<lfloor>(real_of_int k_max - 1) / 2\<rfloor> = m - 1" using fl by simp
  have loop': "for_loop 1 k_max (leak_cum_body mu sig2 delta_t e ee)
             (delta_t * mu ! 0, (replicate ?N None)[0 := Some (delta_t * mu ! 0)],
              delta_t * sig2 ! 0, (replicate ?N None)[0 := Some (delta_t * sig2 ! 0)],
              e, Some ((replicate ?N None)[0 := Some e])) = Inr (c1, cm, c2, cs, c3, Some d)"
    using loop by simp
  have "leak_cum mu sig2 inv_leak delta_t k_max (replicate ?N None) (replicate ?N None)
          (Some (replicate ?N None)) (Some (replicate ?N None)) = Inr (cm, cs, Some d, Some d2)"
    unfolding leak_cum_def Let_def e_def[symmetric] ee_def[symmetric]
    using k N0
    by (simp add: r0 wrm_ok wrp_def loop' fl' head rdp_def rk tail)
  then show ?thesis
    using l l2 l2a vcm vcs vd v2 unfolding e_def ee_def by auto
qed

lemma full_cum_loop_ok:
  assumes len: "k_max \<le> int (length mu)" "k_max \<le> int (length sig2)" and k: "1 \<le> k_max"
    and l: "length cm = nat k_max" "length cs = nat k_max"
    and init: "cm ! 0 = Some (cum_leak 1 delta_t mu 0)" "cs ! 0 = Some (cum_leak 1 delta_t sig2 0)"
  shows "\<exists>c1 cm' c2 cs'.
           for_loop 1 k_max (full_cum_body mu sig2 delta_t)
             (cum_leak 1 delta_t mu 0, cm, cum_leak 1 delta_t sig2 0, cs) = Inr (c1, cm', c2, cs')
           \<and> length cm' = nat k_max \<and> length cs' = nat k_max
           \<and> (\<forall>i < nat k_max. cm' ! i = Some (cum_leak 1 delta_t mu i))
           \<and> (\<forall>i < nat k_max. cs' ! i = Some (cum_leak 1 delta_t sig2 i))"
proof -
  let ?N = "nat k_max"
  let ?I = "\<lambda>j (s :: real \<times> scratch \<times> real \<times> scratch).
     case s of (c1, a, c2, b) \<Rightarrow>
       length a = ?N \<and> length b = ?N
       \<and> c1 = cum_leak 1 delta_t mu (nat j - 1) \<and> c2 = cum_leak 1 delta_t sig2 (nat j - 1)
       \<and> (\<forall>i < nat j. a ! i = Some (cum_leak 1 delta_t mu i))
       \<and> (\<forall>i < nat j. b ! i = Some (cum_leak 1 delta_t sig2 i))"
  have "\<exists>s'. for_loop 1 k_max (full_cum_body mu sig2 delta_t)
             (cum_leak 1 delta_t mu 0, cm, cum_leak 1 delta_t sig2 0, cs) = Inr s'
           \<and> ?I (max 1 k_max) s'"
  proof (rule for_loop_total[where I = ?I])
    show "?I 1 (cum_leak 1 delta_t mu 0, cm, cum_leak 1 delta_t sig2 0, cs)"
      using l init by simp
  next
    fix j s
    assume j: "1 \<le> j" "j < k_max" and inv: "?I j s"
    obtain c1 a c2 b where s: "s = (c1, a, c2, b)" by (cases s)
    from inv have la: "length a = ?N" "length b = ?N"
      and c: "c1 = cum_leak 1 delta_t mu (nat j - 1)" "c2 = cum_leak 1 delta_t sig2 (nat j - 1)"
      and va: "\<forall>i < nat j. a ! i = Some (cum_leak 1 delta_t mu i)"
      and vb: "\<forall>i < nat j. b ! i = Some (cum_leak 1 delta_t sig2 i)"
      by (auto simp: s)
    have nj: "nat (j + 1) = Suc (nat j)" "0 < nat j" using j by linarith+
    have n1: "cum_leak 1 delta_t mu (nat j) = c1 + delta_t * mu ! nat j"
      and n2: "cum_leak 1 delta_t sig2 (nat j) = c2 + delta_t * sig2 ! nat j"
      unfolding c using cum_leak_step[OF nj(2), of 1] by simp_all
    have body: "full_cum_body mu sig2 delta_t j s =
        Inr (cum_leak 1 delta_t mu (nat j), a[nat j := Some (cum_leak 1 delta_t mu (nat j))],
             cum_leak 1 delta_t sig2 (nat j), b[nat j := Some (cum_leak 1 delta_t sig2 (nat j))])"
      using j len la by (simp add: s rd_ok wrm_ok Let_def n1 n2)
    have lt: "nat j < length a" "nat j < length b" using j la by linarith+
    have ua: "\<forall>i < Suc (nat j). a[nat j := Some (cum_leak 1 delta_t mu (nat j))] ! i
                = Some (cum_leak 1 delta_t mu i)"
      using vals_upd[where v = "cum_leak 1 delta_t mu" and xs = a and j = "nat j"] va lt by simp
    have ub: "\<forall>i < Suc (nat j). b[nat j := Some (cum_leak 1 delta_t sig2 (nat j))] ! i
                = Some (cum_leak 1 delta_t sig2 i)"
      using vals_upd[where v = "cum_leak 1 delta_t sig2" and xs = b and j = "nat j"] vb lt by simp
    show "\<exists>s'. full_cum_body mu sig2 delta_t j s = Inr s' \<and> ?I (j + 1) s'"
      using la ua ub by (simp add: body nj(1))
  qed
  then show ?thesis using k by (auto simp: max_def)
qed

text \<open>The forward pass of \<^verbatim>\<open>ddm_fpt_full\<close> builds the cumulative sums.\<close>

lemma full_cum_ok:
  assumes k: "1 \<le> k_max" and len: "k_max \<le> int (length mu)" "k_max \<le> int (length sig2)"
  shows "\<exists>cm cs.
           full_cum mu sig2 delta_t k_max (replicate (nat k_max) None) (replicate (nat k_max) None)
             = Inr (cm, cs)
           \<and> length cm = nat k_max \<and> length cs = nat k_max
           \<and> (\<forall>i < nat k_max. cm ! i = Some (cum_leak 1 delta_t mu i))
           \<and> (\<forall>i < nat k_max. cs ! i = Some (cum_leak 1 delta_t sig2 i))"
proof -
  let ?N = "nat k_max"
  have r0: "rd ''mu'' mu 0 = Inr (mu ! 0)" "rd ''sig2'' sig2 0 = Inr (sig2 ! 0)"
    using len k by (auto simp: rd_def)
  have N0: "0 < ?N" using k by simp
  obtain c1 cm c2 cs where
    loop: "for_loop 1 k_max (full_cum_body mu sig2 delta_t)
             (cum_leak 1 delta_t mu 0, (replicate ?N None)[0 := Some (cum_leak 1 delta_t mu 0)],
              cum_leak 1 delta_t sig2 0, (replicate ?N None)[0 := Some (cum_leak 1 delta_t sig2 0)])
           = Inr (c1, cm, c2, cs)"
    and l: "length cm = ?N" "length cs = ?N"
    and vcm: "\<forall>i < ?N. cm ! i = Some (cum_leak 1 delta_t mu i)"
    and vcs: "\<forall>i < ?N. cs ! i = Some (cum_leak 1 delta_t sig2 i)"
    using full_cum_loop_ok[OF len k, where cm = "(replicate ?N None)[0 := Some (cum_leak 1 delta_t mu 0)]"
        and cs = "(replicate ?N None)[0 := Some (cum_leak 1 delta_t sig2 0)]" and delta_t = delta_t]
      N0
    by auto
  have loop': "for_loop 1 k_max (full_cum_body mu sig2 delta_t)
             (delta_t * mu ! 0, (replicate ?N None)[0 := Some (delta_t * mu ! 0)],
              delta_t * sig2 ! 0, (replicate ?N None)[0 := Some (delta_t * sig2 ! 0)])
           = Inr (c1, cm, c2, cs)"
    using loop by simp
  have "full_cum mu sig2 delta_t k_max (replicate ?N None) (replicate ?N None) = Inr (cm, cs)"
    unfolding full_cum_def Let_def using k N0 by (simp add: r0 wrm_ok loop')
  then show ?thesis using l vcm vcs by auto
qed

lemma for_loop_cong:
  assumes "\<And>j s. i \<le> j \<Longrightarrow> j < n \<Longrightarrow> f j s = g j s"
  shows "for_loop i n f s = for_loop i n g s"
  using assms
proof (induction i n f s rule: for_loop.induct)
  case (1 i n body s)
  show ?case
  proof (cases "i < n")
    case False
    then show ?thesis by (simp add: for_loop_done)
  next
    case True
    have b: "body i s = g i s" using "1.prems" True by simp
    show ?thesis
    proof (cases "g i s")
      case (Inl e)
      with b True show ?thesis by (simp add: for_loop_step)
    next
      case (Inr t)
      with b have "for_loop (i + 1) n body t = for_loop (i + 1) n g t"
        using "1.IH"[OF True] "1.prems" by simp
      with b Inr True show ?thesis by (simp add: for_loop_step)
    qed
  qed
qed

lemma leak_inner_zero:
  assumes "0 \<le> j" "j < k" "k < int (length d)" "length d2 = length d"
    and "\<forall>i < length d. d ! i = Some 1" "\<forall>i < length d. d2 ! i = Some 1"
  shows "leak_inner_body b_lo b_up cm cs (Some d) (Some d2) g1 g2
           p1 p2 p3 p4 p5 p6 p7 p8 k j s
         = full_inner_body b_lo b_up cm cs g1 g2 p1 p2 p3 p4 p5 p6 p7 p8 j s"
proof -
  obtain a b where s: "s = (a, b)" by (cases s)
  have i: "0 \<le> k - j - 1" "k - j - 1 < int (length d)" "nat (k - j - 1) < length d"
    using assms(1-3) by linarith+
  with assms(4-6) have "rdm ''disc'' d (k - j - 1) = Inr 1" "rdm ''disc2'' d2 (k - j - 1) = Inr 1"
    by (simp_all add: rdm_def)
  then show ?thesis
    by (simp add: s rdp_def)
qed

lemma leak_fill_zero:
  assumes "0 \<le> k" "k < int (length d)" "length d2 = length d"
    and "\<forall>i < length d. d ! i = Some 1" "\<forall>i < length d. d2 ! i = Some 1"
  shows "leak_fill_body mu sig2 b_lo b_up b_lo_deriv b_up_deriv 0 cm cs (Some d) (Some d2) c1 c2 k s
         = full_fill_body mu sig2 b_lo b_up b_lo_deriv b_up_deriv cm cs c1 c2 k s"
proof -
  obtain g1 g2 where s: "s = (g1, g2)" by (cases s)
  have inner: "for_loop 0 k (leak_inner_body b_lo b_up cm cs (Some d) (Some d2) g1 g2
                  p1 p2 p3 p4 p5 p6 p7 p8 k) t
               = for_loop 0 k (full_inner_body b_lo b_up cm cs g1 g2 p1 p2 p3 p4 p5 p6 p7 p8) t"
    for p1 p2 p3 p4 p5 p6 p7 p8 t
    by (rule for_loop_cong) (use assms in \<open>simp add: leak_inner_zero\<close>)
  show ?thesis
    by (simp add: s inner)
qed

text \<open>
  With \<open>inv_leak = 0\<close> and an even \<open>k_max\<close>, \<^verbatim>\<open>ddm_fpt_full_leak\<close> does what \<^verbatim>\<open>ddm_fpt_full\<close>
  does: the same return value, the same \<open>g1\<close> and \<open>g2\<close>, or the same fault.
\<close>

lemma leak_zero_even:
  assumes ev: "even k_max" and k: "2 \<le> k_max"
    and len: "k_max \<le> int (length mu)" "k_max \<le> int (length sig2)"
  shows "ddm_fpt_full_leak True True True True mu sig2 b_lo b_up b_lo_deriv b_up_deriv
           0 delta_t k_max g1 g2
         = ddm_fpt_full True True mu sig2 b_lo b_up b_lo_deriv b_up_deriv delta_t k_max g1 g2"
proof -
  let ?N = "nat k_max"
  obtain cm cs d d2 where
    lc: "leak_cum mu sig2 0 delta_t k_max (replicate ?N None) (replicate ?N None)
           (Some (replicate ?N None)) (Some (replicate ?N None)) = Inr (cm, cs, Some d, Some d2)"
    and l: "length cm = ?N" "length cs = ?N" "length d = ?N" "length d2 = ?N"
    and vcm: "\<forall>i < ?N. cm ! i = Some (cum_leak (exp (- delta_t * 0)) delta_t mu i)"
    and vcs: "\<forall>i < ?N. cs ! i = Some (cum_leak (exp (- 2 * delta_t * 0)) delta_t sig2 i)"
    and vd: "\<forall>i < ?N. d ! i = Some (exp (- delta_t * 0) ^ (i + 1))"
    and vd2: "\<forall>i < ?N. d2 ! i = Some (exp (- 2 * delta_t * 0) ^ (i + 1))"
    using leak_cum_even[OF ev k len, of 0 delta_t] by blast
  obtain cm' cs' where
    fc: "full_cum mu sig2 delta_t k_max (replicate ?N None) (replicate ?N None) = Inr (cm', cs')"
    and l': "length cm' = ?N" "length cs' = ?N"
    and vcm': "\<forall>i < ?N. cm' ! i = Some (cum_leak 1 delta_t mu i)"
    and vcs': "\<forall>i < ?N. cs' ! i = Some (cum_leak 1 delta_t sig2 i)"
    using full_cum_ok[OF _ len, of delta_t] k by auto
  have "cm = cm'" using l l' vcm vcm' by (intro nth_equalityI) simp_all
  moreover have "cs = cs'" using l l' vcs vcs' by (intro nth_equalityI) simp_all
  ultimately have fc': "full_cum mu sig2 delta_t k_max (replicate ?N None) (replicate ?N None)
      = Inr (cm, cs)" using fc by simp
  have ones: "\<forall>i < length d. d ! i = Some 1" "\<forall>i < length d. d2 ! i = Some 1"
    using vd vd2 l by simp_all
  have fill: "for_loop 0 k_max
        (leak_fill_body mu sig2 b_lo b_up b_lo_deriv b_up_deriv 0 cm cs (Some d) (Some d2) c1 c2) s
      = for_loop 0 k_max (full_fill_body mu sig2 b_lo b_up b_lo_deriv b_up_deriv cm cs c1 c2) s"
    for c1 c2 s
    by (rule for_loop_cong) (use l ones in \<open>simp add: leak_fill_zero\<close>)
  show ?thesis
    by (simp add: ddm_fpt_full_leak_def ddm_fpt_full_def malloc_def allocated_def free_def
        Let_def lc fc' fill)
qed

subsection \<open>What mnorm does keep\<close>

lemma sum_list_update_real:
  fixes xs :: "real list"
  shows "k < length xs \<Longrightarrow> sum_list (xs[k := x]) = sum_list xs + x - xs ! k"
  by (induction xs arbitrary: k) (auto split: nat.split)

lemma clamp_round:
  fixes g :: "real list"
  assumes "0 \<le> j" "nat j < length g"
  shows "bnd (rd nm (map (max 0) (take (nat j) g) @ drop (nat j) g) j) (\<lambda>v.
           bnd (if v < 0
                then bnd (wr nm (map (max 0) (take (nat j) g) @ drop (nat j) g) j 0)
                       (\<lambda>g'. Inr (g', s))
                else Inr (map (max 0) (take (nat j) g) @ drop (nat j) g, s + v)) K)
         = K (map (max 0) (take (Suc (nat j)) g) @ drop (Suc (nat j)) g, s + max 0 (g ! nat j))"
proof -
  let ?xs = "map (max 0) (take (nat j) g) @ drop (nat j) g"
  have len: "j < int (length ?xs)" using assms by simp
  have nth: "?xs ! nat j = g ! nat j" using assms(2) by (simp add: nth_append)
  have upd: "?xs[nat j := max 0 (g ! nat j)]
             = map (max 0) (take (Suc (nat j)) g) @ drop (Suc (nat j)) g"
    using assms(2)
    by (simp add: take_Suc_conv_app_nth list_update_append Cons_nth_drop_Suc[symmetric])
  have r: "rd nm ?xs j = Inr (g ! nat j)" using assms(1) len nth by (simp add: rd_def)
  show ?thesis
  proof (cases "g ! nat j < 0")
    case True
    then have "max 0 (g ! nat j) = 0" by (simp add: max_def)
    with upd have "wr nm ?xs j 0 = Inr (map (max 0) (take (Suc (nat j)) g) @ drop (Suc (nat j)) g)"
      using assms(1) len by (simp add: wr_def)
    with True \<open>max 0 (g ! nat j) = 0\<close> show ?thesis by (simp add: r)
  next
    case False
    then have m: "max 0 (g ! nat j) = g ! nat j" by (simp add: max_def)
    have "?xs[nat j := ?xs ! nat j] = ?xs" by (rule list_update_id)
    with upd have e: "?xs = map (max 0) (take (Suc (nat j)) g) @ drop (Suc (nat j)) g"
      by (simp only: nth m)
    show ?thesis
      unfolding e[symmetric] m using False by (simp add: r)
  qed
qed

lemma mnorm_loop_ok:
  assumes n: "n \<le> int (length g1)" "n \<le> int (length g2)"
  shows "for_loop 0 n mnorm_body (g1, g2, 0, 0)
         = Inr (map (max 0) (take (nat n) g1) @ drop (nat n) g1,
                map (max 0) (take (nat n) g2) @ drop (nat n) g2,
                sum_list (map (max 0) (take (nat n) g1)),
                sum_list (map (max 0) (take (nat n) g2)))"
proof -
  let ?S = "\<lambda>j. (map (max 0) (take (nat j) g1) @ drop (nat j) g1,
                map (max 0) (take (nat j) g2) @ drop (nat j) g2,
                sum_list (map (max 0) (take (nat j) g1)),
                sum_list (map (max 0) (take (nat j) g2)))"
  let ?I = "\<lambda>j (s :: real list \<times> real list \<times> real \<times> real). s = ?S j"
  have "\<exists>s'. for_loop 0 n mnorm_body (g1, g2, 0, 0) = Inr s' \<and> ?I (max 0 n) s'"
  proof (rule for_loop_total[where I = ?I])
    show "?I 0 (g1, g2, 0, 0)" by simp
  next
    fix j s
    assume j: "0 \<le> j" "j < n" and inv: "?I j s"
    have nj: "nat (j + 1) = Suc (nat j)" using j by linarith
    have lt: "nat j < length g1" "nat j < length g2" using j n by linarith+
    have sum1: "sum_list (map (max 0) (take (Suc (nat j)) g)) =
                sum_list (map (max 0) (take (nat j) g)) + max 0 (g ! nat j)"
      if "nat j < length g" for g :: "real list"
      using that by (simp add: take_Suc_conv_app_nth)
    have "mnorm_body j s = Inr (?S (j + 1))"
      unfolding inv nj mnorm_body.simps
      by (simp only: clamp_round[OF j(1) lt(1)] clamp_round[OF j(1) lt(2)] prod.case
          sum1[OF lt(1)] sum1[OF lt(2)])
    then show "\<exists>s'. mnorm_body j s = Inr s' \<and> ?I (j + 1) s'" by simp
  qed
  then show ?thesis
    by (cases "0 \<le> n") (auto simp: max_def for_loop_done)
qed

text \<open>
  With \<open>n > 0\<close> elements, \<open>delta_t > 0\<close> and an input whose mass after zeroing the negative
  elements is not 0 (so that no division is by zero), \<^verbatim>\<open>mnorm\<close> returns arrays of total mass
  1 whose upper share is the one of the input after zeroing its negative elements.
\<close>

lemma mnorm_mass:
  assumes n: "0 < n" "int (length g1) = n" "int (length g2) = n" and dt: "0 < delta_t"
    and nz: "sum_list (map (max 0) g1) + sum_list (map (max 0) g2) \<noteq> 0"
  shows "\<exists>h1 h2. mnorm g1 g2 n delta_t = Inr (h1, h2)
           \<and> (sum_list h1 + sum_list h2) * delta_t = 1
           \<and> sum_list h1 / (sum_list h1 + sum_list h2)
               = sum_list (map (max 0) g1)
                 / (sum_list (map (max 0) g1) + sum_list (map (max 0) g2))"
proof -
  define c1 where "c1 = map (max 0) g1"
  define c2 where "c2 = map (max 0) g2"
  define p where "p = sum_list c1 / (sum_list c1 + sum_list c2)"
  define h1 where "h1 = c1[nat (n - 1) := c1 ! nat (n - 1) + (p / delta_t - sum_list c1)]"
  define h2 where "h2 = c2[nat (n - 1) := c2 ! nat (n - 1) + ((1 - p) / delta_t - sum_list c2)]"
  have l: "nat (n - 1) < length c1" "nat (n - 1) < length c2" "nat n = length g1" "nat n = length g2"
    using n by (auto simp: c1_def c2_def)
  have loop: "for_loop 0 n mnorm_body (g1, g2, 0, 0) = Inr (c1, c2, sum_list c1, sum_list c2)"
    using mnorm_loop_ok[of n g1 g2] n l by (simp add: c1_def c2_def)
  have li: "0 \<le> n - 1" "n - 1 < int (length c1)" "n - 1 < int (length c2)"
    using n by (simp_all add: c1_def c2_def)
  have acc: "rd ''g1'' c1 (n - 1) = Inr (c1 ! nat (n - 1))"
    "rd ''g2'' c2 (n - 1) = Inr (c2 ! nat (n - 1))"
    "\<And>v. wr ''g1'' c1 (n - 1) v = Inr (c1[nat (n - 1) := v])"
    "\<And>v. wr ''g2'' c2 (n - 1) v = Inr (c2[nat (n - 1) := v])"
    using li by (simp_all add: rd_def wr_def)
  have r: "mnorm g1 g2 n delta_t = Inr (h1, h2)"
    unfolding h1_def h2_def p_def
    by (simp add: mnorm_def loop Let_def acc)
  have s1: "sum_list h1 = p / delta_t"
    unfolding h1_def by (subst sum_list_update_real[OF l(1)]) simp
  have s2: "sum_list h2 = (1 - p) / delta_t"
    unfolding h2_def by (subst sum_list_update_real[OF l(2)]) simp
  have tot: "sum_list h1 + sum_list h2 = 1 / delta_t"
    unfolding s1 s2 by (simp add: add_divide_distrib[symmetric])
  have "(sum_list h1 + sum_list h2) * delta_t = 1" using dt by (simp add: tot)
  moreover have "sum_list h1 / (sum_list h1 + sum_list h2) = (p / delta_t) / (1 / delta_t)"
    by (simp only: tot) (simp only: s1)
  then have "sum_list h1 / (sum_list h1 + sum_list h2) = p"
    using dt by simp
  ultimately show ?thesis using r unfolding p_def c1_def c2_def by blast
qed

subsection \<open>The forward pass of ddm_fpt_full_leak on an odd number of steps\<close>

lemma for_loop_snoc:
  assumes "i \<le> n"
  shows "for_loop i (n + 1) body s = bnd (for_loop i n body s) (body n)"
  using assms
proof (induction i n body s rule: for_loop.induct)
  case (1 i n body s)
  show ?case
  proof (cases "i < n")
    case False
    with "1.prems" have "i = n" by simp
    then show ?thesis
      by (cases "body n s") (simp_all add: for_loop_step for_loop_done)
  next
    case True
    show ?thesis
    proof (cases "body i s")
      case (Inl e)
      with True show ?thesis by (simp add: for_loop_step)
    next
      case (Inr t)
      with "1.IH"[OF True Inr] True show ?thesis by (simp add: for_loop_step)
    qed
  qed
qed

lemma floor_half_odd:
  assumes "odd (k_max :: int)"
  shows "\<lfloor>real_of_int (k_max - 1) / 2\<rfloor> = (k_max - 1) div 2" "2 * ((k_max - 1) div 2) + 1 = k_max"
proof -
  have "\<lfloor>real_of_int (k_max - 1) / real_of_int 2\<rfloor> = (k_max - 1) div 2"
    by (rule floor_divide_of_int_eq)
  then show "\<lfloor>real_of_int (k_max - 1) / 2\<rfloor> = (k_max - 1) div 2" by simp
  show "2 * ((k_max - 1) div 2) + 1 = k_max" using assms by presburger
qed

text \<open>
  For an odd \<open>k_max\<close> the loop that fills the first half of \<open>disc2\<close> reads \<open>disc[k_max]\<close>.
\<close>

lemma leak_cum_odd:
  assumes od: "odd k_max" and k: "1 \<le> k_max"
    and len: "k_max \<le> int (length mu)" "k_max \<le> int (length sig2)"
  shows "leak_cum mu sig2 inv_leak delta_t k_max (replicate (nat k_max) None)
           (replicate (nat k_max) None) (Some (replicate (nat k_max) None))
           (Some (replicate (nat k_max) None)) = Inl (OutOfBounds ''disc'' k_max)"
proof -
  let ?N = "nat k_max"
  define e where "e = exp (- delta_t * inv_leak)"
  define ee where "ee = exp (- 2 * delta_t * inv_leak)"
  define m where "m = (k_max - 1) div 2"
  have ee: "ee = e * e" unfolding e_def ee_def by (simp add: exp_add[symmetric])
  have m: "0 \<le> m" "2 * m + 1 = k_max" using od k unfolding m_def by presburger+
  have fl: "\<lfloor>(real_of_int k_max - 1) / 2\<rfloor> = m"
    using floor_half_odd(1)[OF od] unfolding m_def by simp
  have r0: "rd ''mu'' mu 0 = Inr (mu ! 0)" "rd ''sig2'' sig2 0 = Inr (sig2 ! 0)"
    using len k by (auto simp: rd_def)
  have N0: "0 < ?N" using k by simp
  obtain c1 cm c2 cs c3 d where
    loop: "for_loop 1 k_max (leak_cum_body mu sig2 delta_t e ee)
             (cum_leak e delta_t mu 0, (replicate ?N None)[0 := Some (cum_leak e delta_t mu 0)],
              cum_leak ee delta_t sig2 0, (replicate ?N None)[0 := Some (cum_leak ee delta_t sig2 0)],
              e, Some ((replicate ?N None)[0 := Some e])) = Inr (c1, cm, c2, cs, c3, Some d)"
    and l: "length d = ?N"
    and vd: "\<forall>i < ?N. d ! i = Some (e ^ (i + 1))"
    using leak_cum_loop_ok[OF len k, where cm = "(replicate ?N None)[0 := Some (cum_leak e delta_t mu 0)]"
        and cs = "(replicate ?N None)[0 := Some (cum_leak ee delta_t sig2 0)]"
        and d = "(replicate ?N None)[0 := Some e]" and e = e and ee = ee and delta_t = delta_t]
      N0
    by auto
  have loop': "for_loop 1 k_max (leak_cum_body mu sig2 delta_t e ee)
             (delta_t * mu ! 0, (replicate ?N None)[0 := Some (delta_t * mu ! 0)],
              delta_t * sig2 ! 0, (replicate ?N None)[0 := Some (delta_t * sig2 ! 0)],
              e, Some ((replicate ?N None)[0 := Some e])) = Inr (c1, cm, c2, cs, c3, Some d)"
    using loop by simp
  obtain d2a where
    head: "for_loop 0 m (leak_disc2_head (Some d)) (Some (replicate ?N None)) = Inr (Some d2a)"
    using leak_disc2_head_ok[where d = d and ?d2.0 = "replicate ?N None" and m = m and e = e and ee = ee]
      m l vd ee by auto
  have "rdm ''disc'' d (2 * m + 1) = Inl (OutOfBounds ''disc'' k_max)"
    using m l by (simp add: rdm_def)
  then have last: "leak_disc2_head (Some d) m (Some d2a) = Inl (OutOfBounds ''disc'' k_max)"
    by (simp add: leak_disc2_head_def rdp_def)
  have "for_loop 0 (m + 1) (leak_disc2_head (Some d)) (Some (replicate ?N None))
          = Inl (OutOfBounds ''disc'' k_max)"
    using for_loop_snoc[OF m(1), of "leak_disc2_head (Some d)" "Some (replicate ?N None)"]
    by (simp add: head last)
  then show ?thesis
    unfolding leak_cum_def Let_def e_def[symmetric] ee_def[symmetric]
    using k N0
    by (simp add: r0 wrm_ok wrp_def loop' fl)
qed

text \<open>So does every call of \<^verbatim>\<open>ddm_fpt_full_leak\<close> with an odd \<open>k_max\<close> that passes the \<^verbatim>\<open>assert\<close>.\<close>

lemma ddm_fpt_full_leak_odd:
  assumes "odd k_max" "1 \<le> k_max" "0 \<le> inv_leak" "0 < delta_t"
    and "k_max \<le> int (length mu)" "k_max \<le> int (length sig2)"
  shows "ddm_fpt_full_leak True True True True mu sig2 b_lo b_up b_lo_deriv b_up_deriv
           inv_leak delta_t k_max g1 g2 = Inl (OutOfBounds ''disc'' k_max)"
  using assms(2-4)
  by (simp add: ddm_fpt_full_leak_def malloc_def allocated_def Let_def
      leak_cum_odd[OF assms(1,2,5,6)])

text \<open>The discounts of the even case, written with one exponential.\<close>

lemma discount_power:
  "exp (- delta_t * inv_leak) ^ (i + 1) = exp (- inv_leak * delta_t * (real i + 1))"
  "exp (- 2 * delta_t * inv_leak) ^ (i + 1) = exp (- 2 * inv_leak * delta_t * (real i + 1))"
proof -
  have "exp (- delta_t * inv_leak) ^ (i + 1) = exp (real (i + 1) * (- delta_t * inv_leak))"
    by (rule exp_of_nat_mult[symmetric])
  then show "exp (- delta_t * inv_leak) ^ (i + 1) = exp (- inv_leak * delta_t * (real i + 1))"
    by (simp add: algebra_simps)
  have "exp (- 2 * delta_t * inv_leak) ^ (i + 1) = exp (real (i + 1) * (- 2 * delta_t * inv_leak))"
    by (rule exp_of_nat_mult[symmetric])
  then show "exp (- 2 * delta_t * inv_leak) ^ (i + 1) = exp (- 2 * inv_leak * delta_t * (real i + 1))"
    by (simp add: algebra_simps)
qed

subsection \<open>Allocation failure in ddm_fpt_full_leak\<close>

text \<open>
  When \<open>cum_mu\<close> or \<open>cum_sig2\<close> is not obtained, the call returns -1, leaves \<open>g1\<close> and
  \<open>g2\<close> as they were and frees every block it obtained.
\<close>

lemma leak_checked_alloc_failure:
  assumes "0 \<le> inv_leak" "0 < delta_t" "0 < k_max" "\<not> (ok_cum_mu \<and> ok_cum_sig2)"
  shows "ddm_fpt_full_leak ok_cum_mu ok_cum_sig2 ok_disc ok_disc2
           mu sig2 b_lo b_up b_lo_deriv b_up_deriv inv_leak delta_t k_max g1 g2
         = Inr (- 1, g1, g2, 0)"
  using assms by (auto simp: ddm_fpt_full_leak_def malloc_def allocated_def free_def)

text \<open>
  When \<open>cum_mu\<close> and \<open>cum_sig2\<close> are obtained and \<open>disc\<close> is not, every call that passes the
  \<^verbatim>\<open>assert\<close> on non-empty schedules writes \<open>disc[0]\<close> through the null pointer.
\<close>

lemma leak_disc_null:
  assumes "0 \<le> inv_leak" "0 < delta_t" "0 < k_max" "mu \<noteq> []" "sig2 \<noteq> []"
  shows "ddm_fpt_full_leak True True False ok_disc2
           mu sig2 b_lo b_up b_lo_deriv b_up_deriv inv_leak delta_t k_max g1 g2
         = Inl (NullDeref ''disc'')"
  using assms by (simp add: ddm_fpt_full_leak_def leak_cum_def arr_defs)

text \<open>
  C1. The claim: if any of the four scratch allocations of \<^verbatim>\<open>ddm_fpt_full_leak\<close> fails, the
  call returns -1, leaves \<open>g1\<close> and \<open>g2\<close> untouched and frees the blocks it obtained. The
  code compares only \<open>cum_mu\<close> and \<open>cum_sig2\<close> with \<^verbatim>\<open>NULL\<close>: when \<open>disc\<close> (or \<open>disc2\<close>)
  is the allocation that fails, the call does not return -1 but writes through the null
  pointer.
\<close>

theorem leak_unchecked_alloc_failure:
  "ddm_fpt_full_leak True True False True
     [1, 1] [1, 1] [- 1, - 1] [1, 1] [0, 0] [0, 0] 1 1 2 [7, 7] [7, 7]
   = Inl (NullDeref ''disc'')
   \<and> ddm_fpt_full_leak True True True False
     [1, 1] [1, 1] [- 1, - 1] [1, 1] [0, 0] [0, 0] 1 1 2 [7, 7] [7, 7]
   = Inl (NullDeref ''disc2'')"
  by (simp add: ddm_fpt_full_leak_def leak_cum_def leak_disc2_head_def
      for_loop_step for_loop_done arr_defs)

subsection \<open>The double discount of ddm_fpt_full_leak\<close>

text \<open>
  C7. The claim: the forward pass of \<^verbatim>\<open>ddm_fpt_full_leak\<close> builds \<open>cum_mu\<close>, \<open>cum_sig2\<close>,
  \<open>disc[j] = exp(-lambda*delta_t*(j+1))\<close> and \<open>disc2[j] = exp(-2*lambda*delta_t*(j+1))\<close> for
  every \<open>j\<close> below \<open>k_max\<close>. This holds for an even \<open>k_max\<close> (\<open>leak_cum_even\<close>). For an odd
  \<open>k_max\<close> the loop that copies \<open>disc[2 * j + 1]\<close> into \<open>disc2[j]\<close> runs to
  \<open>j = (k_max - 1) / 2\<close> and reads \<open>disc[k_max]\<close>, one cell past the end of the block
  (\<open>leak_cum_odd\<close>): with \<open>k_max = 3\<close> the forward pass does not yield \<open>disc2\<close>.
\<close>

theorem leak_disc2_out_of_bounds:
  "leak_cum [1, 1, 1] [1, 1, 1] 0 1 3 [None, None, None] [None, None, None]
     (Some [None, None, None]) (Some [None, None, None])
   = Inl (OutOfBounds ''disc'' 3)"
  by (simp add: leak_cum_def leak_disc2_head_def for_loop_step for_loop_done arr_defs)

text \<open>
  C2. The claim: with \<open>inv_leak = 0\<close>, \<^verbatim>\<open>ddm_fpt_full_leak\<close> produces the arrays and the
  return value of \<^verbatim>\<open>ddm_fpt_full\<close> on every identical input with \<open>delta_t > 0\<close> and
  \<open>k_max > 0\<close>. This holds for an even \<open>k_max\<close> (\<open>leak_zero_even\<close>). With \<open>k_max = 3\<close>
  \<^verbatim>\<open>ddm_fpt_full\<close> returns 0, while \<^verbatim>\<open>ddm_fpt_full_leak\<close> reads \<open>disc[3]\<close> outside its block
  of three cells, as it does for every odd \<open>k_max\<close> (\<open>ddm_fpt_full_leak_odd\<close>).
\<close>

theorem leak_zero_diverges_from_full:
  "(\<exists>h1 h2. ddm_fpt_full True True
       [1, 1, 1] [1, 1, 1] [- 1, - 1, - 1] [1, 1, 1] [0, 0, 0] [0, 0, 0] 1 3 [7, 7, 7] [7, 7, 7]
     = Inr (0, h1, h2, 0))
   \<and> ddm_fpt_full_leak True True True True
       [1, 1, 1] [1, 1, 1] [- 1, - 1, - 1] [1, 1, 1] [0, 0, 0] [0, 0, 0] 0 1 3 [7, 7, 7] [7, 7, 7]
     = Inl (OutOfBounds ''disc'' 3)"
  by (simp add: ddm_fpt_full_def full_cum_def ddm_fpt_full_leak_def leak_cum_def
      leak_disc2_head_def for_loop_step for_loop_done arr_defs numeral_3_eq_3)

subsection \<open>The last elements after mnorm\<close>

text \<open>
  C6. The claim: after \<^verbatim>\<open>mnorm\<close> with \<open>n > 0\<close> and \<open>delta_t > 0\<close> the mass is 1, the ratio of
  the upper mass is the one of the clamped input, and every element is non-negative. The
  mass and the ratio are as claimed (\<open>mnorm_mass\<close>). When the clamped input holds more mass
  than 1, the correction added to the last elements is
  negative: with \<open>g1 = g2 = [0.6, 0]\<close> and \<open>delta_t = 1\<close> (mass 1.2) the call leaves
  \<open>g1[1] = g2[1] = -0.1\<close>.
\<close>

theorem mnorm_negative_element:
  "mnorm [3 / 5, 0] [3 / 5, 0] 2 1 = Inr ([3 / 5, - (1 / 10)], [3 / 5, - (1 / 10)])"
  by (simp add: mnorm_def for_loop_step for_loop_done arr_defs)

subsection \<open>The derivative of the bound\<close>

lemma ddm_fpt_one:
  assumes "0 < delta_t" "mu \<noteq> []"
  shows "ddm_fpt True True True True mu bound delta_t 1 g1 g2 = Inl (OutOfBounds ''bound_deriv'' (- 1))"
  using assms by (simp add: ddm_fpt_def fpt_cum_def for_loop_done arr_defs)

lemma ddm_fpt_const_mu_one:
  assumes "0 < mu" "0 < delta_t"
  shows "ddm_fpt_const_mu True True True mu bound delta_t 1 g1 g2 = Inl (OutOfBounds ''bound_deriv'' (- 1))"
  using assms by (simp add: ddm_fpt_const_mu_def const_mu_cum_def for_loop_done arr_defs)

lemma ddm_fpt_w_one:
  assumes "0 < delta_t" "mu \<noteq> []"
  shows "ddm_fpt_w True True True mu bound k delta_t 1 g1 g2 = Inl (OutOfBounds ''bound_deriv'' (- 1))"
  using assms by (simp add: ddm_fpt_w_def w_cum_def for_loop_done arr_defs)

lemma deriv_rule_reads:
  assumes "deriv_rule bound delta_t (nat k_max) bd" "2 \<le> k_max"
  shows "rdm nm bd (k_max - 1) = Inr ((bound ! nat (k_max - 1) - bound ! nat (k_max - 2)) / delta_t)
       \<and> rdm nm bd (k_max - 2) = Inr ((bound ! nat (k_max - 1) - bound ! nat (k_max - 2)) / delta_t)
       \<and> (\<forall>j. 0 \<le> j \<and> j < k_max - 1 \<longrightarrow>
            rdm nm bd j = Inr ((bound ! nat (j + 1) - bound ! nat j) / delta_t))"
proof -
  have n: "nat (k_max - 1) = nat k_max - 1" "nat (k_max - 2) = nat k_max - 2" by linarith+
  from assms(1) have l: "length bd = nat k_max"
    and a: "bd ! (nat k_max - 1) = Some ((bound ! (nat k_max - 1) - bound ! (nat k_max - 2)) / delta_t)"
    and b: "bd ! (nat k_max - 2) = Some ((bound ! (nat k_max - 1) - bound ! (nat k_max - 2)) / delta_t)"
    and c: "\<And>j. j + 1 < nat k_max \<Longrightarrow> bd ! j = Some ((bound ! (j + 1) - bound ! j) / delta_t)"
    by (simp_all add: deriv_rule_def)
  have "rdm nm bd j = Inr ((bound ! nat (j + 1) - bound ! nat j) / delta_t)"
    if "0 \<le> j" "j < k_max - 1" for j
  proof -
    have "nat j + 1 < nat k_max" "nat (j + 1) = nat j + 1" using that by linarith+
    with c[of "nat j"] that l show ?thesis by (simp add: rdm_def)
  qed
  moreover have "rdm nm bd (k_max - 1) = Inr ((bound ! nat (k_max - 1) - bound ! nat (k_max - 2)) / delta_t)"
    using assms(2) l a by (simp add: rdm_def n)
  moreover have "rdm nm bd (k_max - 2) = Inr ((bound ! nat (k_max - 1) - bound ! nat (k_max - 2)) / delta_t)"
    using assms(2) l b by (simp add: rdm_def n)
  ultimately show ?thesis by blast
qed

text \<open>
  C9. In \<^verbatim>\<open>ddm_fpt\<close>, \<^verbatim>\<open>ddm_fpt_const_mu\<close> and \<^verbatim>\<open>ddm_fpt_w\<close>, for \<open>k_max \<ge> 2\<close> and arrays of
  \<open>k_max\<close> elements, the forward pass over freshly allocated blocks succeeds and leaves
  \<open>bound_deriv[k_max-1] = bound_deriv[k_max-2] = (bound[k_max-1] - bound[k_max-2]) / delta_t\<close>
  and \<open>bound_deriv[j] = (bound[j+1] - bound[j]) / delta_t\<close> for every \<open>j < k_max - 1\<close>.
\<close>

theorem last_deriv_rule:
  assumes "2 \<le> k_max" "k_max \<le> int (length mu)" "k_max \<le> int (length bound)"
  shows "(\<exists>cum_mu bound_deriv norm_sqrt_t norm_t.
            fpt_cum mu bound delta_t k_max (replicate (nat k_max) None) (replicate (nat k_max) None)
              (replicate (nat k_max) None) (replicate (nat k_max) None)
              = Inr (cum_mu, bound_deriv, norm_sqrt_t, norm_t)
            \<and> rdm ''bound_deriv'' bound_deriv (k_max - 1)
                = Inr ((bound ! nat (k_max - 1) - bound ! nat (k_max - 2)) / delta_t)
            \<and> rdm ''bound_deriv'' bound_deriv (k_max - 2)
                = Inr ((bound ! nat (k_max - 1) - bound ! nat (k_max - 2)) / delta_t)
            \<and> (\<forall>j. 0 \<le> j \<and> j < k_max - 1 \<longrightarrow>
                  rdm ''bound_deriv'' bound_deriv j
                    = Inr ((bound ! nat (j + 1) - bound ! nat j) / delta_t)))
       \<and> (\<exists>bound_deriv norm_sqrt_t norm_t.
            const_mu_cum bound delta_t k_max (replicate (nat k_max) None)
              (replicate (nat k_max) None) (replicate (nat k_max) None)
              = Inr (bound_deriv, norm_sqrt_t, norm_t)
            \<and> rdm ''bound_deriv'' bound_deriv (k_max - 1)
                = Inr ((bound ! nat (k_max - 1) - bound ! nat (k_max - 2)) / delta_t)
            \<and> rdm ''bound_deriv'' bound_deriv (k_max - 2)
                = Inr ((bound ! nat (k_max - 1) - bound ! nat (k_max - 2)) / delta_t)
            \<and> (\<forall>j. 0 \<le> j \<and> j < k_max - 1 \<longrightarrow>
                  rdm ''bound_deriv'' bound_deriv j
                    = Inr ((bound ! nat (j + 1) - bound ! nat j) / delta_t)))
       \<and> (\<exists>a2 A bound_deriv.
            w_cum mu bound delta_t k_max (replicate (nat k_max) None)
              (replicate (nat k_max) None) (replicate (nat k_max) None)
              = Inr (a2, A, bound_deriv)
            \<and> rdm ''bound_deriv'' bound_deriv (k_max - 1)
                = Inr ((bound ! nat (k_max - 1) - bound ! nat (k_max - 2)) / delta_t)
            \<and> rdm ''bound_deriv'' bound_deriv (k_max - 2)
                = Inr ((bound ! nat (k_max - 1) - bound ! nat (k_max - 2)) / delta_t)
            \<and> (\<forall>j. 0 \<le> j \<and> j < k_max - 1 \<longrightarrow>
                  rdm ''bound_deriv'' bound_deriv j
                    = Inr ((bound ! nat (j + 1) - bound ! nat j) / delta_t)))"
proof (intro conjI)
  from fpt_cum_ok[OF assms(2,3,1), of delta_t] obtain cm bd ns nt where
    "fpt_cum mu bound delta_t k_max (replicate (nat k_max) None) (replicate (nat k_max) None)
       (replicate (nat k_max) None) (replicate (nat k_max) None) = Inr (cm, bd, ns, nt)"
    "deriv_rule bound delta_t (nat k_max) bd"
    by blast
  then show "\<exists>cum_mu bound_deriv norm_sqrt_t norm_t.
            fpt_cum mu bound delta_t k_max (replicate (nat k_max) None) (replicate (nat k_max) None)
              (replicate (nat k_max) None) (replicate (nat k_max) None)
              = Inr (cum_mu, bound_deriv, norm_sqrt_t, norm_t)
            \<and> rdm ''bound_deriv'' bound_deriv (k_max - 1)
                = Inr ((bound ! nat (k_max - 1) - bound ! nat (k_max - 2)) / delta_t)
            \<and> rdm ''bound_deriv'' bound_deriv (k_max - 2)
                = Inr ((bound ! nat (k_max - 1) - bound ! nat (k_max - 2)) / delta_t)
            \<and> (\<forall>j. 0 \<le> j \<and> j < k_max - 1 \<longrightarrow>
                  rdm ''bound_deriv'' bound_deriv j
                    = Inr ((bound ! nat (j + 1) - bound ! nat j) / delta_t))"
    using deriv_rule_reads[OF _ assms(1), of bound delta_t bd "''bound_deriv''"] by blast
next
  from const_mu_cum_ok[OF assms(3,1), of delta_t] obtain bd ns nt where
    "const_mu_cum bound delta_t k_max (replicate (nat k_max) None)
       (replicate (nat k_max) None) (replicate (nat k_max) None) = Inr (bd, ns, nt)"
    "deriv_rule bound delta_t (nat k_max) bd"
    by blast
  then show "\<exists>bound_deriv norm_sqrt_t norm_t.
            const_mu_cum bound delta_t k_max (replicate (nat k_max) None)
              (replicate (nat k_max) None) (replicate (nat k_max) None)
              = Inr (bound_deriv, norm_sqrt_t, norm_t)
            \<and> rdm ''bound_deriv'' bound_deriv (k_max - 1)
                = Inr ((bound ! nat (k_max - 1) - bound ! nat (k_max - 2)) / delta_t)
            \<and> rdm ''bound_deriv'' bound_deriv (k_max - 2)
                = Inr ((bound ! nat (k_max - 1) - bound ! nat (k_max - 2)) / delta_t)
            \<and> (\<forall>j. 0 \<le> j \<and> j < k_max - 1 \<longrightarrow>
                  rdm ''bound_deriv'' bound_deriv j
                    = Inr ((bound ! nat (j + 1) - bound ! nat j) / delta_t))"
    using deriv_rule_reads[OF _ assms(1), of bound delta_t bd "''bound_deriv''"] by blast
next
  from w_cum_ok[OF assms(2,3,1), of delta_t] obtain a2 A bd where
    "w_cum mu bound delta_t k_max (replicate (nat k_max) None)
       (replicate (nat k_max) None) (replicate (nat k_max) None) = Inr (a2, A, bd)"
    "deriv_rule bound delta_t (nat k_max) bd"
    by blast
  then show "\<exists>a2 A bound_deriv.
            w_cum mu bound delta_t k_max (replicate (nat k_max) None)
              (replicate (nat k_max) None) (replicate (nat k_max) None)
              = Inr (a2, A, bound_deriv)
            \<and> rdm ''bound_deriv'' bound_deriv (k_max - 1)
                = Inr ((bound ! nat (k_max - 1) - bound ! nat (k_max - 2)) / delta_t)
            \<and> rdm ''bound_deriv'' bound_deriv (k_max - 2)
                = Inr ((bound ! nat (k_max - 1) - bound ! nat (k_max - 2)) / delta_t)
            \<and> (\<forall>j. 0 \<le> j \<and> j < k_max - 1 \<longrightarrow>
                  rdm ''bound_deriv'' bound_deriv j
                    = Inr ((bound ! nat (j + 1) - bound ! nat j) / delta_t))"
    using deriv_rule_reads[OF _ assms(1), of bound delta_t bd "''bound_deriv''"] by blast
qed

theorem last_deriv_rule_witness:
  "\<exists>cum_mu bound_deriv norm_sqrt_t norm_t.
      fpt_cum [1, 2, 3] [5, 4, 2] (1 / 2) 3 [None, None, None] [None, None, None]
        [None, None, None] [None, None, None] = Inr (cum_mu, bound_deriv, norm_sqrt_t, norm_t)
      \<and> rdm ''bound_deriv'' bound_deriv 0 = Inr (- 2)
      \<and> rdm ''bound_deriv'' bound_deriv 1 = Inr (- 4)
      \<and> rdm ''bound_deriv'' bound_deriv 2 = Inr (- 4)"
proof -
  have h: "(2::int) \<le> 3" "(3::int) \<le> int (length [1, 2, 3 :: real])"
    "(3::int) \<le> int (length [5, 4, 2 :: real])" by simp_all
  from last_deriv_rule[OF h, of "1 / 2"] obtain cm bd ns nt where
    r: "fpt_cum [1, 2, 3] [5, 4, 2] (1 / 2) 3 (replicate (nat 3) None) (replicate (nat 3) None)
          (replicate (nat 3) None) (replicate (nat 3) None) = Inr (cm, bd, ns, nt)"
    and a: "rdm ''bound_deriv'' bd (3 - 1) = Inr (([5, 4, 2] ! nat (3 - 1) - [5, 4, 2] ! nat (3 - 2)) / (1 / 2))"
    and c: "\<forall>j. 0 \<le> j \<and> j < 3 - 1 \<longrightarrow>
                  rdm ''bound_deriv'' bd j = Inr (([5, 4, 2] ! nat (j + 1) - [5, 4, 2] ! nat j) / (1 / 2))"
    by blast
  from c have "rdm ''bound_deriv'' bd 0 = Inr (- 2)" "rdm ''bound_deriv'' bd 1 = Inr (- 4)"
    by (simp_all add: numeral_2_eq_2)
  moreover from a have "rdm ''bound_deriv'' bd 2 = Inr (- 4)" by (simp add: numeral_2_eq_2)
  ultimately show ?thesis using r by (simp add: numeral_3_eq_3)
qed

text \<open>
  C10. In \<^verbatim>\<open>ddm_fpt\<close>, \<^verbatim>\<open>ddm_fpt_const_mu\<close> and \<^verbatim>\<open>ddm_fpt_w\<close> the accesses to \<open>bound_deriv\<close>
  stay within the block only under \<open>k_max \<ge> 2\<close>: on inputs that satisfy the \<^verbatim>\<open>assert\<close>,
  with arrays of \<open>k_max\<close> elements and all allocations granted, the call with \<open>k_max = 1\<close>
  reads \<open>bound_deriv[-1]\<close>, and every call with \<open>k_max \<ge> 2\<close> runs to the end without a
  fault.
\<close>

theorem bound_deriv_access:
  assumes "0 < delta_t" "0 < mu_c" "0 < k_max"
    and "k_max \<le> int (length mu)" "k_max \<le> int (length bound)"
    and "k_max \<le> int (length g1)" "k_max \<le> int (length g2)"
  shows "(k_max = 1 \<longrightarrow>
            ddm_fpt True True True True mu bound delta_t k_max g1 g2
              = Inl (OutOfBounds ''bound_deriv'' (- 1))
          \<and> ddm_fpt_const_mu True True True mu_c bound delta_t k_max g1 g2
              = Inl (OutOfBounds ''bound_deriv'' (- 1))
          \<and> ddm_fpt_w True True True mu bound k delta_t k_max g1 g2
              = Inl (OutOfBounds ''bound_deriv'' (- 1)))
       \<and> (2 \<le> k_max \<longrightarrow>
            (\<exists>h1 h2. ddm_fpt True True True True mu bound delta_t k_max g1 g2
                       = Inr (0, h1, h2, 0))
          \<and> (\<exists>h1 h2. ddm_fpt_const_mu True True True mu_c bound delta_t k_max g1 g2
                       = Inr (0, h1, h2, 0))
          \<and> (\<exists>h1 h2. ddm_fpt_w True True True mu bound k delta_t k_max g1 g2
                       = Inr (0, h1, h2, 0)))"
proof (intro conjI impI)
  assume "k_max = 1"
  with assms(4) have "mu \<noteq> []" by auto
  with \<open>k_max = 1\<close> assms(1,2)
  show "ddm_fpt True True True True mu bound delta_t k_max g1 g2
          = Inl (OutOfBounds ''bound_deriv'' (- 1))"
    and "ddm_fpt_const_mu True True True mu_c bound delta_t k_max g1 g2
          = Inl (OutOfBounds ''bound_deriv'' (- 1))"
    and "ddm_fpt_w True True True mu bound k delta_t k_max g1 g2
          = Inl (OutOfBounds ''bound_deriv'' (- 1))"
    by (simp_all add: ddm_fpt_one ddm_fpt_const_mu_one ddm_fpt_w_one)
next
  assume k: "2 \<le> k_max"
  show "\<exists>h1 h2. ddm_fpt True True True True mu bound delta_t k_max g1 g2 = Inr (0, h1, h2, 0)"
    using assms(1) k assms(4-7) by (rule ddm_fpt_ok)
  show "\<exists>h1 h2. ddm_fpt_const_mu True True True mu_c bound delta_t k_max g1 g2 = Inr (0, h1, h2, 0)"
    using assms(2,1) k assms(5-7) by (rule ddm_fpt_const_mu_ok)
  show "\<exists>h1 h2. ddm_fpt_w True True True mu bound k delta_t k_max g1 g2 = Inr (0, h1, h2, 0)"
    using assms(1) k assms(4-7) by (rule ddm_fpt_w_ok)
qed

theorem bound_deriv_access_witness:
  "ddm_fpt True True True True [1] [1] 1 1 [0] [0] = Inl (OutOfBounds ''bound_deriv'' (- 1))
   \<and> ddm_fpt_const_mu True True True 1 [1] 1 1 [0] [0] = Inl (OutOfBounds ''bound_deriv'' (- 1))
   \<and> ddm_fpt_w True True True [1] [1] 1 1 1 [0] [0] = Inl (OutOfBounds ''bound_deriv'' (- 1))
   \<and> (\<exists>h1 h2. ddm_fpt True True True True [1, 1] [1, 1] 1 2 [0, 0] [0, 0] = Inr (0, h1, h2, 0))
   \<and> (\<exists>h1 h2. ddm_fpt_const_mu True True True 1 [1, 1] 1 2 [0, 0] [0, 0] = Inr (0, h1, h2, 0))
   \<and> (\<exists>h1 h2. ddm_fpt_w True True True [1, 1] [1, 1] 1 1 2 [0, 0] [0, 0] = Inr (0, h1, h2, 0))"
proof -
  have "ddm_fpt True True True True [1] [1] 1 1 [0] [0] = Inl (OutOfBounds ''bound_deriv'' (- 1))
   \<and> ddm_fpt_const_mu True True True 1 [1] 1 1 [0] [0] = Inl (OutOfBounds ''bound_deriv'' (- 1))
   \<and> ddm_fpt_w True True True [1] [1] 1 1 1 [0] [0] = Inl (OutOfBounds ''bound_deriv'' (- 1))"
    using bound_deriv_access[of 1 1 1 "[1]" "[1]" "[0]" "[0]" 1] by simp
  moreover have "(\<exists>h1 h2. ddm_fpt True True True True [1, 1] [1, 1] 1 2 [0, 0] [0, 0] = Inr (0, h1, h2, 0))
   \<and> (\<exists>h1 h2. ddm_fpt_const_mu True True True 1 [1, 1] 1 2 [0, 0] [0, 0] = Inr (0, h1, h2, 0))
   \<and> (\<exists>h1 h2. ddm_fpt_w True True True [1, 1] [1, 1] 1 1 2 [0, 0] [0, 0] = Inr (0, h1, h2, 0))"
    using bound_deriv_access[of 1 1 2 "[1, 1]" "[1, 1]" "[0, 0]" "[0, 0]" 1] by simp
  ultimately show ?thesis by blast
qed

subsection \<open>The series at time zero\<close>

text \<open>
  C5. For every \<open>w\<close> and every \<open>tol\<close>, \<^verbatim>\<open>fpt_asymfastseries(0, w, tol)\<close> returns exactly 0,
  and \<^verbatim>\<open>fpt_symfastseries(0, tol)\<close> returns exactly 0 (whatever the range of \<^verbatim>\<open>int\<close>).
\<close>

theorem fastseries_at_zero:
  "fpt_asymfastseries imax 0 w tol = Inr 0 \<and> fpt_symfastseries imax 0 tol = Inr 0"
  by (simp add: fpt_asymfastseries_def fpt_symfastseries_def)

subsection \<open>The series loops\<close>









lemma symseries_loop_returns:
  assumes stop: "real_of_int K * exp (- real_of_int (K * K) * a) < tol"
    and "twok \<le> K" "even (K - twok)" "0 \<le> twok" "K \<le> imax" "K * K \<le> imax"
  shows "\<exists>y. symseries_loop imax a b tol twok f = Inr y"
  using assms(2-)
proof (induction "nat (K - twok)" arbitrary: twok f rule: less_induct)
  case less
  have sq: "m * m \<le> imax" if "0 \<le> m" "m \<le> K" for m
  proof -
    have "m * m \<le> K * K" using that by (intro mult_mono) auto
    with less.prems show ?thesis by linarith
  qed
  show ?case
  proof (cases "twok = K")
    case True
    with stop sq[of K] less.prems show ?thesis
      by (subst symseries_loop.simps) (simp add: Let_def)
  next
    case False
    with less.prems have lt2: "twok + 2 \<le> K" by presburger
    show ?thesis
    proof (cases "twok + 2 = K")
      case True
      with stop sq[of twok] sq[of K] less.prems lt2 show ?thesis
        by (subst symseries_loop.simps) (auto simp: Let_def)
    next
      case False
      with less.prems lt2 have lt4: "twok + 2 + 2 \<le> K" by presburger
      have IH: "\<exists>y. symseries_loop imax a b tol (4 + twok) f' = Inr y" for f'
        using less.hyps[of "4 + twok" f'] less.prems lt4 by simp
      from sq[of twok] sq[of "twok + 2"] less.prems lt4 show ?thesis
        by (subst symseries_loop.simps) (auto simp: Let_def IH)
    qed
  qed
qed











subsection \<open>The constant-drift solver on one grid point\<close>

lemma exp_neg_le_half_power:
  assumes "real n \<le> x"
  shows "exp (- x) \<le> (1 / 2) ^ n"
proof -
  have "2 \<le> exp (1::real)" using exp_ge_add_one_self[of "1::real"] by simp
  then have "exp (- 1 :: real) \<le> 1 / 2" by (simp add: exp_minus' field_simps)
  then have "exp (- 1 :: real) ^ n \<le> (1 / 2) ^ n" by (intro power_mono) simp_all
  moreover have "exp (- real n) = exp (- 1 :: real) ^ n"
    using exp_of_nat_mult[of n "- 1 :: real"] by simp
  moreover have "exp (- x) \<le> exp (- real n)" using assms by simp
  ultimately show ?thesis by linarith
qed

lemma symseries_stop_41:
  assumes "210 \<le> 1681 * a" and "41 * (1 / 2) ^ 210 < tol"
  shows "real_of_int 41 * exp (- real_of_int (41 * 41) * a) < tol"
proof -
  have "exp (- (1681 * a)) \<le> (1 / 2) ^ 210"
    using assms(1) by (intro exp_neg_le_half_power) simp
  then have "41 * exp (- (1681 * a)) \<le> 41 * (1 / 2) ^ 210" by simp
  with assms(2) have "41 * exp (- (1681 * a)) < tol" by linarith
  then show ?thesis by simp
qed

lemma fpt_symseries_returns_41:
  assumes "210 \<le> 1681 * a" and "41 * (1 / 2) ^ 210 < tol * b"
  shows "\<exists>y. fpt_symseries 2147483647 t a b tol = Inr y"
  unfolding fpt_symseries_def Let_def
  by (rule symseries_loop_returns[where K = 41, OF symseries_stop_41[OF assms]]) simp_all

lemma fpt_symfastseries_one:
  "\<exists>y. fpt_symfastseries 2147483647 1 SERIES_ACC = Inr y"
proof -
  have "sqrt (8 * pi) \<le> 6"
    using pi_less_4 by (intro real_le_lsqrt) simp_all
  moreover have "0 < sqrt (8 * pi)" by simp
  ultimately have "1 / 6 \<le> 1 / sqrt (8 * pi)" by (simp add: field_simps)
  then have "SERIES_ACC * (1 / 6) \<le> SERIES_ACC * (1 / sqrt (8 * pi))"
    by (intro mult_left_mono) (simp_all add: SERIES_ACC_def)
  moreover have "41 * (1 / 2) ^ 210 < SERIES_ACC * (1 / 6)" by (simp add: SERIES_ACC_def power_one_over)
  ultimately have "41 * (1 / 2) ^ 210 < SERIES_ACC * (1 / sqrt (8 * pi))"
    by linarith
  moreover have "SERIES_ACC * (1 / sqrt (8 * PI * pow 1 3)) = SERIES_ACC * (1 / sqrt (8 * pi))"
    by (simp add: PI_def pow_def)
  ultimately have short_tol: "41 * (1 / 2) ^ 210 < SERIES_ACC * (1 / sqrt (8 * PI * pow 1 3))"
    by (simp only:)
  have short: "\<exists>y. fpt_symseries 2147483647 1 (1 / (8 * 1)) (1 / sqrt (8 * PI * pow 1 3)) SERIES_ACC = Inr y"
    by (rule fpt_symseries_returns_41[OF _ short_tol]) simp
  have "2 * 2 \<le> pi * pi" using pi_ge_two by (intro mult_mono) simp_all
  then have long_a: "210 \<le> 1681 * (1 * PISQR / 2)" by (simp add: PISQR_def PI_def)
  have "SERIES_ACC * 2 \<le> SERIES_ACC * PI"
    using pi_ge_two by (intro mult_left_mono) (simp_all add: SERIES_ACC_def PI_def)
  moreover have "41 * (1 / 2) ^ 210 < SERIES_ACC * 2" by (simp add: SERIES_ACC_def power_one_over)
  ultimately have long_tol: "41 * (1 / 2) ^ 210 < SERIES_ACC * PI" by linarith
  have long: "\<exists>y. fpt_symseries 2147483647 1 (1 * PISQR / 2) PI SERIES_ACC = Inr y"
    by (rule fpt_symseries_returns_41[OF long_a long_tol])
  show ?thesis
    unfolding fpt_symfastseries_def using short long by simp
qed

lemma ddm_fpt_const_one:
  "\<exists>h1 h2. ddm_fpt_const 2147483647 1 (1 / 2) 1 1 [- 5] [- 5] = Inr (h1, h2)"
proof -
  from fpt_symfastseries_one obtain y where "fpt_symfastseries 2147483647 1 SERIES_ACC = Inr y"
    by blast
  then show ?thesis
    by (simp add: ddm_fpt_const_def fpt_symup_def for_loop_step for_loop_done arr_defs)
qed

subsection \<open>Outputs of the solvers\<close>

text \<open>
  C4. After a successful call of \<^verbatim>\<open>ddm_fpt_full\<close>, \<^verbatim>\<open>ddm_fpt_full_leak\<close>, \<^verbatim>\<open>ddm_fpt\<close>,
  \<^verbatim>\<open>ddm_fpt_const_mu\<close>, \<^verbatim>\<open>ddm_fpt_const\<close> or \<^verbatim>\<open>ddm_fpt_w\<close> (return value 0; \<^verbatim>\<open>ddm_fpt_const\<close>
  returns nothing), each of the \<open>k_max\<close> elements of \<open>g1\<close> and of \<open>g2\<close> is at least 0.
\<close>

theorem outputs_nonneg:
  "(ddm_fpt_full ok1 ok2 mu sig2 b_lo b_up b_lo_deriv b_up_deriv delta_t k_max g1 g2
      = Inr (0, h1, h2, live)
    \<longrightarrow> (\<forall>n < nat k_max. 0 \<le> h1 ! n \<and> 0 \<le> h2 ! n))
   \<and> (ddm_fpt_full_leak ok1 ok2 ok3 ok4 mu sig2 b_lo b_up b_lo_deriv b_up_deriv
        inv_leak delta_t k_max g1 g2 = Inr (0, h1, h2, live)
    \<longrightarrow> (\<forall>n < nat k_max. 0 \<le> h1 ! n \<and> 0 \<le> h2 ! n))
   \<and> (ddm_fpt ok1 ok2 ok3 ok4 mu bound delta_t k_max g1 g2 = Inr (0, h1, h2, live)
    \<longrightarrow> (\<forall>n < nat k_max. 0 \<le> h1 ! n \<and> 0 \<le> h2 ! n))
   \<and> (ddm_fpt_const_mu ok1 ok2 ok3 mu_c bound delta_t k_max g1 g2 = Inr (0, h1, h2, live)
    \<longrightarrow> (\<forall>n < nat k_max. 0 \<le> h1 ! n \<and> 0 \<le> h2 ! n))
   \<and> (ddm_fpt_const imax mu_c bound_c delta_t k_max g1 g2 = Inr (h1, h2)
    \<longrightarrow> (\<forall>n < nat k_max. 0 \<le> h1 ! n \<and> 0 \<le> h2 ! n))
   \<and> (ddm_fpt_w ok1 ok2 ok3 mu bound k delta_t k_max g1 g2 = Inr (0, h1, h2, live)
    \<longrightarrow> (\<forall>n < nat k_max. 0 \<le> h1 ! n \<and> 0 \<le> h2 ! n))"
  using ddm_fpt_full_nonneg ddm_fpt_full_leak_nonneg ddm_fpt_nonneg ddm_fpt_const_mu_nonneg
    ddm_fpt_const_nonneg ddm_fpt_w_nonneg
  by (intro conjI impI) blast+

theorem outputs_nonneg_witness:
  "(\<exists>h1 h2. ddm_fpt_full True True [1, 1] [1, 1] [- 1, - 1] [1, 1] [0, 0] [0, 0] 1 2
        [- 5, - 5] [- 5, - 5] = Inr (0, h1, h2, 0)
      \<and> (\<forall>n < 2. 0 \<le> h1 ! n \<and> 0 \<le> h2 ! n))
   \<and> (\<exists>h1 h2. ddm_fpt_full_leak True True True True [1, 1] [1, 1] [- 1, - 1] [1, 1] [0, 0] [0, 0]
        (1 / 2) 1 2 [- 5, - 5] [- 5, - 5] = Inr (0, h1, h2, 0)
      \<and> (\<forall>n < 2. 0 \<le> h1 ! n \<and> 0 \<le> h2 ! n))
   \<and> (\<exists>h1 h2. ddm_fpt True True True True [1, 1] [1, 1] 1 2 [- 5, - 5] [- 5, - 5]
        = Inr (0, h1, h2, 0)
      \<and> (\<forall>n < 2. 0 \<le> h1 ! n \<and> 0 \<le> h2 ! n))
   \<and> (\<exists>h1 h2. ddm_fpt_const_mu True True True 1 [1, 1] 1 2 [- 5, - 5] [- 5, - 5]
        = Inr (0, h1, h2, 0)
      \<and> (\<forall>n < 2. 0 \<le> h1 ! n \<and> 0 \<le> h2 ! n))
   \<and> (\<exists>h1 h2. ddm_fpt_const 2147483647 1 (1 / 2) 1 1 [- 5] [- 5] = Inr (h1, h2)
      \<and> (\<forall>n < 1. 0 \<le> h1 ! n \<and> 0 \<le> h2 ! n))
   \<and> (\<exists>h1 h2. ddm_fpt_w True True True [1, 1] [1, 1] 1 1 2 [- 5, - 5] [- 5, - 5]
        = Inr (0, h1, h2, 0)
      \<and> (\<forall>n < 2. 0 \<le> h1 ! n \<and> 0 \<le> h2 ! n))"
proof (intro conjI)
  have "\<exists>h1 h2. ddm_fpt_full True True [1, 1] [1, 1] [- 1, - 1] [1, 1] [0, 0] [0, 0] 1 2
        [- 5, - 5] [- 5, - 5] = Inr (0, h1, h2, 0)"
    by (simp add: ddm_fpt_full_def full_cum_def for_loop_step for_loop_done arr_defs numeral_2_eq_2)
  then obtain h1 h2 where e: "ddm_fpt_full True True [1, 1] [1, 1] [- 1, - 1] [1, 1] [0, 0] [0, 0] 1 2
        [- 5, - 5] [- 5, - 5] = Inr (0, h1, h2, 0)" by blast
  from outputs_nonneg[THEN conjunct1, THEN mp, OF e] e
  show "\<exists>h1 h2. ddm_fpt_full True True [1, 1] [1, 1] [- 1, - 1] [1, 1] [0, 0] [0, 0] 1 2
        [- 5, - 5] [- 5, - 5] = Inr (0, h1, h2, 0)
      \<and> (\<forall>n < 2. 0 \<le> h1 ! n \<and> 0 \<le> h2 ! n)" by simp
next
  have "\<exists>h1 h2. ddm_fpt_full_leak True True True True [1, 1] [1, 1] [- 1, - 1] [1, 1] [0, 0] [0, 0]
        (1 / 2) 1 2 [- 5, - 5] [- 5, - 5] = Inr (0, h1, h2, 0)"
    by (simp add: ddm_fpt_full_leak_def leak_cum_def leak_disc2_head_def
        for_loop_step for_loop_done arr_defs numeral_2_eq_2)
  then obtain h1 h2 where e: "ddm_fpt_full_leak True True True True [1, 1] [1, 1] [- 1, - 1] [1, 1] [0, 0] [0, 0]
        (1 / 2) 1 2 [- 5, - 5] [- 5, - 5] = Inr (0, h1, h2, 0)" by blast
  from outputs_nonneg[THEN conjunct2, THEN conjunct1, THEN mp, OF e] e
  show "\<exists>h1 h2. ddm_fpt_full_leak True True True True [1, 1] [1, 1] [- 1, - 1] [1, 1] [0, 0] [0, 0]
        (1 / 2) 1 2 [- 5, - 5] [- 5, - 5] = Inr (0, h1, h2, 0)
      \<and> (\<forall>n < 2. 0 \<le> h1 ! n \<and> 0 \<le> h2 ! n)" by simp
next
  have "\<exists>h1 h2. ddm_fpt True True True True [1, 1] [1, 1] 1 2 [- 5, - 5] [- 5, - 5]
        = Inr (0, h1, h2, 0)"
    by (rule ddm_fpt_ok) simp_all
  then obtain h1 h2 where e: "ddm_fpt True True True True [1, 1] [1, 1] 1 2 [- 5, - 5] [- 5, - 5]
        = Inr (0, h1, h2, 0)" by blast
  from outputs_nonneg[THEN conjunct2, THEN conjunct2, THEN conjunct1, THEN mp, OF e] e
  show "\<exists>h1 h2. ddm_fpt True True True True [1, 1] [1, 1] 1 2 [- 5, - 5] [- 5, - 5]
        = Inr (0, h1, h2, 0)
      \<and> (\<forall>n < 2. 0 \<le> h1 ! n \<and> 0 \<le> h2 ! n)" by simp
next
  have "\<exists>h1 h2. ddm_fpt_const_mu True True True 1 [1, 1] 1 2 [- 5, - 5] [- 5, - 5]
        = Inr (0, h1, h2, 0)"
    by (rule ddm_fpt_const_mu_ok) simp_all
  then obtain h1 h2 where e: "ddm_fpt_const_mu True True True 1 [1, 1] 1 2 [- 5, - 5] [- 5, - 5]
        = Inr (0, h1, h2, 0)" by blast
  from outputs_nonneg[THEN conjunct2, THEN conjunct2, THEN conjunct2, THEN conjunct1, THEN mp, OF e] e
  show "\<exists>h1 h2. ddm_fpt_const_mu True True True 1 [1, 1] 1 2 [- 5, - 5] [- 5, - 5]
        = Inr (0, h1, h2, 0)
      \<and> (\<forall>n < 2. 0 \<le> h1 ! n \<and> 0 \<le> h2 ! n)" by simp
next
  from ddm_fpt_const_one obtain h1 h2 where
    e: "ddm_fpt_const 2147483647 1 (1 / 2) 1 1 [- 5] [- 5] = Inr (h1, h2)" by blast
  from outputs_nonneg[THEN conjunct2, THEN conjunct2, THEN conjunct2, THEN conjunct2,
      THEN conjunct1, THEN mp, OF e] e
  show "\<exists>h1 h2. ddm_fpt_const 2147483647 1 (1 / 2) 1 1 [- 5] [- 5] = Inr (h1, h2)
      \<and> (\<forall>n < 1. 0 \<le> h1 ! n \<and> 0 \<le> h2 ! n)" by simp
next
  have "\<exists>h1 h2. ddm_fpt_w True True True [1, 1] [1, 1] 1 1 2 [- 5, - 5] [- 5, - 5]
        = Inr (0, h1, h2, 0)"
    by (rule ddm_fpt_w_ok) simp_all
  then obtain h1 h2 where e: "ddm_fpt_w True True True [1, 1] [1, 1] 1 1 2 [- 5, - 5] [- 5, - 5]
        = Inr (0, h1, h2, 0)" by blast
  from outputs_nonneg[THEN conjunct2, THEN conjunct2, THEN conjunct2, THEN conjunct2,
      THEN conjunct2, THEN mp, OF e] e
  show "\<exists>h1 h2. ddm_fpt_w True True True [1, 1] [1, 1] 1 1 2 [- 5, - 5] [- 5, - 5]
        = Inr (0, h1, h2, 0)
      \<and> (\<forall>n < 2. 0 \<le> h1 ! n \<and> 0 \<le> h2 ! n)" by simp
qed

subsection \<open>The reflection identity of the weighted solver\<close>

text \<open>
  C3. After a successful call \<^verbatim>\<open>ddm_fpt_w(mu, bound, k, delta_t, n_max, g1, g2)\<close>, every
  index \<open>n\<close> below \<open>n_max\<close> has \<open>g2[n] = g1[n] * exp(-2*k*bound[n])\<close>, also where the raw
  value was negative and both elements were clamped to 0.
\<close>

theorem weighted_reflection:
  assumes "ddm_fpt_w ok1 ok2 ok3 mu bound k delta_t n_max g1 g2 = Inr (0, h1, h2, live)"
  shows "\<forall>n < nat n_max. h2 ! n = h1 ! n * exp (- 2 * k * bound ! n)"
  using assms by (rule ddm_fpt_w_reflect)

text \<open>
  Two calls on two grid points. In the first the raw value at step 0 is positive and is
  stored, \<open>g1[0] = 1 / sqrt(2*pi)\<close>. In the second the raw value at step 0 is
  \<open>-1 / sqrt(2*pi)\<close>, so both elements are clamped to 0, and step 1 stores a positive
  density.
\<close>

theorem weighted_reflection_witness:
  "(\<exists>h1 h2. ddm_fpt_w True True True [1, 1] [1, 1] 1 1 2 [- 5, - 5] [- 5, - 5] = Inr (0, h1, h2, 0)
      \<and> h1 ! 0 = 1 / sqrt (2 * pi)
      \<and> h2 ! 0 = h1 ! 0 * exp (- 2) \<and> h2 ! 1 = h1 ! 1 * exp (- 2))
   \<and> (\<exists>h1 h2. ddm_fpt_w True True True [1, 2] [1, 3] 1 1 2 [- 5, - 5] [- 5, - 5] = Inr (0, h1, h2, 0)
      \<and> h1 ! 0 = 0 \<and> h2 ! 0 = 0
      \<and> h1 ! 1 = exp (- (2 / 5)) * 2 / (5 * sqrt (10 * pi)) \<and> 0 < h1 ! 1
      \<and> h2 ! 0 = h1 ! 0 * exp (- 2) \<and> h2 ! 1 = h1 ! 1 * exp (- 6))"
proof (intro conjI)
  define v where "v = exp (- (1 / 4)) / (2 * sqrt (4 * pi)) -
                MAX_macro (exp (- 2) / sqrt (2 * pi)) 0 * exp (- (1 / 2)) * 2 / sqrt (2 * pi)"
  have e: "ddm_fpt_w True True True [1, 1] [1, 1] 1 1 2 [- 5, - 5] [- 5, - 5]
      = Inr (0, [MAX_macro (1 / sqrt (2 * pi)) 0, MAX_macro v 0],
                [MAX_macro (exp (- 2) / sqrt (2 * pi)) 0, MAX_macro (v * exp (- 2)) 0], 0)"
    unfolding v_def
    by (simp add: ddm_fpt_w_def w_cum_def w_inner_body_def for_loop_step for_loop_done arr_defs
        numeral_2_eq_2 TWOPI_def PI_def)
  have pos: "MAX_macro (1 / sqrt (2 * pi)) 0 = 1 / sqrt (2 * pi)"
    by (simp add: MAX_macro_def)
  note w = weighted_reflection[OF e, rule_format]
  have "[MAX_macro (exp (- 2) / sqrt (2 * pi)) 0, MAX_macro (v * exp (- 2)) 0] ! 0
          = [MAX_macro (1 / sqrt (2 * pi)) 0, MAX_macro v 0] ! 0 * exp (- 2)"
    using w[of 0] by simp
  moreover have "[MAX_macro (exp (- 2) / sqrt (2 * pi)) 0, MAX_macro (v * exp (- 2)) 0] ! 1
          = [MAX_macro (1 / sqrt (2 * pi)) 0, MAX_macro v 0] ! 1 * exp (- 2)"
    using w[of 1] by simp
  ultimately
  show "\<exists>h1 h2. ddm_fpt_w True True True [1, 1] [1, 1] 1 1 2 [- 5, - 5] [- 5, - 5] = Inr (0, h1, h2, 0)
      \<and> h1 ! 0 = 1 / sqrt (2 * pi)
      \<and> h2 ! 0 = h1 ! 0 * exp (- 2) \<and> h2 ! 1 = h1 ! 1 * exp (- 2)"
    using e pos
    by (intro exI[of _ "[MAX_macro (1 / sqrt (2 * pi)) 0, MAX_macro v 0]"]
        exI[of _ "[MAX_macro (exp (- 2) / sqrt (2 * pi)) 0, MAX_macro (v * exp (- 2)) 0]"]) simp
next
  define r where "r = - (1 / sqrt (2 * pi))"
  define v where "v = exp (- (2 / 5)) * 2 / (5 * sqrt (10 * pi)) -
                MAX_macro (- (exp (- 2) / sqrt (2 * pi))) 0 * 2 / sqrt (8 * pi)"
  have e: "ddm_fpt_w True True True [1, 2] [1, 3] 1 1 2 [- 5, - 5] [- 5, - 5]
      = Inr (0, [MAX_macro (- (1 / sqrt (2 * pi))) 0, MAX_macro v 0],
                [MAX_macro (- (exp (- 2) / sqrt (2 * pi))) 0, MAX_macro (v * exp (- 6)) 0], 0)"
    unfolding v_def
    by (simp add: ddm_fpt_w_def w_cum_def w_inner_body_def for_loop_step for_loop_done arr_defs
        numeral_2_eq_2 TWOPI_def PI_def)
  have clamp: "MAX_macro (- x) 0 = 0" if "0 \<le> x" for x :: real
    using that by (simp add: MAX_macro_def)
  have n1: "0 \<le> 1 / sqrt (2 * pi)" by (intro divide_nonneg_nonneg) simp_all
  have n2: "0 \<le> exp (- 2) / sqrt (2 * pi)" by (intro divide_nonneg_nonneg) simp_all
  have neg: "MAX_macro (- (1 / sqrt (2 * pi))) 0 = 0"
    "MAX_macro (- (exp (- 2) / sqrt (2 * pi))) 0 = 0"
    using clamp[OF n1] clamp[OF n2] by blast+
  have v: "v = exp (- (2 / 5)) * 2 / (5 * sqrt (10 * pi))" unfolding v_def neg by simp
  have vpos: "0 < v" unfolding v by simp
  then have mv: "MAX_macro v 0 = v" by (simp add: MAX_macro_def)
  note w = weighted_reflection[OF e, rule_format]
  have "[MAX_macro (- (exp (- 2) / sqrt (2 * pi))) 0, MAX_macro (v * exp (- 6)) 0] ! 0
          = [MAX_macro (- (1 / sqrt (2 * pi))) 0, MAX_macro v 0] ! 0 * exp (- 2)"
    using w[of 0] by simp
  moreover have "[MAX_macro (- (exp (- 2) / sqrt (2 * pi))) 0, MAX_macro (v * exp (- 6)) 0] ! 1
          = [MAX_macro (- (1 / sqrt (2 * pi))) 0, MAX_macro v 0] ! 1 * exp (- 6)"
    using w[of 1] by simp
  ultimately
  show "\<exists>h1 h2. ddm_fpt_w True True True [1, 2] [1, 3] 1 1 2 [- 5, - 5] [- 5, - 5] = Inr (0, h1, h2, 0)
      \<and> h1 ! 0 = 0 \<and> h2 ! 0 = 0
      \<and> h1 ! 1 = exp (- (2 / 5)) * 2 / (5 * sqrt (10 * pi)) \<and> 0 < h1 ! 1
      \<and> h2 ! 0 = h1 ! 0 * exp (- 2) \<and> h2 ! 1 = h1 ! 1 * exp (- 6)"
    using e neg mv vpos v
    by (intro exI[of _ "[MAX_macro (- (1 / sqrt (2 * pi))) 0, MAX_macro v 0]"]
        exI[of _ "[MAX_macro (- (exp (- 2) / sqrt (2 * pi))) 0, MAX_macro (v * exp (- 6)) 0]"]) simp
qed

end
